theory Spec2Isabelle
  imports Main "HOL-Library.Word" "HOL-Library.Signed_Division"
begin

unbundle bit_operations_syntax

section \<open>Go values shared by the embedding\<close>

text \<open>
  Go's \<open>int64\<close> is a 64-bit word: \<open>+\<close> wraps, comparison is signed (\<open><s\<close>) and
  the quotient \<open>/\<close> truncates towards zero.  Every divisor in the embedded code is a
  non-zero constant, so the division-by-zero panic of Go never arises.
\<close>

type_synonym int64 = "64 word"

definition int64_quo :: "int64 \<Rightarrow> int64 \<Rightarrow> int64" where
  "int64_quo a b = word_of_int (sint a sdiv sint b)"

text \<open>
  A Go map that may be \<open>nil\<close>.  Reading a nil map yields the zero value, \<open>delete\<close> on
  it is a no-op, and an assignment to it panics.  The maps held directly by
  \<open>internal.Conv\<close> are created by \<open>internal.MakeConv\<close> and are never nil; they are
  partial functions.  The maps nested in a struct (\<open>ColDefs\<close>, \<open>Cols\<close>, the inner issue
  map) are nil in the zero value that a lookup of an absent key returns.
\<close>

datatype ('k, 'v) gomap = NilMap | GoMap "'k \<rightharpoonup> 'v"

fun entries :: "('k, 'v) gomap \<Rightarrow> ('k \<rightharpoonup> 'v)" where
  "entries NilMap = Map.empty"
| "entries (GoMap m) = m"

fun mdelete :: "('k, 'v) gomap \<Rightarrow> 'k \<Rightarrow> ('k, 'v) gomap" where
  "mdelete NilMap k = NilMap"
| "mdelete (GoMap m) k = GoMap (m(k := None))"

text \<open>An assignment \<open>m[k] = v\<close>; \<open>None\<close> is the panic on a nil map.\<close>

fun mstore :: "('k, 'v) gomap \<Rightarrow> 'k \<Rightarrow> 'v \<Rightarrow> ('k, 'v) gomap option" where
  "mstore NilMap k v = None"
| "mstore (GoMap m) k v = Some (GoMap (m(k \<mapsto> v)))"

text \<open>A read \<open>m[k]\<close> with the zero value \<open>z\<close> of the element type.\<close>

definition get0 :: "'v \<Rightarrow> ('k \<rightharpoonup> 'v) \<Rightarrow> 'k \<Rightarrow> 'v" where
  "get0 z m k = (case m k of None \<Rightarrow> z | Some v \<Rightarrow> v)"

section \<open>The schema model\<close>

text \<open>
  The structs of packages \<open>ddl\<close>, \<open>schema\<close> and \<open>internal\<close>, with the fields that the
  code under verification reads and writes.  Field names carry a prefix naming their
  struct, since several structs share \<open>Name\<close>, \<open>ColNames\<close> and \<open>ColDefs\<close>.
\<close>

record ddl_Type =
  ty_Name :: string
  ty_Len :: int64
  ty_IsArray :: bool

record ColumnDef =
  cd_Name :: string
  cd_T :: ddl_Type
  cd_NotNull :: bool
  cd_Comment :: string

record IndexKey =
  ik_Col :: string
  ik_Desc :: bool

record Foreignkey =
  fk_Columns :: "string list"
  fk_ReferTable :: string
  fk_ReferColumns :: "string list"

record CreateTable =
  ct_Name :: string
  ct_ColNames :: "string list"
  ct_ColDefs :: "(string, ColumnDef) gomap"
  ct_Pks :: "IndexKey list"
  ct_Fks :: "Foreignkey list"
  ct_Parent :: string

record schema_Type =
  st_Name :: string
  st_Mods :: "int64 list"
  st_ArrayBounds :: "int64 list"

record Ignored =
  ig_Check :: bool
  ig_Default :: bool
  ig_ForeignKey :: bool
  ig_AutoIncrement :: bool

record Column =
  sc_Name :: string
  sc_Type :: schema_Type
  sc_NotNull :: bool
  sc_Unique :: bool
  sc_Ignored :: Ignored

record schema_Table =
  tb_Name :: string
  tb_ColNames :: "string list"
  tb_ColDefs :: "(string, Column) gomap"
  tb_PrimaryKeys :: "string list"
  tb_ForeignKeys :: "Foreignkey list"

record NameAndCols =
  nc_Name :: string
  nc_Cols :: "(string, string) gomap"

record SyntheticPKey =
  sp_Col :: string
  sp_Sequence :: int64

text \<open>
  \<open>internal.SchemaIssue\<close> is an enumeration; the three tags that the code names are
  constructors, every other tag a type mapper may return is \<open>OtherIssue\<close>.
\<close>

datatype SchemaIssue = DefaultValue | AutoIncrement | MultiDimensionalArray | OtherIssue nat

text \<open>The zero values that Go returns for an absent map key.\<close>

definition zero_Type :: ddl_Type where
  "zero_Type = \<lparr>ty_Name = [], ty_Len = 0, ty_IsArray = False\<rparr>"

definition zero_ColumnDef :: ColumnDef where
  "zero_ColumnDef = \<lparr>cd_Name = [], cd_T = zero_Type, cd_NotNull = False, cd_Comment = []\<rparr>"

definition zero_CreateTable :: CreateTable where
  "zero_CreateTable = \<lparr>ct_Name = [], ct_ColNames = [], ct_ColDefs = NilMap, ct_Pks = [],
     ct_Fks = [], ct_Parent = []\<rparr>"

definition zero_Column :: Column where
  "zero_Column = \<lparr>sc_Name = [],
     sc_Type = \<lparr>st_Name = [], st_Mods = [], st_ArrayBounds = []\<rparr>,
     sc_NotNull = False, sc_Unique = False,
     sc_Ignored = \<lparr>ig_Check = False, ig_Default = False, ig_ForeignKey = False,
       ig_AutoIncrement = False\<rparr>\<rparr>"

definition zero_schema_Table :: schema_Table where
  "zero_schema_Table = \<lparr>tb_Name = [], tb_ColNames = [], tb_ColDefs = NilMap,
     tb_PrimaryKeys = [], tb_ForeignKeys = []\<rparr>"

definition zero_NameAndCols :: NameAndCols where
  "zero_NameAndCols = \<lparr>nc_Name = [], nc_Cols = NilMap\<rparr>"

text \<open>
  Modelled from the spec: the constants of package \<open>ddl\<close> are not under src/.  They are
  the names of the primitive target families of section 4.1 and the length of an
  unbounded string, which is the largest \<open>int64\<close>.
\<close>

definition ddl_Bool :: string where "ddl_Bool = ''BOOL''"
definition ddl_Bytes :: string where "ddl_Bytes = ''BYTES''"
definition ddl_Date :: string where "ddl_Date = ''DATE''"
definition ddl_Float64 :: string where "ddl_Float64 = ''FLOAT64''"
definition ddl_Int64 :: string where "ddl_Int64 = ''INT64''"
definition ddl_String :: string where "ddl_String = ''STRING''"
definition ddl_Timestamp :: string where "ddl_Timestamp = ''TIMESTAMP''"
definition ddl_MaxLength :: int64 where "ddl_MaxLength = 0x7FFFFFFFFFFFFFFF"

subsection \<open>Values of the data pipeline\<close>

text \<open>
  A cell scanned by \<open>database/sql\<close> is an \<open>interface{}\<close> holding \<open>nil\<close>, a \<open>bool\<close>, a
  \<open>[]byte\<close>, an \<open>int64\<close>, a \<open>float64\<close>, a \<open>string\<close> or a \<open>time.Time\<close>; a converted cell may
  also hold a \<open>civil.Date\<close> or an array.  The code only passes floating-point numbers,
  times and dates on: a \<open>float64\<close> is its 64 bits, a \<open>time.Time\<close> an instant with the
  name of its zone, a \<open>civil.Date\<close> a year, a month and a day.  A byte slice is a
  \<open>string\<close>, whose characters are bytes.  \<open>VOther\<close> stands for a value of any other
  dynamic type.
\<close>

datatype float64 = Float64 "64 word"
datatype time_Time = Time int string
datatype civil_Date = Date int int int

datatype val =
    VNil
  | VBool bool
  | VBytes string
  | VInt64 int64
  | VFloat64 float64
  | VString string
  | VTime time_Time
  | VDate civil_Date
  | VArray "val list"
  | VOther nat

datatype cvt_error =
    ConvError string
  | NotBytes
  | CantConvertType val ddl_Type

datatype row_error =
    NoSchemaForColumn string string
  | CantConvertColumn string string cvt_error

text \<open>The conditions that \<open>ProcessSQLData\<close> reports through \<open>conv.Unexpected\<close>.\<close>

datatype report =
    CouldntGetTables string
  | CouldntGetData string
  | CantGetColsAndSchemas string "string option" "string option" "string option" bool bool
  | CouldntScanRow string
  | CouldntProcessRow row_error

record WrittenRow =
  wr_srcTable :: string
  wr_spTable :: string
  wr_cols :: "string list"
  wr_vals :: "val list"

record BadRow =
  br_table :: string
  br_cols :: "string list"
  br_vals :: "string list"

record Stats =
  Rows :: "string \<rightharpoonup> int64"
  BadRows :: "string \<rightharpoonup> int64"

subsection \<open>The conversion state\<close>

text \<open>
  \<open>internal.Conv\<close>.  The first eight fields are the ones the code under src/ uses by
  name.  The struct itself is declared outside src/; the last four fields are
  modelled from the spec: the reported unexpected conditions, the bounded sample of
  rejected rows with its bound (section 3, RowStats), and the rows handed to the sink
  collaborator through \<open>writeRow\<close> (section 6).
\<close>

record Conv =
  SpSchema :: "string \<rightharpoonup> CreateTable"
  SyntheticPKeys :: "string \<rightharpoonup> SyntheticPKey"
  SrcSchema :: "string \<rightharpoonup> schema_Table"
  Issues :: "string \<rightharpoonup> (string, SchemaIssue list) gomap"
  ToSpanner :: "string \<rightharpoonup> NameAndCols"
  ToSource :: "string \<rightharpoonup> NameAndCols"
  Location :: string
  Stats :: Stats
  Unexpecteds :: "report list"
  SampleBadRows :: "BadRow list"
  SampleLimit :: nat
  Written :: "WrittenRow list"

section \<open>web.go: the schema edit operations\<close>

text \<open>
  The handlers of web.go work on the global \<open>app\<close>; the embedding passes \<open>app.driver\<close>
  and \<open>app.conv\<close> explicitly and returns the new \<open>Conv\<close>.  A result of type
  \<open>Conv option\<close> is \<open>None\<close> when the Go code panics (an assignment to a nil map, an
  index out of range).  The text written to the \<open>http.ResponseWriter\<close> is not part of
  the state and is left out.

  The two dialect type mappers \<open>toSpannerTypeMySQL\<close> and \<open>toSpannerTypePostgres\<close> live
  in files of package \<open>web\<close> that are not under src/: they are parameters.
\<close>

type_synonym type_mapper = "string \<Rightarrow> string \<Rightarrow> int64 list \<Rightarrow> ddl_Type \<times> SchemaIssue list"

record TypeMappers =
  toSpannerTypeMySQL :: type_mapper
  toSpannerTypePostgres :: type_mapper

text \<open>The \<open>switch app.driver\<close> of \<open>updateType\<close> and \<open>setTypeMapGlobal\<close>.\<close>

definition mapperFor :: "TypeMappers \<Rightarrow> string \<Rightarrow> type_mapper option" where
  "mapperFor m driver =
    (if driver = ''mysql'' \<or> driver = ''mysqldump'' then Some (toSpannerTypeMySQL m)
     else if driver = ''pg_dump'' \<or> driver = ''postgres'' then Some (toSpannerTypePostgres m)
     else None)"

text \<open>\<open>app.conv.ToSource[table].Cols\<close>, and likewise for \<open>ToSpanner\<close>.\<close>

definition cols_of :: "(string \<rightharpoonup> NameAndCols) \<Rightarrow> string \<Rightarrow> (string, string) gomap" where
  "cols_of m t = nc_Cols (get0 zero_NameAndCols m t)"

text \<open>
  \<open>delete(app.conv.ToSource[table].Cols, colName)\<close> changes the map object that the
  entry of \<open>table\<close> holds; for an absent table the map is nil and nothing happens.
\<close>

definition delete_col ::
  "(string \<rightharpoonup> NameAndCols) \<Rightarrow> string \<Rightarrow> string \<Rightarrow> (string \<rightharpoonup> NameAndCols)" where
  "delete_col m t c =
    (case m t of None \<Rightarrow> m
     | Some nc \<Rightarrow> m(t \<mapsto> nc\<lparr>nc_Cols := mdelete (nc_Cols nc) c\<rparr>))"

text \<open>\<open>app.conv.ToSource[table].Cols[c] = v\<close>; a nil map panics.\<close>

definition store_col ::
  "(string \<rightharpoonup> NameAndCols) \<Rightarrow> string \<Rightarrow> string \<Rightarrow> string \<Rightarrow> (string \<rightharpoonup> NameAndCols) option" where
  "store_col m t c v =
    (case m t of None \<Rightarrow> None
     | Some nc \<Rightarrow> map_option (\<lambda>cols. m(t \<mapsto> nc\<lparr>nc_Cols := cols\<rparr>)) (mstore (nc_Cols nc) c v))"

text \<open>\<open>delete(app.conv.Issues[srcTableName], srcColName)\<close> and the matching assignment.\<close>

definition delete_issue ::
  "(string \<rightharpoonup> (string, SchemaIssue list) gomap) \<Rightarrow> string \<Rightarrow> string
    \<Rightarrow> (string \<rightharpoonup> (string, SchemaIssue list) gomap)" where
  "delete_issue m t c = (case m t of None \<Rightarrow> m | Some im \<Rightarrow> m(t \<mapsto> mdelete im c))"

definition store_issue ::
  "(string \<rightharpoonup> (string, SchemaIssue list) gomap) \<Rightarrow> string \<Rightarrow> string \<Rightarrow> SchemaIssue list
    \<Rightarrow> (string \<rightharpoonup> (string, SchemaIssue list) gomap) option" where
  "store_issue m t c v =
    (case m t of None \<Rightarrow> None
     | Some im \<Rightarrow> map_option (\<lambda>im'. m(t \<mapsto> im')) (mstore im c v))"

text \<open>
  \<open>remove\<close>, \<open>removePk\<close> and \<open>removeFk\<close> (lines 310-315 and 609-611) are the same
  function at three element types: \<open>append(slice[:s], slice[s+1:]...)\<close>.
\<close>

definition remove_slice :: "'a list \<Rightarrow> nat \<Rightarrow> 'a list" where
  "remove_slice xs s = take s xs @ drop (Suc s) xs"

definition removePk :: "IndexKey list \<Rightarrow> nat \<Rightarrow> IndexKey list" where
  "removePk xs s = remove_slice xs s"

definition removeFk :: "Foreignkey list \<Rightarrow> nat \<Rightarrow> Foreignkey list" where
  "removeFk xs s = remove_slice xs s"

text \<open>
  The loops of the form \<open>for i, x := range xs { if p(x) { ...; break } }\<close> act on the
  first index whose element satisfies the test.
\<close>

fun firstIndex :: "('a \<Rightarrow> bool) \<Rightarrow> 'a list \<Rightarrow> nat option" where
  "firstIndex p [] = None"
| "firstIndex p (x # xs) = (if p x then Some 0 else map_option Suc (firstIndex p xs))"

text \<open>Lines 319-324 (and again 380-385): drop the first occurrence of a column name.\<close>

definition dropColName :: "string \<Rightarrow> CreateTable \<Rightarrow> CreateTable" where
  "dropColName colName sp =
    (case firstIndex (\<lambda>col. col = colName) (ct_ColNames sp) of
       Some i \<Rightarrow> sp\<lparr>ct_ColNames := remove_slice (ct_ColNames sp) i\<rparr>
     | None \<Rightarrow> sp)"

text \<open>Lines 326-331 (and again 371-376, 387-392): drop the first key entry of a column.\<close>

definition dropPk :: "string \<Rightarrow> CreateTable \<Rightarrow> CreateTable" where
  "dropPk colName sp =
    (case firstIndex (\<lambda>pk. ik_Col pk = colName) (ct_Pks sp) of
       Some i \<Rightarrow> sp\<lparr>ct_Pks := removePk (ct_Pks sp) i\<rparr>
     | None \<Rightarrow> sp)"

text \<open>\<open>removeColumn\<close> (lines 317-337).  It assigns to no map and cannot panic.\<close>

definition removeColumn :: "string \<Rightarrow> string \<Rightarrow> string \<Rightarrow> Conv \<Rightarrow> Conv" where
  "removeColumn table colName srcTableName conv =
    (let sp = get0 zero_CreateTable (SpSchema conv) table;
         sp1 = dropColName colName sp;
         sp2 = sp1\<lparr>ct_ColDefs := mdelete (ct_ColDefs sp1) colName\<rparr>;
         sp3 = dropPk colName sp2;
         srcColName = get0 [] (entries (cols_of (ToSource conv) table)) colName
     in conv\<lparr>ToSource := delete_col (ToSource conv) table colName,
              ToSpanner := delete_col (ToSpanner conv) srcTableName srcColName,
              Issues := delete_issue (Issues conv) srcTableName srcColName,
              SpSchema := (SpSchema conv)(table \<mapsto> sp3)\<rparr>)"

text \<open>
  \<open>renameColumn\<close> (lines 338-366).  The column definition is copied under the new name
  and the old one deleted, in this order; the assignment happens only when the old
  definition was found, so \<open>sp.ColDefs\<close> is not nil there.  The two assignments to the
  correspondence maps panic when the table has no entry.
\<close>

definition renameColumn :: "string \<Rightarrow> string \<Rightarrow> string \<Rightarrow> string \<Rightarrow> Conv \<Rightarrow> Conv option" where
  "renameColumn newName table colName srcTableName conv =
    (let sp = get0 zero_CreateTable (SpSchema conv) table;
         sp1 = (case firstIndex (\<lambda>col. col = colName) (ct_ColNames sp) of
                  Some i \<Rightarrow> sp\<lparr>ct_ColNames := (ct_ColNames sp)[i := newName]\<rparr>
                | None \<Rightarrow> sp);
         sp2 = (case entries (ct_ColDefs sp1) colName of
                  Some cd \<Rightarrow>
                    sp1\<lparr>ct_ColDefs := mdelete
                      (GoMap ((entries (ct_ColDefs sp1))(newName \<mapsto>
                         \<lparr>cd_Name = newName, cd_T = cd_T cd, cd_NotNull = cd_NotNull cd,
                          cd_Comment = cd_Comment cd\<rparr>))) colName\<rparr>
                | None \<Rightarrow> sp1);
         sp3 = (case firstIndex (\<lambda>pk. ik_Col pk = colName) (ct_Pks sp2) of
                  Some i \<Rightarrow> sp2\<lparr>ct_Pks := (ct_Pks sp2)[i := (ct_Pks sp2 ! i)\<lparr>ik_Col := newName\<rparr>]\<rparr>
                | None \<Rightarrow> sp2);
         srcColName = get0 [] (entries (cols_of (ToSource conv) table)) colName
     in case store_col (ToSpanner conv) srcTableName srcColName newName of
          None \<Rightarrow> None
        | Some toSpanner \<Rightarrow>
           (case store_col (ToSource conv) table newName srcColName of
              None \<Rightarrow> None
            | Some toSource \<Rightarrow>
                Some (conv\<lparr>ToSpanner := toSpanner,
                           ToSource := delete_col toSource table colName,
                           SpSchema := (SpSchema conv)(table \<mapsto> sp3)\<rparr>)))"

text \<open>
  \<open>pkChanged\<close> (lines 368-397).  Adding a key retires the synthetic key of the table,
  when it has one, and then appends the new entry; the entry of \<open>SyntheticPKeys\<close> itself
  stays.
\<close>

definition pkChanged :: "string \<Rightarrow> string \<Rightarrow> string \<Rightarrow> Conv \<Rightarrow> Conv" where
  "pkChanged pkChange table colName conv =
    (let sp = get0 zero_CreateTable (SpSchema conv) table;
         sp1 = (if pkChange = ''REMOVED'' then dropPk colName sp else sp);
         sp2 = (if pkChange = ''ADDED''
                then (let sp' = (case SyntheticPKeys conv table of
                                   Some sPk \<Rightarrow>
                                     (let s1 = dropColName (sp_Col sPk) sp1;
                                          s2 = s1\<lparr>ct_ColDefs := mdelete (ct_ColDefs s1) (sp_Col sPk)\<rparr>
                                      in dropPk (sp_Col sPk) s2)
                                 | None \<Rightarrow> sp1)
                      in sp'\<lparr>ct_Pks := ct_Pks sp' @ [\<lparr>ik_Col = colName, ik_Desc = False\<rparr>]\<rparr>)
                else sp1)
     in conv\<lparr>SpSchema := (SpSchema conv)(table \<mapsto> sp2)\<rparr>)"

text \<open>
  Lines 407-427 of \<open>updateType\<close>, which lines 280-300 of \<open>setTypeMapGlobal\<close> repeat
  statement by statement: the type and the issue list computed for a source column
  \<open>srcCol\<close> and a desired target type, given the mapper \<open>f\<close> of the dialect.
\<close>

definition retype :: "type_mapper \<Rightarrow> Column \<Rightarrow> string \<Rightarrow> ddl_Type \<times> SchemaIssue list" where
  "retype f srcCol newType =
    (let (ty, issues) = f (st_Name (sc_Type srcCol)) newType (st_Mods (sc_Type srcCol));
         (ty, issues) =
            (if length (st_ArrayBounds (sc_Type srcCol)) > 1
             then (\<lparr>ty_Name = ddl_String, ty_Len = ddl_MaxLength, ty_IsArray = False\<rparr>,
                   issues @ [MultiDimensionalArray])
             else (ty, issues));
         issues = (if ig_Default (sc_Ignored srcCol) then issues @ [DefaultValue] else issues);
         issues = (if ig_AutoIncrement (sc_Ignored srcCol) then issues @ [AutoIncrement]
                   else issues)
     in (ty\<lparr>ty_IsArray := (length (st_ArrayBounds (sc_Type srcCol)) = 1)\<rparr>, issues))"

text \<open>
  The effect on the state of one retyped column: the issue list is stored only when it
  is not empty (lines 424-426), then the type of the column definition is overwritten
  (lines 428-430).  The definition is read with a zero default and assigned back, so
  a nil \<open>ColDefs\<close> panics.
\<close>

definition storeRetyped ::
  "string \<Rightarrow> string \<Rightarrow> string \<Rightarrow> Column \<Rightarrow> ddl_Type \<times> SchemaIssue list \<Rightarrow> Conv \<Rightarrow> Conv option" where
  "storeRetyped table col srcTableName srcCol r conv =
    (case (if snd r \<noteq> [] then store_issue (Issues conv) srcTableName (sc_Name srcCol) (snd r)
           else Some (Issues conv)) of
       None \<Rightarrow> None
     | Some issues \<Rightarrow>
        (let sp = get0 zero_CreateTable (SpSchema conv) table;
             colDef = get0 zero_ColumnDef (entries (ct_ColDefs sp)) col
         in case mstore (ct_ColDefs sp) col (colDef\<lparr>cd_T := fst r\<rparr>) of
              None \<Rightarrow> None
            | Some colDefs \<Rightarrow>
                Some (conv\<lparr>Issues := issues,
                           SpSchema := (SpSchema conv)(table \<mapsto> sp\<lparr>ct_ColDefs := colDefs\<rparr>)\<rparr>)))"

text \<open>The source column that a target column resolves to (lines 401-402, 272-274).\<close>

definition sourceColumn :: "Conv \<Rightarrow> string \<Rightarrow> string \<Rightarrow> string \<Rightarrow> Column" where
  "sourceColumn conv table col srcTableName =
    (let srcColName = get0 [] (entries (cols_of (ToSource conv) table)) col
     in get0 zero_Column
          (entries (tb_ColDefs (get0 zero_schema_Table (SrcSchema conv) srcTableName)))
          srcColName)"

text \<open>
  \<open>updateType\<close> (lines 399-432).  For an unsupported driver the function writes an
  HTTP error and returns with the state untouched.
\<close>

definition updateType ::
  "TypeMappers \<Rightarrow> string \<Rightarrow> string \<Rightarrow> string \<Rightarrow> string \<Rightarrow> string \<Rightarrow> Conv \<Rightarrow> Conv option" where
  "updateType m driver newType table newColName srcTableName conv =
    (let srcCol = sourceColumn conv table newColName srcTableName
     in case mapperFor m driver of
          None \<Rightarrow> Some conv
        | Some f \<Rightarrow> storeRetyped table newColName srcTableName srcCol (retype f srcCol newType) conv)"

text \<open>\<open>updateNotNull\<close> (lines 434-449).\<close>

definition updateNotNull :: "string \<Rightarrow> string \<Rightarrow> string \<Rightarrow> Conv \<Rightarrow> Conv option" where
  "updateNotNull notNullChange table newColName conv =
    (let sp = get0 zero_CreateTable (SpSchema conv) table;
         spColDef = get0 zero_ColumnDef (entries (ct_ColDefs sp)) newColName;
         put = (\<lambda>b. map_option
                  (\<lambda>colDefs. conv\<lparr>SpSchema := (SpSchema conv)(table \<mapsto> sp\<lparr>ct_ColDefs := colDefs\<rparr>)\<rparr>)
                  (mstore (ct_ColDefs sp) newColName (spColDef\<lparr>cd_NotNull := b\<rparr>)))
     in if notNullChange = ''ADDED'' then put True
        else if notNullChange = ''REMOVED'' then put False
        else Some (conv\<lparr>SpSchema := (SpSchema conv)(table \<mapsto> sp)\<rparr>))"

text \<open>The request body of \<open>updateTableSchema\<close> (lines 457-466).\<close>

record updateCol =
  uc_Removed :: bool
  uc_Rename :: string
  uc_PK :: string
  uc_NotNull :: string
  uc_ToType :: string

text \<open>
  The body of the loop of \<open>updateTableSchema\<close> (lines 490-507): the edits of one column,
  in the fixed order remove, rename, primary key, type, not-null.
\<close>

definition applyUpdateCol ::
  "TypeMappers \<Rightarrow> string \<Rightarrow> string \<Rightarrow> string \<Rightarrow> string \<Rightarrow> updateCol \<Rightarrow> Conv \<Rightarrow> Conv option" where
  "applyUpdateCol m driver table srcTableName colName v conv =
    (if uc_Removed v then Some (removeColumn table colName srcTableName conv)
     else
       let rename = (uc_Rename v \<noteq> [] \<and> uc_Rename v \<noteq> colName);
           newColName = (if rename then uc_Rename v else colName)
       in Option.bind
            (if rename then renameColumn (uc_Rename v) table colName srcTableName conv
             else Some conv)
            (\<lambda>conv.
          Option.bind
            (if uc_PK v \<noteq> [] then Some (pkChanged (uc_PK v) table newColName conv)
             else Some conv)
            (\<lambda>conv.
          Option.bind
            (if uc_ToType v \<noteq> []
             then updateType m driver (uc_ToType v) table newColName srcTableName conv
             else Some conv)
            (\<lambda>conv.
          if uc_NotNull v \<noteq> [] then updateNotNull (uc_NotNull v) table newColName conv
          else Some conv))))"

text \<open>
  \<open>updateTableSchema\<close> (lines 475-512).  Go ranges over the map \<open>t.UpdateCols\<close> in an
  unspecified order; \<open>updates\<close> lists the entries in the order of the run.
  \<open>conv.AddPrimaryKeys\<close> is not under src/ and is a parameter.
\<close>

fun updateCols ::
  "TypeMappers \<Rightarrow> string \<Rightarrow> string \<Rightarrow> string \<Rightarrow> (string \<times> updateCol) list \<Rightarrow> Conv \<Rightarrow> Conv option" where
  "updateCols m driver table srcTableName [] conv = Some conv"
| "updateCols m driver table srcTableName ((colName, v) # rest) conv =
    (case applyUpdateCol m driver table srcTableName colName v conv of
       None \<Rightarrow> None
     | Some conv' \<Rightarrow> updateCols m driver table srcTableName rest conv')"

definition updateTableSchema ::
  "TypeMappers \<Rightarrow> string \<Rightarrow> (Conv \<Rightarrow> Conv) \<Rightarrow> string \<Rightarrow> (string \<times> updateCol) list
    \<Rightarrow> Conv \<Rightarrow> Conv option" where
  "updateTableSchema m driver AddPrimaryKeys table updates conv =
    (let srcTableName = nc_Name (get0 zero_NameAndCols (ToSource conv) table)
     in map_option AddPrimaryKeys (updateCols m driver table srcTableName updates conv))"

text \<open>
  \<open>setTypeMapGlobal\<close> (lines 253-309).  The two nested loops range over the maps
  \<open>app.conv.SpSchema\<close> and \<open>spSchema.ColDefs\<close>; \<open>order\<close> lists the pairs of a table and a
  column in the order of the run.  The loop variable \<open>spSchema\<close> is a copy of the struct
  that shares the map \<open>ColDefs\<close> with \<open>app.conv.SpSchema[t]\<close>, so the assignment of line
  303 changes the schema.  An unsupported driver ends the handler at once with an HTTP
  error: \<open>Inl\<close> carries the state reached so far.
\<close>

definition setTypeMapCol ::
  "TypeMappers \<Rightarrow> string \<Rightarrow> (string \<rightharpoonup> string) \<Rightarrow> string \<Rightarrow> string \<Rightarrow> Conv
    \<Rightarrow> (Conv + Conv) option" where
  "setTypeMapCol m driver typeMap t col conv =
    (let sourceTable = nc_Name (get0 zero_NameAndCols (ToSource conv) t);
         srcCol = sourceColumn conv t col sourceTable
     in case typeMap (st_Name (sc_Type srcCol)) of
          None \<Rightarrow> Some (Inr conv)
        | Some newType \<Rightarrow>
           (case mapperFor m driver of
              None \<Rightarrow> Some (Inl conv)
            | Some f \<Rightarrow>
                map_option Inr
                  (storeRetyped t col sourceTable srcCol (retype f srcCol newType) conv)))"

fun setTypeMapGlobal ::
  "TypeMappers \<Rightarrow> string \<Rightarrow> (string \<rightharpoonup> string) \<Rightarrow> (string \<times> string) list \<Rightarrow> Conv
    \<Rightarrow> (Conv + Conv) option" where
  "setTypeMapGlobal m driver typeMap [] conv = Some (Inr conv)"
| "setTypeMapGlobal m driver typeMap ((t, col) # rest) conv =
    (case setTypeMapCol m driver typeMap t col conv of
       None \<Rightarrow> None
     | Some (Inl conv') \<Rightarrow> Some (Inl conv')
     | Some (Inr conv') \<Rightarrow> setTypeMapGlobal m driver typeMap rest conv')"

section \<open>web.go: the interleaving prefix check\<close>

text \<open>
  \<open>checkPrimaryKeyPrefix\<close> (web.go, lines 595-608) reads the two primary-key lists out
  of \<open>app.conv.SpSchema\<close>; a table that is absent there reads as the zero
  \<open>CreateTable\<close>, whose key list is empty.  The loop over \<open>parentPks\<close> carries its index.
  The disjunction of the source short-circuits: \<open>fk.ReferColumns[i]\<close> and
  \<open>childPks[i]\<close> are only read in range, while \<open>fk.Columns[i]\<close> is read without a
  bound check and panics (\<open>None\<close>) when the local column list is too short.
\<close>

fun prefixLoop :: "IndexKey list \<Rightarrow> Foreignkey \<Rightarrow> nat \<Rightarrow> IndexKey list \<Rightarrow> bool option" where
  "prefixLoop childPks fk i [] = Some True"
| "prefixLoop childPks fk i (pk # rest) =
    (if i \<ge> length (fk_ReferColumns fk) \<or> ik_Col pk \<noteq> fk_ReferColumns fk ! i
        \<or> ik_Col pk \<noteq> ik_Col (childPks ! i)
     then Some False
     else if i \<ge> length (fk_Columns fk) then None
     else if fk_Columns fk ! i \<noteq> fk_ReferColumns fk ! i then Some False
     else prefixLoop childPks fk (Suc i) rest)"

definition checkPrimaryKeyPrefix ::
  "(string \<rightharpoonup> CreateTable) \<Rightarrow> string \<Rightarrow> string \<Rightarrow> Foreignkey \<Rightarrow> bool option" where
  "checkPrimaryKeyPrefix spSchema table refTable fk =
    (let childPks = ct_Pks (get0 zero_CreateTable spSchema table);
         parentPks = ct_Pks (get0 zero_CreateTable spSchema refTable)
     in if length childPks \<ge> length parentPks
        then prefixLoop childPks fk 0 parentPks
        else Some False)"

text \<open>
  The condition of the specification (section 4.4), word for word: the child's key is at
  least as long as the parent's and, at every ordinal position of the parent's key,
  (a) the parent's key column is the referenced column of the foreign key,
  (b) the child's key column is the local column of the foreign key, and
  (c) the local and the referenced column have the same name.
\<close>

definition prefix_condition :: "IndexKey list \<Rightarrow> IndexKey list \<Rightarrow> Foreignkey \<Rightarrow> bool" where
  "prefix_condition childPks parentPks fk \<longleftrightarrow>
     length childPks \<ge> length parentPks \<and>
     (\<forall>i \<in> {0..<length parentPks}.
        i < length (fk_ReferColumns fk) \<and> i < length (fk_Columns fk) \<and>
        ik_Col (parentPks ! i) = fk_ReferColumns fk ! i \<and>
        ik_Col (childPks ! i) = fk_Columns fk ! i \<and>
        fk_Columns fk ! i = fk_ReferColumns fk ! i)"

text \<open>
  \<open>checkForInterleavedTables\<close> (lines 616-653), past its guard on \<open>app.conv\<close> and
  \<open>app.driver\<close>.  The loop over the foreign keys of the table skips a referenced table
  with a synthetic key and stops at the first foreign key that passes the check; it
  yields that table and the index of the foreign key.
\<close>

record TableInterleaveStatus =
  Possible :: bool
  Parent :: string
  Comment :: string

fun firstParent ::
  "Conv \<Rightarrow> string \<Rightarrow> nat \<Rightarrow> Foreignkey list \<Rightarrow> (string \<times> nat) option option" where
  "firstParent conv table i [] = Some None"
| "firstParent conv table i (fk # rest) =
    (if SyntheticPKeys conv (fk_ReferTable fk) \<noteq> None
     then firstParent conv table (Suc i) rest
     else case checkPrimaryKeyPrefix (SpSchema conv) table (fk_ReferTable fk) fk of
            None \<Rightarrow> None
          | Some True \<Rightarrow> Some (Some (fk_ReferTable fk, i))
          | Some False \<Rightarrow> firstParent conv table (Suc i) rest)"

definition checkForInterleavedTables ::
  "Conv \<Rightarrow> string \<Rightarrow> (TableInterleaveStatus \<times> Conv) option" where
  "checkForInterleavedTables conv table =
    (if SyntheticPKeys conv table \<noteq> None
     then Some (\<lparr>Possible = False, Parent = [], Comment = ''Has synthetic pk''\<rparr>, conv)
     else
       case firstParent conv table 0 (ct_Fks (get0 zero_CreateTable (SpSchema conv) table)) of
         None \<Rightarrow> None
       | Some None \<Rightarrow>
           Some (\<lparr>Possible = False, Parent = [], Comment = ''No valid prefix''\<rparr>, conv)
       | Some (Some (refTable, i)) \<Rightarrow>
           (let sp = get0 zero_CreateTable (SpSchema conv) table;
                sp' = sp\<lparr>ct_Parent := refTable, ct_Fks := removeFk (ct_Fks sp) i\<rparr>;
                conv' = conv\<lparr>SpSchema := (SpSchema conv)(table \<mapsto> sp')\<rparr>
            in if refTable = []
               then Some (\<lparr>Possible = False, Parent = [], Comment = ''No valid prefix''\<rparr>, conv')
               else Some (\<lparr>Possible = True, Parent = refTable, Comment = []\<rparr>, conv')))"

section \<open>web.go: the conversion-rate classifier\<close>

text \<open>
  \<open>rateSchema\<close> (web.go, lines 514-537).  The two closures \<open>good\<close> and \<open>ok\<close> and the
  \<open>switch\<close> with its nine cases are kept in the order of the source.
\<close>

definition good :: "int64 \<Rightarrow> int64 \<Rightarrow> bool" where
  "good n badCount = (badCount <s int64_quo n 20)"

definition ok :: "int64 \<Rightarrow> int64 \<Rightarrow> bool" where
  "ok n badCount = (badCount <s int64_quo n 3)"

definition rateSchema :: "int64 \<Rightarrow> int64 \<Rightarrow> bool \<Rightarrow> string" where
  "rateSchema cols warnings missingPKey =
    (if cols = 0 then ''GRAY''
     else if warnings = 0 \<and> \<not> missingPKey then ''GREEN''
     else if warnings = 0 \<and> missingPKey then ''BLUE''
     else if good cols warnings \<and> \<not> missingPKey then ''BLUE''
     else if good cols warnings \<and> missingPKey then ''BLUE''
     else if ok cols warnings \<and> \<not> missingPKey then ''YELLOW''
     else if ok cols warnings \<and> missingPKey then ''YELLOW''
     else if \<not> missingPKey then ''RED''
     else ''RED'')"

text \<open>
  The classifier as the specification words it: a cascade over the five labels, with
  the thresholds \<open>cols / 20\<close> and \<open>cols / 3\<close> in truncating integer division.
\<close>

definition rateSchema_spec :: "int64 \<Rightarrow> int64 \<Rightarrow> bool \<Rightarrow> string" where
  "rateSchema_spec cols warnings missingPKey =
    (if cols = 0 then ''GRAY''
     else if warnings = 0 \<and> \<not> missingPKey then ''GREEN''
     else if warnings = 0 \<or> sint warnings < sint cols sdiv 20 then ''BLUE''
     else if sint warnings < sint cols sdiv 3 then ''YELLOW''
     else ''RED'')"

section \<open>The data conversion pipeline\<close>

subsection \<open>Collaborators outside src/\<close>

text \<open>
  The scalar parsers \<open>convBool\<close>, \<open>convDate\<close>, \<open>convInt64\<close>, \<open>convFloat64\<close>,
  \<open>convTimestamp\<close> and the array parser \<open>convArray\<close> belong to files of the package
  that are not under src/; with the functions of the Go library that the code calls
  (\<open>civil.DateOf\<close>, the conversions between \<open>int64\<close> and \<open>float64\<close>,
  \<open>strconv.FormatInt\<close>, \<open>strconv.FormatFloat\<close>, \<open>time.Time.String\<close> and
  \<open>fmt.Sprintf("%v")\<close>) they are parameters.  A parser returns its error message on
  the left.
\<close>

record cvt_env =
  convBool :: "string \<Rightarrow> string + bool"
  convDate :: "string \<Rightarrow> string + civil_Date"
  convInt64 :: "string \<Rightarrow> string + int64"
  convFloat64 :: "string \<Rightarrow> string + float64"
  convTimestamp :: "string \<Rightarrow> string \<Rightarrow> string \<Rightarrow> string + time_Time"
  convArray :: "ddl_Type \<Rightarrow> string \<Rightarrow> string \<Rightarrow> string \<Rightarrow> string + val"
  civil_DateOf :: "time_Time \<Rightarrow> civil_Date"
  int64_of_float64 :: "float64 \<Rightarrow> int64"
  float64_of_int64 :: "int64 \<Rightarrow> float64"
  FormatInt :: "int64 \<Rightarrow> string"
  FormatFloat :: "float64 \<Rightarrow> string"
  time_String :: "time_Time \<Rightarrow> string"
  Sprintf_v :: "val \<Rightarrow> string"

text \<open>
  Modelled from the spec: \<open>conv.Unexpected\<close> is not under src/.  A failure "is
  reported" (section 4.5): the report is appended to the conditions the state records.
\<close>

definition Unexpected :: "Conv \<Rightarrow> report \<Rightarrow> Conv" where
  "Unexpected conv u = conv\<lparr>Unexpecteds := Unexpecteds conv @ [u]\<rparr>"

text \<open>
  Modelled from the spec: \<open>conv.DataMode\<close> and \<open>conv.StatsAddBadRow\<close> are not under
  src/.  The pipeline of section 4.5 is the data conversion run, and there "the whole
  row is counted as a bad row against the source table's statistics": the flag that the
  source passes is true in that run and enables the count of one row.
\<close>

definition DataMode :: "Conv \<Rightarrow> bool" where
  "DataMode conv = True"

definition StatsAddBadRow :: "Conv \<Rightarrow> string \<Rightarrow> bool \<Rightarrow> Conv" where
  "StatsAddBadRow conv srcTable b =
    (if b
     then conv\<lparr>Stats := (Stats conv)\<lparr>BadRows :=
            (BadRows (Stats conv))(srcTable \<mapsto> get0 0 (BadRows (Stats conv)) srcTable + 1)\<rparr>\<rparr>
     else conv)"

text \<open>
  Modelled from the spec: \<open>conv.CollectBadRow\<close> is not under src/.  "A bounded sample
  of the row's raw (stringified) values is retained for diagnostics": the row joins the
  sample as long as the sample is below its bound.
\<close>

definition CollectBadRow :: "Conv \<Rightarrow> string \<Rightarrow> string list \<Rightarrow> string list \<Rightarrow> Conv" where
  "CollectBadRow conv srcTable srcCols vals =
    (if length (SampleBadRows conv) < SampleLimit conv
     then conv\<lparr>SampleBadRows := SampleBadRows conv @
            [\<lparr>br_table = srcTable, br_cols = srcCols, br_vals = vals\<rparr>]\<rparr>
     else conv)"

text \<open>
  Modelled from the spec: \<open>conv.WriteRow\<close> is not under src/.  It "emits converted rows
  to a sink collaborator via \<open>writeRow(sourceTable, targetTable, cols, vals)\<close>"
  (section 6): the row is appended to the rows written.
\<close>

definition WriteRow :: "Conv \<Rightarrow> string \<Rightarrow> string \<Rightarrow> string list \<Rightarrow> val list \<Rightarrow> Conv" where
  "WriteRow conv srcTable spTable cols vals =
    conv\<lparr>Written := Written conv @
      [\<lparr>wr_srcTable = srcTable, wr_spTable = spTable, wr_cols = cols, wr_vals = vals\<rparr>]\<rparr>"

text \<open>
  Modelled from the spec: \<open>internal.GetSpannerTable\<close> and \<open>internal.GetSpannerCols\<close>
  are not under src/.  They resolve the target names of a source table and of its
  columns through the correspondence map \<open>ToSpanner\<close> of section 3; a name without an
  entry "cannot be resolved" and is an error.
\<close>

definition GetSpannerTable :: "Conv \<Rightarrow> string \<Rightarrow> string + string" where
  "GetSpannerTable conv srcTable =
    (case ToSpanner conv srcTable of
       None \<Rightarrow> Inl ''no target table''
     | Some nc \<Rightarrow> Inr (nc_Name nc))"

fun lookupCols :: "(string \<rightharpoonup> string) \<Rightarrow> string list \<Rightarrow> string + string list" where
  "lookupCols m [] = Inr []"
| "lookupCols m (c # cs) =
    (case m c of
       None \<Rightarrow> Inl ''no target column''
     | Some spCol \<Rightarrow>
        (case lookupCols m cs of Inl e \<Rightarrow> Inl e | Inr spCols \<Rightarrow> Inr (spCol # spCols)))"

definition GetSpannerCols :: "Conv \<Rightarrow> string \<Rightarrow> string list \<Rightarrow> string + string list" where
  "GetSpannerCols conv srcTable srcCols =
    lookupCols (entries (cols_of (ToSpanner conv) srcTable)) srcCols"

subsection \<open>Conversion of one cell\<close>

text \<open>
  \<open>cvtSQLArray\<close> (lines 454-460) and \<open>cvtSQLScalar\<close> (lines 476-549).  The outer
  \<open>switch\<close> is on the name of the target type, the inner type switches on the dynamic
  type of the value; a pair that no case covers falls through to the error of line
  548.
\<close>

definition parsed :: "('a \<Rightarrow> val) \<Rightarrow> string + 'a \<Rightarrow> cvt_error + val" where
  "parsed mk r = (case r of Inl e \<Rightarrow> Inl (ConvError e) | Inr x \<Rightarrow> Inr (mk x))"

definition FormatBool :: "bool \<Rightarrow> string" where
  "FormatBool b = (if b then ''true'' else ''false'')"

definition cvtSQLArray :: "cvt_env \<Rightarrow> Conv \<Rightarrow> Column \<Rightarrow> ColumnDef \<Rightarrow> val \<Rightarrow> cvt_error + val" where
  "cvtSQLArray env conv srcCd spCd v =
    (case v of
       VBytes a \<Rightarrow>
         parsed id (convArray env (cd_T spCd) (st_Name (sc_Type srcCd)) (Location conv) a)
     | _ \<Rightarrow> Inl NotBytes)"

definition cvtSQLScalar :: "cvt_env \<Rightarrow> Conv \<Rightarrow> Column \<Rightarrow> ColumnDef \<Rightarrow> val \<Rightarrow> cvt_error + val" where
  "cvtSQLScalar env conv srcCd spCd v =
    (let n = ty_Name (cd_T spCd);
         fail = Inl (CantConvertType v (cd_T spCd))
     in if n = ddl_Bool then
          (case v of
             VBool b \<Rightarrow> Inr (VBool b)
           | VString s \<Rightarrow> parsed VBool (convBool env s)
           | _ \<Rightarrow> fail)
        else if n = ddl_Bytes then
          (case v of
             VBytes b \<Rightarrow> Inr (VBytes b)
           | _ \<Rightarrow> fail)
        else if n = ddl_Date then
          (case v of
             VString s \<Rightarrow> parsed VDate (convDate env s)
           | VTime t \<Rightarrow> Inr (VDate (civil_DateOf env t))
           | _ \<Rightarrow> fail)
        else if n = ddl_Int64 then
          (case v of
             VBytes b \<Rightarrow> parsed VInt64 (convInt64 env b)
           | VInt64 i \<Rightarrow> Inr (VInt64 i)
           | VFloat64 f \<Rightarrow> Inr (VInt64 (int64_of_float64 env f))
           | VString s \<Rightarrow> parsed VInt64 (convInt64 env s)
           | _ \<Rightarrow> fail)
        else if n = ddl_Float64 then
          (case v of
             VBytes b \<Rightarrow> parsed VFloat64 (convFloat64 env b)
           | VInt64 i \<Rightarrow> Inr (VFloat64 (float64_of_int64 env i))
           | VFloat64 f \<Rightarrow> Inr (VFloat64 f)
           | VString s \<Rightarrow> parsed VFloat64 (convFloat64 env s)
           | _ \<Rightarrow> fail)
        else if n = ddl_String then
          (case v of
             VBool b \<Rightarrow> Inr (VString (FormatBool b))
           | VBytes b \<Rightarrow> Inr (VString b)
           | VInt64 i \<Rightarrow> Inr (VString (FormatInt env i))
           | VFloat64 f \<Rightarrow> Inr (VString (FormatFloat env f))
           | VString s \<Rightarrow> Inr (VString s)
           | VTime t \<Rightarrow> Inr (VString (time_String env t))
           | _ \<Rightarrow> fail)
        else if n = ddl_Timestamp then
          (case v of
             VString s \<Rightarrow>
               parsed VTime (convTimestamp env (st_Name (sc_Type srcCd)) (Location conv) s)
           | VTime t \<Rightarrow> Inr (VTime t)
           | _ \<Rightarrow> fail)
        else fail)"

text \<open>Lines 145-151: the array or the scalar conversion, by the flag of the target type.\<close>

definition cvtCell :: "cvt_env \<Rightarrow> Conv \<Rightarrow> Column \<Rightarrow> ColumnDef \<Rightarrow> val \<Rightarrow> cvt_error + val" where
  "cvtCell env conv srcCd spCd v =
    (if ty_IsArray (cd_T spCd) then cvtSQLArray env conv srcCd spCd v
     else cvtSQLScalar env conv srcCd spCd v)"

subsection \<open>Conversion of one row\<close>

text \<open>
  The loop of \<open>ConvertSQLRow\<close> (lines 136-157) over the indices of \<open>srcCols\<close>, with the
  two accumulators \<open>cs\<close> and \<open>vs\<close>.  The result is \<open>None\<close> when \<open>spCols[i]\<close> or
  \<open>srcVals[i]\<close> is out of range: the function "assumes that srcCols, spCols and srcVals
  all have the same length" and panics otherwise.  Both column definitions are looked
  up before they are tested, and the value is read after the test.
\<close>

fun convertColumns ::
  "cvt_env \<Rightarrow> Conv \<Rightarrow> string \<Rightarrow> string list \<Rightarrow> schema_Table \<Rightarrow> string list \<Rightarrow> CreateTable
    \<Rightarrow> val list \<Rightarrow> nat list \<Rightarrow> string list \<Rightarrow> val list
    \<Rightarrow> (row_error + string list \<times> val list) option" where
  "convertColumns env conv srcTable srcCols srcSchema spCols spSchema srcVals [] cs vs =
     Some (Inr (cs, vs))"
| "convertColumns env conv srcTable srcCols srcSchema spCols spSchema srcVals (i # is) cs vs =
    (if i \<ge> length spCols then None
     else
       case (entries (tb_ColDefs srcSchema) (srcCols ! i),
             entries (ct_ColDefs spSchema) (spCols ! i)) of
         (Some srcCd, Some spCd) \<Rightarrow>
           if i \<ge> length srcVals then None
           else if srcVals ! i = VNil
           then convertColumns env conv srcTable srcCols srcSchema spCols spSchema srcVals is
                  cs vs
           else
             (case cvtCell env conv srcCd spCd (srcVals ! i) of
                Inl err \<Rightarrow> Some (Inl (CantConvertColumn (srcCols ! i) srcTable err))
              | Inr spVal \<Rightarrow>
                  convertColumns env conv srcTable srcCols srcSchema spCols spSchema srcVals is
                    (cs @ [srcCols ! i]) (vs @ [spVal]))
       | _ \<Rightarrow> Some (Inl (NoSchemaForColumn (srcCols ! i) srcTable)))"

text \<open>
  \<open>ConvertSQLRow\<close> (lines 133-165) returns the column names, the values and the error,
  and leaves the advanced sequence of the synthetic key in \<open>conv\<close>.  A nil slice is the
  empty list.  \<open>bits.Reverse64\<close> is \<open>word_reverse\<close> on 64-bit words, and the conversions
  between \<open>int64\<close> and \<open>uint64\<close> keep the bits.
\<close>

definition ConvertSQLRow ::
  "cvt_env \<Rightarrow> Conv \<Rightarrow> string \<Rightarrow> string list \<Rightarrow> schema_Table \<Rightarrow> string \<Rightarrow> string list
    \<Rightarrow> CreateTable \<Rightarrow> val list \<Rightarrow> ((string list \<times> val list \<times> row_error option) \<times> Conv) option" where
  "ConvertSQLRow env conv srcTable srcCols srcSchema spTable spCols spSchema srcVals =
    (case convertColumns env conv srcTable srcCols srcSchema spCols spSchema srcVals
            [0..<length srcCols] [] [] of
       None \<Rightarrow> None
     | Some (Inl err) \<Rightarrow> Some (([], [], Some err), conv)
     | Some (Inr (cs, vs)) \<Rightarrow>
        (case SyntheticPKeys conv spTable of
           Some aux \<Rightarrow>
             Some ((cs @ [sp_Col aux], vs @ [VInt64 (word_reverse (sp_Sequence aux))], None),
                   conv\<lparr>SyntheticPKeys := (SyntheticPKeys conv)
                          (spTable \<mapsto> aux\<lparr>sp_Sequence := sp_Sequence aux + 1\<rparr>)\<rparr>)
         | None \<Rightarrow> Some ((cs, vs, None), conv)))"

subsection \<open>The tables of the source database\<close>

text \<open>
  The source database as \<open>ProcessSQLData\<close> sees it through \<open>database/sql\<close>: the rows of
  the catalogue query of \<open>getTables\<close>, and for each table the outcome of its
  \<open>SELECT *\<close>: an error, or the row set with the outcome of \<open>rows.Columns()\<close> and
  the outcomes of the successive \<open>rows.Scan\<close> calls (an error, or the cells of the row).
\<close>

record sql_Rows =
  rows_Columns :: "string + string list"
  rows_Scans :: "(string + val list) list"

record sql_DB =
  db_Tables :: "string + (string \<times> string) list"
  db_Select :: "string \<Rightarrow> string \<Rightarrow> string + sql_Rows"

text \<open>\<open>getTables\<close> (lines 205-226) drops the tables of the system schemas.\<close>

definition ignoredSchemas :: "string list" where
  "ignoredSchemas = [''information_schema'', ''postgres'', ''pg_catalog'', ''pg_temp_1'',
     ''pg_toast'', ''pg_toast_temp_1'']"

definition getTables :: "sql_DB \<Rightarrow> string + (string \<times> string) list" where
  "getTables db =
    (case db_Tables db of
       Inl err \<Rightarrow> Inl err
     | Inr rows \<Rightarrow> Inr (filter (\<lambda>(tableSchema, tableName). tableSchema \<notin> set ignoredSchemas) rows))"

text \<open>\<open>buildTableName\<close> (lines 581-586).\<close>

definition buildTableName :: "string \<Rightarrow> string \<Rightarrow> string" where
  "buildTableName schema name = (if schema = ''public'' then name else schema @ ''.'' @ name)"

text \<open>\<open>valsToStrings\<close> (lines 563-579).\<close>

definition valsToStrings :: "cvt_env \<Rightarrow> val list \<Rightarrow> string list" where
  "valsToStrings env vals = map (\<lambda>v. if v = VNil then ''NULL'' else Sprintf_v env v) vals"

subsection \<open>The loops of \<open>ProcessSQLData\<close>\<close>

text \<open>
  The loop \<open>for rows.Next()\<close> (lines 107-123) over the scans of one table.  The schemas
  and the column lists were fixed before the loop; \<open>conv\<close> is threaded through.
\<close>

fun processRows ::
  "cvt_env \<Rightarrow> string \<Rightarrow> string list \<Rightarrow> schema_Table \<Rightarrow> string \<Rightarrow> string list \<Rightarrow> CreateTable
    \<Rightarrow> (string + val list) list \<Rightarrow> Conv \<Rightarrow> Conv option" where
  "processRows env srcTable srcCols srcSchema spTable spCols spSchema [] conv = Some conv"
| "processRows env srcTable srcCols srcSchema spTable spCols spSchema (scan # rest) conv =
    (case scan of
       Inl err \<Rightarrow>
         (let conv1 = Unexpected conv (CouldntScanRow err);
              conv2 = StatsAddBadRow conv1 srcTable (DataMode conv1)
          in processRows env srcTable srcCols srcSchema spTable spCols spSchema rest conv2)
     | Inr v \<Rightarrow>
        (case ConvertSQLRow env conv srcTable srcCols srcSchema spTable spCols spSchema v of
           None \<Rightarrow> None
         | Some ((cvtCols, cvtVals, Some err), conv0) \<Rightarrow>
            (let conv1 = Unexpected conv0 (CouldntProcessRow err);
                 conv2 = StatsAddBadRow conv1 srcTable (DataMode conv1);
                 conv3 = CollectBadRow conv2 srcTable srcCols (valsToStrings env v)
             in processRows env srcTable srcCols srcSchema spTable spCols spSchema rest conv3)
         | Some ((cvtCols, cvtVals, None), conv0) \<Rightarrow>
             processRows env srcTable srcCols srcSchema spTable spCols spSchema rest
               (WriteRow conv0 srcTable spTable cvtCols cvtVals)))"

text \<open>
  The body of the loop over the tables (lines 84-123).  When the query fails the table
  is reported and skipped.  When the columns, the target names or one of the two
  schemas cannot be obtained, the row count of the table is added to its bad rows
  (line 101), the table is reported and skipped.
\<close>

definition errOf :: "string + 'a \<Rightarrow> string option" where
  "errOf r = (case r of Inl e \<Rightarrow> Some e | Inr x \<Rightarrow> None)"

definition valOf :: "'a \<Rightarrow> string + 'a \<Rightarrow> 'a" where
  "valOf z r = (case r of Inl e \<Rightarrow> z | Inr x \<Rightarrow> x)"

definition processTable :: "cvt_env \<Rightarrow> sql_DB \<Rightarrow> string \<times> string \<Rightarrow> Conv \<Rightarrow> Conv option" where
  "processTable env db t conv =
    (case db_Select db (fst t) (snd t) of
       Inl err \<Rightarrow> Some (Unexpected conv (CouldntGetData err))
     | Inr rows \<Rightarrow>
        (let srcTable = buildTableName (fst t) (snd t);
             r1 = rows_Columns rows;
             srcCols = valOf [] r1;
             r2 = GetSpannerTable conv srcTable;
             spTable = valOf [] r2;
             r3 = GetSpannerCols conv srcTable srcCols;
             spCols = valOf [] r3;
             ok1 = (SpSchema conv spTable \<noteq> None);
             spSchema = get0 zero_CreateTable (SpSchema conv) spTable;
             ok2 = (SrcSchema conv srcTable \<noteq> None);
             srcSchema = get0 zero_schema_Table (SrcSchema conv) srcTable
         in if errOf r1 \<noteq> None \<or> errOf r2 \<noteq> None \<or> errOf r3 \<noteq> None \<or> \<not> ok1 \<or> \<not> ok2
            then
              Some (Unexpected
                (conv\<lparr>Stats := (Stats conv)\<lparr>BadRows := (BadRows (Stats conv))(srcTable \<mapsto>
                    get0 0 (BadRows (Stats conv)) srcTable + get0 0 (Rows (Stats conv)) srcTable)\<rparr>\<rparr>)
                (CantGetColsAndSchemas srcTable (errOf r1) (errOf r2) (errOf r3) ok1 ok2))
            else processRows env srcTable srcCols srcSchema spTable spCols spSchema
                   (rows_Scans rows) conv))"

fun processTables :: "cvt_env \<Rightarrow> sql_DB \<Rightarrow> (string \<times> string) list \<Rightarrow> Conv \<Rightarrow> Conv option" where
  "processTables env db [] conv = Some conv"
| "processTables env db (t # ts) conv =
    (case processTable env db t conv of
       None \<Rightarrow> None
     | Some conv' \<Rightarrow> processTables env db ts conv')"

text \<open>\<open>ProcessSQLData\<close> (lines 75-125).\<close>

definition ProcessSQLData :: "cvt_env \<Rightarrow> Conv \<Rightarrow> sql_DB \<Rightarrow> Conv option" where
  "ProcessSQLData env conv db =
    (case getTables db of
       Inl err \<Rightarrow> Some (Unexpected conv (CouldntGetTables err))
     | Inr tables \<Rightarrow> processTables env db tables conv)"

section \<open>The correspondence invariant\<close>

text \<open>
  The invariant of section 3 on the two correspondence maps.  Every column entry of
  \<open>ToSource\<close> is found back through \<open>ToSpanner\<close>:
  \<open>ToSpanner[ToSource[t].Name].Cols[ToSource[t].Cols[c]] == c\<close>, and symmetrically;
  and the table names of the two maps point at each other.
\<close>

definition source_round_trip :: "Conv \<Rightarrow> bool" where
  "source_round_trip conv \<longleftrightarrow>
     (\<forall>t nc c s. ToSource conv t = Some nc \<and> entries (nc_Cols nc) c = Some s \<longrightarrow>
        entries (cols_of (ToSpanner conv) (nc_Name nc)) s = Some c)"

definition spanner_round_trip :: "Conv \<Rightarrow> bool" where
  "spanner_round_trip conv \<longleftrightarrow>
     (\<forall>s nc sc c. ToSpanner conv s = Some nc \<and> entries (nc_Cols nc) sc = Some c \<longrightarrow>
        entries (cols_of (ToSource conv) (nc_Name nc)) c = Some sc)"

definition table_names_inverse :: "Conv \<Rightarrow> bool" where
  "table_names_inverse conv \<longleftrightarrow>
     (\<forall>t nc. ToSource conv t = Some nc \<longrightarrow>
        (\<exists>nc'. ToSpanner conv (nc_Name nc) = Some nc' \<and> nc_Name nc' = t)) \<and>
     (\<forall>s nc. ToSpanner conv s = Some nc \<longrightarrow>
        (\<exists>nc'. ToSource conv (nc_Name nc) = Some nc' \<and> nc_Name nc' = s))"

definition maps_inverse :: "Conv \<Rightarrow> bool" where
  "maps_inverse conv \<longleftrightarrow>
     source_round_trip conv \<and> spanner_round_trip conv \<and> table_names_inverse conv"

text \<open>
  A batch of edits that only removes and renames columns, each of them naming a column
  that the correspondence map of the table holds when its turn comes, and each new name
  being unused in that map at that moment.
\<close>

fun edits_ok ::
  "TypeMappers \<Rightarrow> string \<Rightarrow> string \<Rightarrow> string \<Rightarrow> (string \<times> updateCol) list \<Rightarrow> Conv \<Rightarrow> bool" where
  "edits_ok m driver table srcTableName [] conv = True"
| "edits_ok m driver table srcTableName ((colName, v) # rest) conv =
    (uc_PK v = [] \<and> uc_ToType v = [] \<and> uc_NotNull v = [] \<and>
     entries (cols_of (ToSource conv) table) colName \<noteq> None \<and>
     (if \<not> uc_Removed v \<and> uc_Rename v \<noteq> [] \<and> uc_Rename v \<noteq> colName
      then entries (cols_of (ToSource conv) table) (uc_Rename v) = None else True) \<and>
     (case applyUpdateCol m driver table srcTableName colName v conv of
        None \<Rightarrow> True
      | Some conv' \<Rightarrow> edits_ok m driver table srcTableName rest conv'))"

text \<open>
  Well-formedness of a table for the edits of one column: the column occurs at most once
  in the column-name list and in the key list of its table; and the empty string is
  not the name of a source column of the source table.
\<close>

definition column_listed_once :: "Conv \<Rightarrow> string \<Rightarrow> string \<Rightarrow> bool" where
  "column_listed_once conv table colName \<longleftrightarrow>
     length (filter (\<lambda>col. col = colName)
       (ct_ColNames (get0 zero_CreateTable (SpSchema conv) table))) \<le> 1 \<and>
     length (filter (\<lambda>pk. ik_Col pk = colName)
       (ct_Pks (get0 zero_CreateTable (SpSchema conv) table))) \<le> 1"

definition no_empty_source_column :: "Conv \<Rightarrow> string \<Rightarrow> bool" where
  "no_empty_source_column conv srcTableName \<longleftrightarrow>
     entries (cols_of (ToSpanner conv) srcTableName) [] = None \<and>
     entries (get0 NilMap (Issues conv) srcTableName) [] = None"

section \<open>Retyping as the specification words it\<close>

text \<open>
  The target type of a retyped column, in the words of section 4.6: the type mapper of
  the dialect is invoked with the type name and the modifiers of the original source
  column and with the desired type; a source column with more than one array bound
  becomes an unbounded string instead; the array flag is set for exactly one bound.
\<close>

definition retyped_type :: "type_mapper \<Rightarrow> Column \<Rightarrow> string \<Rightarrow> ddl_Type" where
  "retyped_type f srcCol newType =
    (if length (st_ArrayBounds (sc_Type srcCol)) > 1
     then \<lparr>ty_Name = ddl_String, ty_Len = ddl_MaxLength, ty_IsArray = False\<rparr>
     else (fst (f (st_Name (sc_Type srcCol)) newType (st_Mods (sc_Type srcCol))))
            \<lparr>ty_IsArray := (length (st_ArrayBounds (sc_Type srcCol)) = 1)\<rparr>)"

text \<open>
  The issues of a retyped column: those of the mapper, followed by the
  multi-dimensional-array, default-value and auto-increment issues that apply to the
  source column.
\<close>

definition reattached_issues :: "type_mapper \<Rightarrow> Column \<Rightarrow> string \<Rightarrow> SchemaIssue list" where
  "reattached_issues f srcCol newType =
     snd (f (st_Name (sc_Type srcCol)) newType (st_Mods (sc_Type srcCol)))
     @ (if length (st_ArrayBounds (sc_Type srcCol)) > 1 then [MultiDimensionalArray] else [])
     @ (if ig_Default (sc_Ignored srcCol) then [DefaultValue] else [])
     @ (if ig_AutoIncrement (sc_Ignored srcCol) then [AutoIncrement] else [])"

text \<open>
  A table whose columns can be retyped without a panic: it is in the target schema with
  a map of column definitions, and the source table it corresponds to has a map of
  issues.
\<close>

definition assignable :: "Conv \<Rightarrow> string \<Rightarrow> bool" where
  "assignable conv t \<longleftrightarrow>
     (\<exists>sp cds. SpSchema conv t = Some sp \<and> ct_ColDefs sp = GoMap cds) \<and>
     (\<exists>im. Issues conv (nc_Name (get0 zero_NameAndCols (ToSource conv) t)) = Some (GoMap im))"

text \<open>
  Every source column is stored under its own name.
\<close>

definition source_names_consistent :: "Conv \<Rightarrow> bool" where
  "source_names_consistent conv \<longleftrightarrow>
     (\<forall>s tb k c. SrcSchema conv s = Some tb \<and> entries (tb_ColDefs tb) k = Some c \<longrightarrow>
        sc_Name c = k)"

text \<open>
  The type of a target column and the issue list of a source column, as read from the
  state.
\<close>

definition column_type :: "string \<Rightarrow> string \<Rightarrow> Conv \<Rightarrow> ddl_Type" where
  "column_type table col conv =
     cd_T (get0 zero_ColumnDef (entries (ct_ColDefs (get0 zero_CreateTable (SpSchema conv) table))) col)"

definition column_issues :: "string \<Rightarrow> string \<Rightarrow> Conv \<Rightarrow> SchemaIssue list" where
  "column_issues srcTable srcColName conv =
     get0 [] (entries (get0 NilMap (Issues conv) srcTable)) srcColName"

text \<open>
  The plain string of unbounded length: \<open>ddl.Type{Name: ddl.String, Len: ddl.MaxLength}\<close>.
\<close>

definition string_max :: ddl_Type where
  "string_max = \<lparr>ty_Name = ddl_String, ty_Len = ddl_MaxLength, ty_IsArray = False\<rparr>"

text \<open>
  The source column of a target column, resolved through \<open>ToSource\<close> as the loop of
  \<open>setTypeMapGlobal\<close> does.
\<close>

definition resolvedColumn :: "Conv \<Rightarrow> string \<Rightarrow> string \<Rightarrow> Column" where
  "resolvedColumn conv t col =
     sourceColumn conv t col (nc_Name (get0 zero_NameAndCols (ToSource conv) t))"

text \<open>
  The state in which \<open>setTypeMapGlobal\<close> ends when it ran through all columns.
\<close>

definition finished :: "(Conv + Conv) option \<Rightarrow> Conv option" where
  "finished r = (case r of Some (Inr conv) \<Rightarrow> Some conv | _ \<Rightarrow> None)"

section \<open>The row pipeline as the specification words it\<close>

text \<open>
  A cell makes its row fail when the source column or the target column has no
  definition, or when the cell is not null and its scalar or array conversion fails.
\<close>

definition cell_fails ::
  "cvt_env \<Rightarrow> Conv \<Rightarrow> string list \<Rightarrow> schema_Table \<Rightarrow> string list \<Rightarrow> CreateTable \<Rightarrow> val list
    \<Rightarrow> nat \<Rightarrow> bool" where
  "cell_fails env conv srcCols srcSchema spCols spSchema srcVals i =
    (case (entries (tb_ColDefs srcSchema) (srcCols ! i),
           entries (ct_ColDefs spSchema) (spCols ! i)) of
       (Some srcCd, Some spCd) \<Rightarrow>
          srcVals ! i \<noteq> VNil \<and> isl (cvtCell env conv srcCd spCd (srcVals ! i))
     | _ \<Rightarrow> True)"

text \<open>
  A row fails when one of its cells does.
\<close>

definition row_fails ::
  "cvt_env \<Rightarrow> Conv \<Rightarrow> string list \<Rightarrow> schema_Table \<Rightarrow> string list \<Rightarrow> CreateTable \<Rightarrow> val list
    \<Rightarrow> bool" where
  "row_fails env conv srcCols srcSchema spCols spSchema srcVals =
     list_ex (cell_fails env conv srcCols srcSchema spCols spSchema srcVals) [0..<length srcCols]"

text \<open>
  The converted value of a cell whose conversion succeeds.
\<close>

definition converted_cell ::
  "cvt_env \<Rightarrow> Conv \<Rightarrow> string list \<Rightarrow> schema_Table \<Rightarrow> string list \<Rightarrow> CreateTable \<Rightarrow> val list
    \<Rightarrow> nat \<Rightarrow> val" where
  "converted_cell env conv srcCols srcSchema spCols spSchema srcVals i =
    (case (entries (tb_ColDefs srcSchema) (srcCols ! i),
           entries (ct_ColDefs spSchema) (spCols ! i)) of
       (Some srcCd, Some spCd) \<Rightarrow>
          (case cvtCell env conv srcCd spCd (srcVals ! i) of Inr v \<Rightarrow> v | Inl e \<Rightarrow> VNil)
     | _ \<Rightarrow> VNil)"

text \<open>
  The indices of the cells that are not null.
\<close>

definition non_null_cells :: "val list \<Rightarrow> nat list \<Rightarrow> nat list" where
  "non_null_cells srcVals is = filter (\<lambda>i. srcVals ! i \<noteq> VNil) is"

text \<open>
  The column and the value that the synthetic key of the target table contributes to a
  row: nothing when the table has no synthetic key.
\<close>

definition synthetic_columns :: "Conv \<Rightarrow> string \<Rightarrow> string list" where
  "synthetic_columns conv spTable =
    (case SyntheticPKeys conv spTable of Some aux \<Rightarrow> [sp_Col aux] | None \<Rightarrow> [])"

definition synthetic_values :: "Conv \<Rightarrow> string \<Rightarrow> val list" where
  "synthetic_values conv spTable =
    (case SyntheticPKeys conv spTable of
       Some aux \<Rightarrow> [VInt64 (word_reverse (sp_Sequence aux))] | None \<Rightarrow> [])"

text \<open>
  The error of a failing row: that of its first failing cell.
\<close>

definition first_row_error ::
  "cvt_env \<Rightarrow> Conv \<Rightarrow> string \<Rightarrow> string list \<Rightarrow> schema_Table \<Rightarrow> string list \<Rightarrow> CreateTable
    \<Rightarrow> val list \<Rightarrow> row_error" where
  "first_row_error env conv srcTable srcCols srcSchema spCols spSchema srcVals =
    (case find (cell_fails env conv srcCols srcSchema spCols spSchema srcVals)
            [0..<length srcCols] of
       Some i \<Rightarrow>
         (case (entries (tb_ColDefs srcSchema) (srcCols ! i),
                entries (ct_ColDefs spSchema) (spCols ! i)) of
            (Some srcCd, Some spCd) \<Rightarrow>
              CantConvertColumn (srcCols ! i) srcTable
                (projl (cvtCell env conv srcCd spCd (srcVals ! i)))
          | _ \<Rightarrow> NoSchemaForColumn (srcCols ! i) srcTable)
     | None \<Rightarrow> NoSchemaForColumn [] srcTable)"

text \<open>
  The names of the source columns whose cell is not null, in the order of the row.
\<close>

definition non_null_columns :: "string list \<Rightarrow> val list \<Rightarrow> string list" where
  "non_null_columns srcCols srcVals =
     map (\<lambda>i. srcCols ! i) (non_null_cells srcVals [0..<length srcCols])"

text \<open>
  The state after a converted row: the sequence of the synthetic key, if any, advanced
  by one.
\<close>

definition advance_sequence :: "Conv \<Rightarrow> string \<Rightarrow> Conv" where
  "advance_sequence conv spTable =
    (case SyntheticPKeys conv spTable of
       Some aux \<Rightarrow> conv\<lparr>SyntheticPKeys := (SyntheticPKeys conv)
                          (spTable \<mapsto> aux\<lparr>sp_Sequence := sp_Sequence aux + 1\<rparr>)\<rparr>
     | None \<Rightarrow> conv)"

text \<open>
  The bad-row counter of a source table, read as Go reads the map.
\<close>

definition badRowsOf :: "string \<Rightarrow> Conv \<Rightarrow> int64" where
  "badRowsOf t conv = get0 0 (BadRows (Stats conv)) t"

text \<open>
  What the caller does with a row that failed (lines 117-119): report it, count it,
  and offer its stringified cells to the sample.
\<close>

definition bad_row_recorded :: "cvt_env \<Rightarrow> string \<Rightarrow> string list \<Rightarrow> val list \<Rightarrow> row_error \<Rightarrow> Conv \<Rightarrow> Conv" where
  "bad_row_recorded env srcTable srcCols srcVals err conv =
     CollectBadRow
       (StatsAddBadRow (Unexpected conv (CouldntProcessRow err)) srcTable True)
       srcTable srcCols (valsToStrings env srcVals)"

text \<open>
  The value of the synthetic key column of a written row: the last one.
\<close>

definition synthetic_value :: "WrittenRow \<Rightarrow> val" where
  "synthetic_value w = last (wr_vals w)"

text \<open>
  Every scanned row has one cell per column of the row set, as \<open>rows.Scan\<close> into the
  containers of \<open>buildVals(len(srcCols))\<close> ensures.
\<close>

definition scans_fit :: "string list \<Rightarrow> (string + val list) list \<Rightarrow> bool" where
  "scans_fit srcCols scans = list_all (\<lambda>scan. case scan of Inl e \<Rightarrow> True
      | Inr v \<Rightarrow> length v = length srcCols) scans"

text \<open>
  The condition of line 100: the columns, the target table, the target columns, the
  target schema or the source schema of the table cannot be obtained.
\<close>

definition table_unresolved :: "Conv \<Rightarrow> string \<Rightarrow> sql_Rows \<Rightarrow> bool" where
  "table_unresolved conv srcTable rows \<longleftrightarrow>
     isl (rows_Columns rows) \<or>
     isl (GetSpannerTable conv srcTable) \<or>
     isl (GetSpannerCols conv srcTable (valOf [] (rows_Columns rows))) \<or>
     SpSchema conv (valOf [] (GetSpannerTable conv srcTable)) = None \<or>
     SrcSchema conv srcTable = None"

text \<open>
  The row count of a source table, and observers of the final state of a run.
\<close>

definition rowsOf :: "string \<Rightarrow> Conv \<Rightarrow> int64" where
  "rowsOf t conv = get0 0 (Rows (Stats conv)) t"

definition written_synthetic :: "Conv \<Rightarrow> val list" where
  "written_synthetic conv = map synthetic_value (Written conv)"

definition sequence_of :: "string \<Rightarrow> Conv \<Rightarrow> int64 option" where
  "sequence_of spTable conv = map_option sp_Sequence (SyntheticPKeys conv spTable)"

section \<open>Example states\<close>

text \<open>Small concrete schemas on which the theorems below are instantiated.\<close>

definition asc_key :: "string \<Rightarrow> IndexKey" where
  "asc_key c = \<lparr>ik_Col = c, ik_Desc = False\<rparr>"

definition interleave_schema :: "string \<rightharpoonup> CreateTable" where
  "interleave_schema =
    [''parent'' \<mapsto> zero_CreateTable\<lparr>ct_Name := ''parent'',
        ct_Pks := [asc_key ''a'', asc_key ''b'']\<rparr>,
     ''child'' \<mapsto> zero_CreateTable\<lparr>ct_Name := ''child'',
        ct_Pks := [asc_key ''a'', asc_key ''b'', asc_key ''c'']\<rparr>]"

definition empty_conv :: Conv where
  "empty_conv = \<lparr>SpSchema = Map.empty, SyntheticPKeys = Map.empty, SrcSchema = Map.empty,
     Issues = Map.empty, ToSpanner = Map.empty, ToSource = Map.empty, Location = ''UTC'',
     Stats = \<lparr>Rows = Map.empty, BadRows = Map.empty\<rparr>, Unexpecteds = [],
     SampleBadRows = [], SampleLimit = 100, Written = []\<rparr>"

definition two_column_conv :: Conv where
  "two_column_conv = empty_conv
    \<lparr>ToSource := [''t'' \<mapsto> \<lparr>nc_Name = ''s'', nc_Cols = GoMap [''a'' \<mapsto> ''sa'', ''b'' \<mapsto> ''sb'']\<rparr>],
     ToSpanner := [''s'' \<mapsto> \<lparr>nc_Name = ''t'', nc_Cols = GoMap [''sa'' \<mapsto> ''a'', ''sb'' \<mapsto> ''b'']\<rparr>]\<rparr>"

definition only_rename :: "string \<Rightarrow> updateCol" where
  "only_rename n = \<lparr>uc_Removed = False, uc_Rename = n, uc_PK = [], uc_NotNull = [], uc_ToType = []\<rparr>"

definition only_remove :: updateCol where
  "only_remove = \<lparr>uc_Removed = True, uc_Rename = [], uc_PK = [], uc_NotNull = [], uc_ToType = []\<rparr>"

definition key_columns :: "string \<Rightarrow> Conv \<Rightarrow> string list" where
  "key_columns table conv = map ik_Col (ct_Pks (get0 zero_CreateTable (SpSchema conv) table))"

definition const_mappers :: TypeMappers where
  "const_mappers = \<lparr>toSpannerTypeMySQL = (\<lambda>srcType spType mods. (zero_Type\<lparr>ty_Name := spType\<rparr>, [])),
     toSpannerTypePostgres = (\<lambda>srcType spType mods. (zero_Type\<lparr>ty_Name := spType\<rparr>, []))\<rparr>"

definition plain_column :: "string \<Rightarrow> string \<Rightarrow> int64 list \<Rightarrow> Column" where
  "plain_column n ty bounds = zero_Column\<lparr>sc_Name := n,
     sc_Type := \<lparr>st_Name = ty, st_Mods = [], st_ArrayBounds = bounds\<rparr>\<rparr>"

definition sample_conv :: Conv where
  "sample_conv = two_column_conv
    \<lparr>SpSchema := [''t'' \<mapsto>
        \<lparr>ct_Name = ''t'', ct_ColNames = [''a'', ''b''],
         ct_ColDefs = GoMap
           [''a'' \<mapsto> zero_ColumnDef\<lparr>cd_Name := ''a'', cd_T := zero_Type\<lparr>ty_Name := ddl_Int64\<rparr>\<rparr>,
            ''b'' \<mapsto> zero_ColumnDef\<lparr>cd_Name := ''b'', cd_T := zero_Type\<lparr>ty_Name := ddl_Int64,
                      ty_IsArray := True\<rparr>\<rparr>],
         ct_Pks = [asc_key ''b''], ct_Fks = [], ct_Parent = []\<rparr>],
     SrcSchema := [''s'' \<mapsto>
        \<lparr>tb_Name = ''s'', tb_ColNames = [''sa'', ''sb''],
         tb_ColDefs = GoMap
           [''sa'' \<mapsto> plain_column ''sa'' ''int8'' [],
            ''sb'' \<mapsto> plain_column ''sb'' ''int4'' [- 1, - 1]],
         tb_PrimaryKeys = [''sb''], tb_ForeignKeys = []\<rparr>],
     Issues := [''s'' \<mapsto> GoMap Map.empty]\<rparr>"

definition only_pk :: "string \<Rightarrow> updateCol" where
  "only_pk change = \<lparr>uc_Removed = False, uc_Rename = [], uc_PK = change, uc_NotNull = [],
     uc_ToType = []\<rparr>"


text \<open>
  Collaborators for the examples: the integer parser accepts \<open>7\<close> only.
\<close>

definition sample_env :: cvt_env where
  "sample_env = \<lparr>
     convBool = (\<lambda>s. if s = ''true'' then Inr True else if s = ''false'' then Inr False
                      else Inl ''invalid syntax''),
     convDate = (\<lambda>s. Inl ''invalid date''),
     convInt64 = (\<lambda>s. if s = ''7'' then Inr 7 else Inl ''invalid syntax''),
     convFloat64 = (\<lambda>s. Inl ''invalid syntax''),
     convTimestamp = (\<lambda>srcType location s. Inl ''invalid timestamp''),
     convArray = (\<lambda>ty srcType location s. Inl ''invalid array''),
     civil_DateOf = (\<lambda>t. Date 1970 1 1),
     int64_of_float64 = (\<lambda>f. 0),
     float64_of_int64 = (\<lambda>i. Float64 0),
     FormatInt = (\<lambda>i. ''0''),
     FormatFloat = (\<lambda>f. ''0''),
     time_String = (\<lambda>t. ''1970-01-01''),
     Sprintf_v = (\<lambda>v. case v of VString s \<Rightarrow> s | VBytes s \<Rightarrow> s | _ \<Rightarrow> ''?'')\<rparr>"

definition pipe_src :: schema_Table where
  "pipe_src = \<lparr>tb_Name = ''s'', tb_ColNames = [''sa'', ''sb''],
     tb_ColDefs = GoMap [''sa'' \<mapsto> plain_column ''sa'' ''int8'' [],
                         ''sb'' \<mapsto> plain_column ''sb'' ''text'' []],
     tb_PrimaryKeys = [], tb_ForeignKeys = []\<rparr>"

definition pipe_sp :: CreateTable where
  "pipe_sp = \<lparr>ct_Name = ''t'', ct_ColNames = [''a'', ''b''],
     ct_ColDefs = GoMap
       [''a'' \<mapsto> zero_ColumnDef\<lparr>cd_Name := ''a'', cd_T := zero_Type\<lparr>ty_Name := ddl_Int64\<rparr>\<rparr>,
        ''b'' \<mapsto> zero_ColumnDef\<lparr>cd_Name := ''b'', cd_T := zero_Type\<lparr>ty_Name := ddl_String\<rparr>\<rparr>],
     ct_Pks = [], ct_Fks = [], ct_Parent = []\<rparr>"

definition pipe_conv :: Conv where
  "pipe_conv = empty_conv
     \<lparr>SyntheticPKeys := [''t'' \<mapsto> \<lparr>sp_Col = ''synth_id'', sp_Sequence = 0\<rparr>]\<rparr>"

definition pipe_scans :: "(string + val list) list" where
  "pipe_scans = [Inr [VInt64 1, VNil], Inr [VString ''x'', VString ''y''], Inl ''scan failed'',
     Inr [VString ''7'', VString ''z'']]"

definition unresolved_db :: sql_DB where
  "unresolved_db = \<lparr>
     db_Tables = Inr [(''pg_catalog'', ''pg_class''), (''public'', ''orders'')],
     db_Select = (\<lambda>schema name.
        Inr \<lparr>rows_Columns = Inr [''id''], rows_Scans = [Inr [VInt64 1]]\<rparr>)\<rparr>"

definition failing_db :: sql_DB where
  "failing_db = \<lparr>
     db_Tables = Inr [(''public'', ''orders'')],
     db_Select = (\<lambda>schema name. Inl ''connection lost'')\<rparr>"

definition unresolved_conv :: Conv where
  "unresolved_conv = empty_conv
     \<lparr>SpSchema := [''orders'' \<mapsto> zero_CreateTable\<lparr>ct_Name := ''orders'', ct_ColNames := [''id''],
          ct_ColDefs := GoMap [''id'' \<mapsto> zero_ColumnDef\<lparr>cd_Name := ''id'',
             cd_T := zero_Type\<lparr>ty_Name := ddl_Int64\<rparr>\<rparr>]\<rparr>],
      ToSpanner := [''orders'' \<mapsto> \<lparr>nc_Name = ''orders'', nc_Cols = GoMap [''id'' \<mapsto> ''id'']\<rparr>],
      ToSource := [''orders'' \<mapsto> \<lparr>nc_Name = ''orders'', nc_Cols = GoMap [''id'' \<mapsto> ''id'']\<rparr>],
      Stats := \<lparr>Rows = [''orders'' \<mapsto> 5], BadRows = Map.empty\<rparr>\<rparr>"





section \<open>Properties of the classifier\<close>

lemma sdiv_pos_bounds:
  fixes x d :: int
  assumes "0 < d"
  shows "min x 0 \<le> x sdiv d \<and> x sdiv d \<le> max x 0"
proof -
  have "\<bar>x\<bar> div d \<le> \<bar>x\<bar>"
    using assms by (metis abs_ge_zero div_by_1 int_one_le_iff_zero_less zdiv_mono2 zero_less_one)
  moreover have "0 \<le> \<bar>x\<bar> div d"
    using assms by (simp add: pos_imp_zdiv_nonneg_iff)
  ultimately show ?thesis
    using assms by (auto simp: signed_divide_int_def sgn_if)
qed

lemma sint_int64_quo:
  assumes "0 < sint d"
  shows "sint (int64_quo c d) = sint c sdiv sint d"
proof -
  have lo: "- (2 ^ 63) \<le> sint c" and hi: "sint c < 2 ^ 63"
    using sint_ge [of c] sint_lt [of c] by simp_all
  from sdiv_pos_bounds [OF assms, of "sint c"] lo hi
  have "- (2 ^ 63) \<le> sint c sdiv sint d" "sint c sdiv sint d < 2 ^ 63"
    by linarith+
  then show ?thesis
    by (simp add: int64_quo_def sint_sbintrunc' signed_take_bit_int_eq_self)
qed

lemma sint_int64_quo_20: "sint (int64_quo c 20) = sint c sdiv 20"
  using sint_int64_quo [of 20 c] by simp

lemma sint_int64_quo_3: "sint (int64_quo c 3) = sint c sdiv 3"
  using sint_int64_quo [of 3 c] by simp

text \<open>
  C10.  \<open>rateSchema\<close> is total and agrees, on every pair of 64-bit integers and every
  flag, with the five-label cascade: GRAY exactly when \<open>cols = 0\<close>; otherwise GREEN
  exactly when there is no warning and the primary key is present; otherwise BLUE exactly
  when there is no warning or \<open>warnings < cols / 20\<close>; otherwise YELLOW exactly when
  \<open>warnings < cols / 3\<close>; otherwise RED.  Its value is one of the five labels, and the
  missing-key flag is irrelevant as soon as \<open>warnings \<noteq> 0\<close>.
\<close>

theorem rateSchema_classifies:
  "rateSchema cols warnings missingPKey = rateSchema_spec cols warnings missingPKey
   \<and> rateSchema cols warnings missingPKey \<in> {''GRAY'', ''GREEN'', ''BLUE'', ''YELLOW'', ''RED''}
   \<and> (rateSchema cols warnings missingPKey = ''GRAY'' \<longleftrightarrow> cols = 0)
   \<and> (rateSchema cols warnings missingPKey = ''GREEN'' \<longleftrightarrow>
        cols \<noteq> 0 \<and> warnings = 0 \<and> \<not> missingPKey)
   \<and> (warnings \<noteq> 0 \<longrightarrow> rateSchema cols warnings True = rateSchema cols warnings False)"
  by (simp add: rateSchema_def rateSchema_spec_def good_def ok_def word_sless_alt
      sint_int64_quo_20 sint_int64_quo_3)

theorem rateSchema_classifies_witness:
  "(1::int64) \<noteq> 0 \<and> rateSchema 40 1 True = rateSchema 40 1 False
   \<and> rateSchema 40 1 True = ''BLUE''"
  using rateSchema_classifies [of 40 1 True]
  by (auto simp add: rateSchema_spec_def signed_divide_int_def)

section \<open>Properties of the interleaving check\<close>

lemma prefixLoop_True_iff:
  "prefixLoop childPks fk i pks = Some True \<longleftrightarrow>
     (\<forall>j < length pks.
        i + j < length (fk_ReferColumns fk) \<and> i + j < length (fk_Columns fk) \<and>
        ik_Col (pks ! j) = fk_ReferColumns fk ! (i + j) \<and>
        ik_Col (childPks ! (i + j)) = fk_Columns fk ! (i + j) \<and>
        fk_Columns fk ! (i + j) = fk_ReferColumns fk ! (i + j))"
proof (induction pks arbitrary: i)
  case Nil
  show ?case by simp
next
  case (Cons pk rest)
  show ?case
  proof (cases "i < length (fk_ReferColumns fk) \<and> i < length (fk_Columns fk) \<and>
        ik_Col pk = fk_ReferColumns fk ! i \<and>
        ik_Col (childPks ! i) = fk_Columns fk ! i \<and>
        fk_Columns fk ! i = fk_ReferColumns fk ! i")
    case True
    then have "prefixLoop childPks fk i (pk # rest) = prefixLoop childPks fk (Suc i) rest"
      by simp
    then show ?thesis
      using True Cons.IH [of "Suc i"] by (simp add: All_less_Suc2)
  next
    case False
    then have "prefixLoop childPks fk i (pk # rest) \<noteq> Some True"
      by auto
    moreover have "\<not> (\<forall>j < length (pk # rest).
        i + j < length (fk_ReferColumns fk) \<and> i + j < length (fk_Columns fk) \<and>
        ik_Col ((pk # rest) ! j) = fk_ReferColumns fk ! (i + j) \<and>
        ik_Col (childPks ! (i + j)) = fk_Columns fk ! (i + j) \<and>
        fk_Columns fk ! (i + j) = fk_ReferColumns fk ! (i + j))"
      using False by (auto intro!: exI [of _ 0])
    ultimately show ?thesis by blast
  qed
qed

lemma prefixLoop_returns:
  "length (fk_Columns fk) = length (fk_ReferColumns fk) \<Longrightarrow> prefixLoop childPks fk i pks \<noteq> None"
  by (induction pks arbitrary: i) auto



text \<open>
  C1.  For a table \<open>T\<close>, a candidate parent \<open>P\<close> and a foreign key \<open>fk\<close>, the prefix check
  succeeds exactly when the key of \<open>T\<close> is at least as long as the key of \<open>P\<close> and, at
  every ordinal position \<open>i\<close> of the key of \<open>P\<close>, (a) the \<open>i\<close>-th key column of \<open>P\<close> is the
  \<open>i\<close>-th referenced column of \<open>fk\<close>, (b) the \<open>i\<close>-th key column of \<open>T\<close> is the \<open>i\<close>-th local
  column of \<open>fk\<close>, and (c) the \<open>i\<close>-th local and referenced columns are equal.  For a
  foreign key whose two column lists have the same length, as the data model requires,
  the check always returns, and a violation at a single position makes it return
  false.
\<close>

theorem checkPrimaryKeyPrefix_iff:
  "(checkPrimaryKeyPrefix spSchema table refTable fk = Some True \<longleftrightarrow>
      prefix_condition (ct_Pks (get0 zero_CreateTable spSchema table))
        (ct_Pks (get0 zero_CreateTable spSchema refTable)) fk)
   \<and> (length (fk_Columns fk) = length (fk_ReferColumns fk) \<longrightarrow>
        checkPrimaryKeyPrefix spSchema table refTable fk =
          Some (prefix_condition (ct_Pks (get0 zero_CreateTable spSchema table))
            (ct_Pks (get0 zero_CreateTable spSchema refTable)) fk))"
proof -
  let ?c = "ct_Pks (get0 zero_CreateTable spSchema table)"
  let ?p = "ct_Pks (get0 zero_CreateTable spSchema refTable)"
  have iff: "checkPrimaryKeyPrefix spSchema table refTable fk = Some True \<longleftrightarrow>
      prefix_condition ?c ?p fk"
    by (auto simp add: checkPrimaryKeyPrefix_def prefix_condition_def Let_def prefixLoop_True_iff)
  have "checkPrimaryKeyPrefix spSchema table refTable fk = Some (prefix_condition ?c ?p fk)"
    if "length (fk_Columns fk) = length (fk_ReferColumns fk)"
  proof -
    have "checkPrimaryKeyPrefix spSchema table refTable fk \<noteq> None"
      using prefixLoop_returns [OF that]
      by (auto simp add: checkPrimaryKeyPrefix_def Let_def)
    then obtain b where b: "checkPrimaryKeyPrefix spSchema table refTable fk = Some b"
      by blast
    with iff show ?thesis by (cases b) auto
  qed
  with iff show ?thesis by blast
qed

theorem checkPrimaryKeyPrefix_iff_witness:
  "checkPrimaryKeyPrefix interleave_schema ''child'' ''parent''
      \<lparr>fk_Columns = [''a'', ''b''], fk_ReferTable = ''parent'', fk_ReferColumns = [''a'', ''b'']\<rparr>
     = Some True
   \<and> checkPrimaryKeyPrefix interleave_schema ''child'' ''parent''
      \<lparr>fk_Columns = [''b'', ''a''], fk_ReferTable = ''parent'', fk_ReferColumns = [''b'', ''a'']\<rparr>
     = Some False"
  using checkPrimaryKeyPrefix_iff [where fk = "\<lparr>fk_Columns = [''a'', ''b''],
      fk_ReferTable = ''parent'', fk_ReferColumns = [''a'', ''b'']\<rparr>"
      and spSchema = interleave_schema and table = "''child''" and refTable = "''parent''"]
    checkPrimaryKeyPrefix_iff [where fk = "\<lparr>fk_Columns = [''b'', ''a''],
      fk_ReferTable = ''parent'', fk_ReferColumns = [''b'', ''a'']\<rparr>"
      and spSchema = interleave_schema and table = "''child''" and refTable = "''parent''"]
  by (simp add: prefix_condition_def interleave_schema_def get0_def asc_key_def zero_CreateTable_def
      atLeastLessThanSuc)

section \<open>Properties of the correspondence maps\<close>

lemma entries_mdelete [simp]: "entries (mdelete g k) = (entries g)(k := None)"
  by (cases g) auto

lemma mstore_Some_iff:
  "mstore g k v = Some g' \<longleftrightarrow> (\<exists>m. g = GoMap m \<and> g' = GoMap (m(k \<mapsto> v)))"
  by (cases g) auto


lemma cols_of_Some [simp]: "m t = Some nc \<Longrightarrow> cols_of m t = nc_Cols nc"
  by (simp add: cols_of_def get0_def)

lemma cols_of_None [simp]: "m t = None \<Longrightarrow> cols_of m t = NilMap"
  by (simp add: cols_of_def get0_def zero_NameAndCols_def)

lemma removeColumn_maps:
  assumes ts: "ToSource conv table = Some nc" and c: "entries (nc_Cols nc) colName = Some sc"
    and sp: "ToSpanner conv srcTableName = Some nc'"
  shows "ToSource (removeColumn table colName srcTableName conv) =
           (ToSource conv)(table \<mapsto> nc\<lparr>nc_Cols := mdelete (nc_Cols nc) colName\<rparr>)"
    and "ToSpanner (removeColumn table colName srcTableName conv) =
           (ToSpanner conv)(srcTableName \<mapsto> nc'\<lparr>nc_Cols := mdelete (nc_Cols nc') sc\<rparr>)"
  using assms by (simp_all add: removeColumn_def Let_def delete_col_def get0_def)

lemma removeColumn_preserves:
  assumes inv: "maps_inverse conv"
    and ts: "ToSource conv table = Some nc" and nm: "nc_Name nc = srcTableName"
    and c: "entries (nc_Cols nc) colName = Some sc"
  shows "maps_inverse (removeColumn table colName srcTableName conv)"
proof -
  from inv have srt: "source_round_trip conv" and prt: "spanner_round_trip conv"
    and tni: "table_names_inverse conv"
    by (simp_all add: maps_inverse_def)
  from tni ts nm obtain nc' where sp: "ToSpanner conv srcTableName = Some nc'"
    and nm': "nc_Name nc' = table"
    unfolding table_names_inverse_def by blast
  from srt ts c nm sp have bk: "entries (nc_Cols nc') sc = Some colName"
    unfolding source_round_trip_def by fastforce
  let ?conv = "removeColumn table colName srcTableName conv"
  note maps = removeColumn_maps [OF ts c sp]
  have names_src: "\<And>t x. ToSource conv t = Some x \<Longrightarrow> nc_Name x = srcTableName \<Longrightarrow> t = table"
    using tni sp nm' unfolding table_names_inverse_def by fastforce
  have names_sp: "\<And>s x. ToSpanner conv s = Some x \<Longrightarrow> nc_Name x = table \<Longrightarrow> s = srcTableName"
    using tni ts nm unfolding table_names_inverse_def by fastforce
  have 1: "source_round_trip ?conv"
    unfolding source_round_trip_def
  proof (intro allI impI, elim conjE)
    fix t x c' s
    assume a: "ToSource ?conv t = Some x" and b: "entries (nc_Cols x) c' = Some s"
    show "entries (cols_of (ToSpanner ?conv) (nc_Name x)) s = Some c'"
    proof (cases "t = table")
      case True
      with a have x: "x = nc\<lparr>nc_Cols := mdelete (nc_Cols nc) colName\<rparr>"
        by (simp add: maps)
      with b have ne: "c' \<noteq> colName" and old: "entries (nc_Cols nc) c' = Some s"
        by (auto split: if_splits)
      from srt ts old nm sp have "entries (nc_Cols nc') s = Some c'"
        unfolding source_round_trip_def by fastforce
      moreover from this bk ne have "s \<noteq> sc" by auto
      ultimately show ?thesis
        using x nm by (simp add: maps)
    next
      case False
      with a have old: "ToSource conv t = Some x"
        by (simp add: maps)
      with False names_src have ne: "nc_Name x \<noteq> srcTableName" by blast
      from srt old b have "entries (cols_of (ToSpanner conv) (nc_Name x)) s = Some c'"
        unfolding source_round_trip_def by blast
      with ne show ?thesis
        by (simp add: maps cols_of_def get0_def)
    qed
  qed
  have 2: "spanner_round_trip ?conv"
    unfolding spanner_round_trip_def
  proof (intro allI impI, elim conjE)
    fix s x sc' c'
    assume a: "ToSpanner ?conv s = Some x" and b: "entries (nc_Cols x) sc' = Some c'"
    show "entries (cols_of (ToSource ?conv) (nc_Name x)) c' = Some sc'"
    proof (cases "s = srcTableName")
      case True
      with a have x: "x = nc'\<lparr>nc_Cols := mdelete (nc_Cols nc') sc\<rparr>"
        by (simp add: maps)
      with b have ne: "sc' \<noteq> sc" and old: "entries (nc_Cols nc') sc' = Some c'"
        by (auto split: if_splits)
      from prt sp old nm' ts have "entries (nc_Cols nc) c' = Some sc'"
        unfolding spanner_round_trip_def by fastforce
      moreover from this c ne have "c' \<noteq> colName" by auto
      ultimately show ?thesis
        using x nm' by (simp add: maps)
    next
      case False
      with a have old: "ToSpanner conv s = Some x"
        by (simp add: maps)
      with False names_sp have ne: "nc_Name x \<noteq> table" by blast
      from prt old b have "entries (cols_of (ToSource conv) (nc_Name x)) c' = Some sc'"
        unfolding spanner_round_trip_def by blast
      with ne show ?thesis
        by (simp add: maps cols_of_def get0_def)
    qed
  qed
  have 3: "table_names_inverse ?conv"
    using tni ts sp nm nm'
    unfolding table_names_inverse_def
    by (auto simp add: maps dest: names_src names_sp)
  from 1 2 3 show ?thesis
    by (simp add: maps_inverse_def)
qed


lemma renameColumn_maps:
  assumes ts: "ToSource conv table = Some nc" and c: "nc_Cols nc = GoMap cols"
    and sc: "cols colName = Some sc"
    and sp: "ToSpanner conv srcTableName = Some nc'" and c': "nc_Cols nc' = GoMap cols'"
  shows "\<exists>conv'. renameColumn newName table colName srcTableName conv = Some conv' \<and>
     ToSource conv' =
       (ToSource conv)(table \<mapsto> nc\<lparr>nc_Cols := GoMap ((cols(newName \<mapsto> sc))(colName := None))\<rparr>) \<and>
     ToSpanner conv' =
       (ToSpanner conv)(srcTableName \<mapsto> nc'\<lparr>nc_Cols := GoMap (cols'(sc \<mapsto> newName))\<rparr>)"
  using assms by (simp add: renameColumn_def Let_def store_col_def delete_col_def get0_def)

lemma renameColumn_preserves:
  assumes inv: "maps_inverse conv"
    and ts: "ToSource conv table = Some nc" and nm: "nc_Name nc = srcTableName"
    and c: "entries (nc_Cols nc) colName = Some sc"
    and fresh: "entries (nc_Cols nc) newName = None"
  shows "\<exists>conv'. renameColumn newName table colName srcTableName conv = Some conv' \<and>
           maps_inverse conv'"
proof -
  from inv have srt: "source_round_trip conv" and prt: "spanner_round_trip conv"
    and tni: "table_names_inverse conv"
    by (simp_all add: maps_inverse_def)
  from tni ts nm obtain nc' where sp: "ToSpanner conv srcTableName = Some nc'"
    and nm': "nc_Name nc' = table"
    unfolding table_names_inverse_def by blast
  from srt ts c nm sp have bk: "entries (nc_Cols nc') sc = Some colName"
    unfolding source_round_trip_def by fastforce
  from c obtain cols where cols: "nc_Cols nc = GoMap cols"
    by (cases "nc_Cols nc") auto
  from bk obtain cols' where cols': "nc_Cols nc' = GoMap cols'"
    by (cases "nc_Cols nc'") auto
  from c cols have sc: "cols colName = Some sc" by simp
  from fresh cols have fr: "cols newName = None" by simp
  from sc fr have ne0: "newName \<noteq> colName" by auto
  from bk cols' have bk': "cols' sc = Some colName" by simp
  from renameColumn_maps [OF ts cols sc sp cols', of newName]
  obtain conv' where r: "renameColumn newName table colName srcTableName conv = Some conv'"
    and m1: "ToSource conv' =
       (ToSource conv)(table \<mapsto> nc\<lparr>nc_Cols := GoMap ((cols(newName \<mapsto> sc))(colName := None))\<rparr>)"
    and m2: "ToSpanner conv' =
       (ToSpanner conv)(srcTableName \<mapsto> nc'\<lparr>nc_Cols := GoMap (cols'(sc \<mapsto> newName))\<rparr>)"
    by blast
  have names_src: "\<And>t x. ToSource conv t = Some x \<Longrightarrow> nc_Name x = srcTableName \<Longrightarrow> t = table"
    using tni sp nm' unfolding table_names_inverse_def by fastforce
  have names_sp: "\<And>s x. ToSpanner conv s = Some x \<Longrightarrow> nc_Name x = table \<Longrightarrow> s = srcTableName"
    using tni ts nm unfolding table_names_inverse_def by fastforce
  have fwd: "\<And>c' s. cols c' = Some s \<Longrightarrow> cols' s = Some c'"
    using srt ts nm sp cols cols' unfolding source_round_trip_def by fastforce
  have bwd: "\<And>s c'. cols' s = Some c' \<Longrightarrow> cols c' = Some s"
    using prt ts nm' sp cols cols' unfolding spanner_round_trip_def by fastforce
  have 1: "source_round_trip conv'"
    unfolding source_round_trip_def
  proof (intro allI impI, elim conjE)
    fix t x c' s
    assume a: "ToSource conv' t = Some x" and b: "entries (nc_Cols x) c' = Some s"
    show "entries (cols_of (ToSpanner conv') (nc_Name x)) s = Some c'"
    proof (cases "t = table")
      case True
      with a have x: "x = nc\<lparr>nc_Cols := GoMap ((cols(newName \<mapsto> sc))(colName := None))\<rparr>"
        by (simp add: m1)
      show ?thesis
      proof (cases "c' = newName")
        case True
        with b x have "s = sc" by (auto split: if_splits)
        with True x nm show ?thesis by (simp add: m2)
      next
        case False
        with b x have ne: "c' \<noteq> colName" and old: "cols c' = Some s"
          by (auto split: if_splits)
        from fwd [OF old] have "cols' s = Some c'" .
        moreover from this bk' ne have "s \<noteq> sc" by auto
        ultimately show ?thesis
          using x nm by (simp add: m2)
      qed
    next
      case False
      with a have old: "ToSource conv t = Some x"
        by (simp add: m1)
      with False names_src have ne: "nc_Name x \<noteq> srcTableName" by blast
      from srt old b have "entries (cols_of (ToSpanner conv) (nc_Name x)) s = Some c'"
        unfolding source_round_trip_def by blast
      with ne show ?thesis
        by (simp add: m2 cols_of_def get0_def)
    qed
  qed
  have 2: "spanner_round_trip conv'"
    unfolding spanner_round_trip_def
  proof (intro allI impI, elim conjE)
    fix s x sc' c'
    assume a: "ToSpanner conv' s = Some x" and b: "entries (nc_Cols x) sc' = Some c'"
    show "entries (cols_of (ToSource conv') (nc_Name x)) c' = Some sc'"
    proof (cases "s = srcTableName")
      case True
      with a have x: "x = nc'\<lparr>nc_Cols := GoMap (cols'(sc \<mapsto> newName))\<rparr>"
        by (simp add: m2)
      show ?thesis
      proof (cases "sc' = sc")
        case True
        with b x have "c' = newName" by auto
        with True x nm' ne0 show ?thesis by (simp add: m1)
      next
        case False
        with b x have old: "cols' sc' = Some c'" by auto
        from bwd [OF old] have o: "cols c' = Some sc'" .
        with sc False have "c' \<noteq> colName" by auto
        moreover from o fr have "c' \<noteq> newName" by auto
        ultimately show ?thesis
          using x nm' o by (simp add: m1)
      qed
    next
      case False
      with a have old: "ToSpanner conv s = Some x"
        by (simp add: m2)
      with False names_sp have ne: "nc_Name x \<noteq> table" by blast
      from prt old b have "entries (cols_of (ToSource conv) (nc_Name x)) c' = Some sc'"
        unfolding spanner_round_trip_def by blast
      with ne show ?thesis
        by (simp add: m1 cols_of_def get0_def)
    qed
  qed
  have 3: "table_names_inverse conv'"
    using tni ts sp nm nm'
    unfolding table_names_inverse_def
    by (auto simp add: m1 m2 dest: names_src names_sp)
  from r 1 2 3 show ?thesis
    by (simp add: maps_inverse_def)
qed


lemma removeColumn_table:
  assumes "ToSource conv table = Some nc"
  shows "\<exists>nc2. ToSource (removeColumn table colName srcTableName conv) table = Some nc2 \<and>
           nc_Name nc2 = nc_Name nc"
  using assms by (simp add: removeColumn_def Let_def delete_col_def)

lemma applyUpdateCol_preserves:
  assumes inv: "maps_inverse conv"
    and ts: "ToSource conv table = Some nc" and nm: "nc_Name nc = srcTableName"
    and c: "entries (nc_Cols nc) colName \<noteq> None"
    and only: "uc_PK v = []" "uc_ToType v = []" "uc_NotNull v = []"
    and fresh: "\<not> uc_Removed v \<and> uc_Rename v \<noteq> [] \<and> uc_Rename v \<noteq> colName \<Longrightarrow>
        entries (nc_Cols nc) (uc_Rename v) = None"
  shows "\<exists>conv' nc2. applyUpdateCol m driver table srcTableName colName v conv = Some conv' \<and>
           maps_inverse conv' \<and> ToSource conv' table = Some nc2 \<and> nc_Name nc2 = srcTableName"
proof -
  from c obtain sc where sc: "entries (nc_Cols nc) colName = Some sc" by auto
  show ?thesis
  proof (cases "uc_Removed v")
    case True
    then show ?thesis
      using removeColumn_preserves [OF inv ts nm sc] removeColumn_table [OF ts] nm
      by (simp add: applyUpdateCol_def)
  next
    case False
    show ?thesis
    proof (cases "uc_Rename v \<noteq> [] \<and> uc_Rename v \<noteq> colName")
      case True
      with False fresh have fr: "entries (nc_Cols nc) (uc_Rename v) = None" by simp
      from sc obtain cols where cols: "nc_Cols nc = GoMap cols"
        by (cases "nc_Cols nc") auto
      from renameColumn_preserves [OF inv ts nm sc fr]
      obtain conv' where r: "renameColumn (uc_Rename v) table colName srcTableName conv = Some conv'"
        and i: "maps_inverse conv'" by blast
      from r ts have "\<exists>nc2. ToSource conv' table = Some nc2 \<and> nc_Name nc2 = nc_Name nc"
        by (auto simp add: renameColumn_def Let_def store_col_def delete_col_def
            split: option.splits)
      with r i True False only nm show ?thesis
        by (auto simp add: applyUpdateCol_def Let_def)
    next
      case nr: False
      with False only inv ts nm show ?thesis
        by (auto simp add: applyUpdateCol_def Let_def)
    qed
  qed
qed

lemma updateCols_preserves:
  assumes "maps_inverse conv"
    and "\<And>nc. ToSource conv table = Some nc \<Longrightarrow> nc_Name nc = srcTableName"
    and "edits_ok m driver table srcTableName edits conv"
  shows "\<exists>conv'. updateCols m driver table srcTableName edits conv = Some conv' \<and>
           maps_inverse conv'"
  using assms
proof (induction edits arbitrary: conv)
  case Nil
  then show ?case by simp
next
  case (Cons e edits)
  obtain colName v where e: "e = (colName, v)" by (cases e)
  from Cons.prems(3) e have only: "uc_PK v = []" "uc_ToType v = []" "uc_NotNull v = []"
    and c: "entries (cols_of (ToSource conv) table) colName \<noteq> None"
    by simp_all
  from c obtain nc where ts: "ToSource conv table = Some nc"
    by (cases "ToSource conv table") auto
  with Cons.prems(2) have nm: "nc_Name nc = srcTableName" by blast
  from c ts have c': "entries (nc_Cols nc) colName \<noteq> None" by simp
  have fresh: "\<not> uc_Removed v \<and> uc_Rename v \<noteq> [] \<and> uc_Rename v \<noteq> colName \<Longrightarrow>
        entries (nc_Cols nc) (uc_Rename v) = None"
    using Cons.prems(3) e ts by simp
  from applyUpdateCol_preserves [OF Cons.prems(1) ts nm c' only fresh, of m driver]
  obtain conv' nc2 where
    step: "applyUpdateCol m driver table srcTableName colName v conv = Some conv'"
    and inv': "maps_inverse conv'" and ts': "ToSource conv' table = Some nc2"
    and nm': "nc_Name nc2 = srcTableName"
    by blast
  from Cons.prems(3) e step have ok': "edits_ok m driver table srcTableName edits conv'"
    by simp
  from Cons.IH [OF inv' _ ok'] ts' nm'
  obtain conv'' where "updateCols m driver table srcTableName edits conv' = Some conv''"
    and "maps_inverse conv''" by auto
  with e step show ?case by simp
qed

text \<open>
  C2 (as amended).  Starting from correspondence maps that are mutual inverses, any
  sequence of remove and rename edits of one table, each on a column present in the
  map of the table and each renaming to a name that is not a column of that map,
  runs without a panic and leaves the two maps mutual inverses.
\<close>

theorem edits_preserve_inverse:
  assumes "maps_inverse conv"
    and "edits_ok m driver table (nc_Name (get0 zero_NameAndCols (ToSource conv) table)) edits conv"
  shows "\<exists>conv'. updateCols m driver table
            (nc_Name (get0 zero_NameAndCols (ToSource conv) table)) edits conv = Some conv' \<and>
           maps_inverse conv'"
  using updateCols_preserves [OF assms(1) _ assms(2)] by (simp add: get0_def)

lemma two_column_inverse: "maps_inverse two_column_conv"
  by (auto simp add: maps_inverse_def source_round_trip_def spanner_round_trip_def
      table_names_inverse_def two_column_conv_def empty_conv_def cols_of_def get0_def
      split: if_splits)

text \<open>
  The claim as stated fails: renaming column \<open>a\<close> to the name of the existing column
  \<open>b\<close> leaves the entry of source column \<open>sb\<close> in \<open>ToSpanner\<close> pointing at \<open>b\<close>, which
  \<open>ToSource\<close> now maps to \<open>sa\<close>.
\<close>

theorem rename_onto_existing_column_breaks_inverse:
  "maps_inverse two_column_conv \<and>
   map_option spanner_round_trip (renameColumn ''b'' ''t'' ''a'' ''s'' two_column_conv) = Some False"
proof -
  have "\<not> spanner_round_trip (the (renameColumn ''b'' ''t'' ''a'' ''s'' two_column_conv))"
    unfolding spanner_round_trip_def
    by (simp add: renameColumn_def two_column_conv_def empty_conv_def Let_def store_col_def
        delete_col_def get0_def cols_of_def zero_CreateTable_def)
  moreover have "renameColumn ''b'' ''t'' ''a'' ''s'' two_column_conv \<noteq> None"
    by (simp add: renameColumn_def two_column_conv_def empty_conv_def Let_def store_col_def
        delete_col_def get0_def cols_of_def zero_CreateTable_def)
  ultimately show ?thesis
    using two_column_inverse by auto
qed

theorem edits_preserve_inverse_witness:
  "maps_inverse two_column_conv \<and>
   edits_ok \<lparr>toSpannerTypeMySQL = (\<lambda>a b c. (zero_Type, [])), toSpannerTypePostgres = (\<lambda>a b c. (zero_Type, []))\<rparr>
     ''postgres'' ''t'' ''s'' [(''a'', only_rename ''c''), (''b'', only_remove)] two_column_conv \<and>
   map_option maps_inverse
     (updateCols \<lparr>toSpannerTypeMySQL = (\<lambda>a b c. (zero_Type, [])), toSpannerTypePostgres = (\<lambda>a b c. (zero_Type, []))\<rparr>
        ''postgres'' ''t'' ''s'' [(''a'', only_rename ''c''), (''b'', only_remove)] two_column_conv)
     = Some True"
proof -
  let ?m = "\<lparr>toSpannerTypeMySQL = (\<lambda>a b c. (zero_Type, [])), toSpannerTypePostgres = (\<lambda>a b c. (zero_Type, []))\<rparr>"
  have nm: "nc_Name (get0 zero_NameAndCols (ToSource two_column_conv) ''t'') = ''s''"
    by (simp add: two_column_conv_def empty_conv_def get0_def)
  have ok: "edits_ok ?m ''postgres'' ''t'' ''s'' [(''a'', only_rename ''c''), (''b'', only_remove)]
      two_column_conv"
    by (simp add: only_rename_def only_remove_def applyUpdateCol_def renameColumn_def
        removeColumn_def two_column_conv_def empty_conv_def Let_def store_col_def
        delete_col_def get0_def cols_of_def zero_CreateTable_def)
  from edits_preserve_inverse [of two_column_conv ?m "''postgres''" "''t''"
      "[(''a'', only_rename ''c''), (''b'', only_remove)]"] two_column_inverse ok nm
  show ?thesis by auto
qed

section \<open>Idempotence of the column edits\<close>

lemma firstIndex_None_iff: "firstIndex p xs = None \<longleftrightarrow> filter p xs = []"
  by (induction xs) auto

lemma firstIndex_Some_filter:
  "firstIndex p xs = Some i \<Longrightarrow>
     length (filter p (remove_slice xs i)) = length (filter p xs) - 1"
proof (induction xs arbitrary: i)
  case Nil
  then show ?case by simp
next
  case (Cons x xs)
  show ?case
  proof (cases "p x")
    case True
    with Cons.prems show ?thesis by (simp add: remove_slice_def)
  next
    case False
    with Cons.prems obtain j where j: "firstIndex p xs = Some j" and i: "i = Suc j"
      by auto
    from Cons.IH [OF j] False i show ?thesis
      by (simp add: remove_slice_def)
  qed
qed

lemma firstIndex_after_removal:
  assumes "length (filter p xs) \<le> 1" and "firstIndex p xs = Some i"
  shows "firstIndex p (remove_slice xs i) = None"
  using assms firstIndex_Some_filter [OF assms(2)]
  by (simp add: firstIndex_None_iff)

lemma dropColName_twice:
  assumes "length (filter (\<lambda>col. col = c) (ct_ColNames sp)) \<le> 1"
  shows "dropColName c (dropColName c sp) = dropColName c sp"
proof (cases "firstIndex (\<lambda>col. col = c) (ct_ColNames sp)")
  case None
  then show ?thesis by (simp add: dropColName_def)
next
  case (Some i)
  from firstIndex_after_removal [OF assms Some] Some show ?thesis
    by (simp add: dropColName_def)
qed

lemma dropPk_twice:
  assumes "length (filter (\<lambda>pk. ik_Col pk = c) (ct_Pks sp)) \<le> 1"
  shows "dropPk c (dropPk c sp) = dropPk c sp"
proof (cases "firstIndex (\<lambda>pk. ik_Col pk = c) (ct_Pks sp)")
  case None
  then show ?thesis by (simp add: dropPk_def)
next
  case (Some i)
  from firstIndex_after_removal [OF assms Some] Some show ?thesis
    by (simp add: dropPk_def removePk_def)
qed

lemma dropColName_fields [simp]:
  "ct_Pks (dropColName c sp) = ct_Pks sp" "ct_ColDefs (dropColName c sp) = ct_ColDefs sp"
  by (simp_all add: dropColName_def split: option.splits)

lemma dropPk_fields [simp]:
  "ct_ColNames (dropPk c sp) = ct_ColNames sp" "ct_ColDefs (dropPk c sp) = ct_ColDefs sp"
  by (simp_all add: dropPk_def split: option.splits)

lemma dropPk_update_ColDefs:
  "dropPk c (sp\<lparr>ct_ColDefs := d\<rparr>) = (dropPk c sp)\<lparr>ct_ColDefs := d\<rparr>"
  by (simp add: dropPk_def split: option.splits)

lemma dropColName_update_ColDefs:
  "dropColName c (sp\<lparr>ct_ColDefs := d\<rparr>) = (dropColName c sp)\<lparr>ct_ColDefs := d\<rparr>"
  by (simp add: dropColName_def split: option.splits)

lemma dropColName_dropPk_commute:
  "dropColName c (dropPk c' sp) = dropPk c' (dropColName c sp)"
  by (simp add: dropPk_def dropColName_def split: option.splits)

lemma mdelete_twice [simp]: "mdelete (mdelete g k) k = mdelete g k"
  by (cases g) auto

lemma delete_col_twice [simp]: "delete_col (delete_col m t c) t c = delete_col m t c"
  by (auto simp add: delete_col_def split: option.splits)

lemma delete_issue_twice [simp]: "delete_issue (delete_issue m t c) t c = delete_issue m t c"
  by (auto simp add: delete_issue_def split: option.splits)

lemma delete_col_absent:
  "entries (cols_of m t) c = None \<Longrightarrow> delete_col m t c = m"
  by (cases "m t"; cases "nc_Cols (the (m t))")
     (auto simp add: delete_col_def fun_upd_idem)

lemma delete_issue_absent:
  "entries (get0 NilMap m t) c = None \<Longrightarrow> delete_issue m t c = m"
  by (cases "m t"; cases "the (m t)")
     (auto simp add: delete_issue_def get0_def fun_upd_idem)

lemma cols_of_delete_col:
  "entries (cols_of (delete_col m t c) t') =
     (if t' = t then (entries (cols_of m t))(c := None) else entries (cols_of m t'))"
  by (cases "m t") (auto simp add: delete_col_def cols_of_def get0_def zero_NameAndCols_def)

lemma issues_delete_issue:
  "entries (get0 NilMap (delete_issue m t c) t') =
     (if t' = t then (entries (get0 NilMap m t))(c := None) else entries (get0 NilMap m t'))"
  by (cases "m t") (auto simp add: delete_issue_def get0_def)

lemma removeColumn_twice:
  assumes once: "column_listed_once conv table colName"
    and ne: "no_empty_source_column conv srcTableName"
  shows "removeColumn table colName srcTableName (removeColumn table colName srcTableName conv)
           = removeColumn table colName srcTableName conv"
proof -
  let ?sp = "get0 zero_CreateTable (SpSchema conv) table"
  let ?sc = "get0 [] (entries (cols_of (ToSource conv) table)) colName"
  let ?c1 = "removeColumn table colName srcTableName conv"
  from once have n: "length (filter (\<lambda>col. col = colName) (ct_ColNames ?sp)) \<le> 1"
    and k: "length (filter (\<lambda>pk. ik_Col pk = colName) (ct_Pks ?sp)) \<le> 1"
    by (simp_all add: column_listed_once_def)
  have sc2: "get0 [] (entries (cols_of (ToSource ?c1) table)) colName = []"
    by (simp add: removeColumn_def Let_def cols_of_delete_col get0_def)
  have e1: "entries (cols_of (ToSpanner ?c1) srcTableName) [] = None"
    using ne by (simp add: removeColumn_def Let_def cols_of_delete_col no_empty_source_column_def)
  have e2: "entries (get0 NilMap (Issues ?c1) srcTableName) [] = None"
    using ne by (simp add: removeColumn_def Let_def issues_delete_issue no_empty_source_column_def)
  have sp: "get0 zero_CreateTable (SpSchema ?c1) table =
      dropPk colName ((dropColName colName ?sp)\<lparr>ct_ColDefs := mdelete (ct_ColDefs ?sp) colName\<rparr>)"
    by (simp add: removeColumn_def Let_def get0_def)
  have sp': "dropPk colName ((dropColName colName (get0 zero_CreateTable (SpSchema ?c1) table))
      \<lparr>ct_ColDefs := mdelete (ct_ColDefs (dropColName colName
           (get0 zero_CreateTable (SpSchema ?c1) table))) colName\<rparr>)
      = get0 zero_CreateTable (SpSchema ?c1) table"
    unfolding sp
    using dropColName_twice [OF n] dropPk_twice [of colName "dropColName colName ?sp"] k
    by (simp add: dropPk_update_ColDefs dropColName_update_ColDefs dropColName_dropPk_commute)
  have "removeColumn table colName srcTableName ?c1 =
      ?c1\<lparr>ToSource := delete_col (ToSource ?c1) table colName,
           ToSpanner := delete_col (ToSpanner ?c1) srcTableName [],
           Issues := delete_issue (Issues ?c1) srcTableName [],
           SpSchema := (SpSchema ?c1)(table \<mapsto> get0 zero_CreateTable (SpSchema ?c1) table)\<rparr>"
    using sc2 sp' by (simp add: removeColumn_def [of table colName srcTableName ?c1] Let_def)
  also have "\<dots> = ?c1"
    using delete_col_absent [OF e1] delete_issue_absent [OF e2]
    by (simp add: removeColumn_def Let_def get0_def)
  finally show ?thesis .
qed


lemma pkChanged_REMOVED_twice:
  assumes "length (filter (\<lambda>pk. ik_Col pk = colName)
       (ct_Pks (get0 zero_CreateTable (SpSchema conv) table))) \<le> 1"
  shows "pkChanged ''REMOVED'' table colName (pkChanged ''REMOVED'' table colName conv)
           = pkChanged ''REMOVED'' table colName conv"
  using dropPk_twice [OF assms]
  by (simp add: pkChanged_def Let_def get0_def)

lemma pkChanged_ADDED_twice:
  assumes "SyntheticPKeys conv table = None"
  shows "ct_Pks (get0 zero_CreateTable
            (SpSchema (pkChanged ''ADDED'' table colName (pkChanged ''ADDED'' table colName conv)))
            table)
         = ct_Pks (get0 zero_CreateTable (SpSchema (pkChanged ''ADDED'' table colName conv)) table)
           @ [\<lparr>ik_Col = colName, ik_Desc = False\<rparr>]"
  using assms by (simp add: pkChanged_def Let_def get0_def)

lemma mstore_twice:
  "mstore g k v = Some g' \<Longrightarrow> mstore g' k v = Some g'"
  by (cases g) auto

lemma entries_mstore:
  "mstore g k v = Some g' \<Longrightarrow> entries g' = (entries g)(k \<mapsto> v)"
  by (cases g) auto

lemma store_issue_twice:
  "store_issue m t c v = Some m' \<Longrightarrow> store_issue m' t c v = Some m'"
  by (cases "m t"; cases "the (m t)") (auto simp add: store_issue_def)

lemma storeRetyped_twice:
  assumes "storeRetyped table col srcTableName srcCol r conv = Some conv'"
  shows "storeRetyped table col srcTableName srcCol r conv' = Some conv'"
    and "ToSource conv' = ToSource conv" and "SrcSchema conv' = SrcSchema conv"
proof -
  let ?sp = "get0 zero_CreateTable (SpSchema conv) table"
  let ?cd = "get0 zero_ColumnDef (entries (ct_ColDefs ?sp)) col"
  from assms obtain issues colDefs where
    i: "(if snd r \<noteq> [] then store_issue (Issues conv) srcTableName (sc_Name srcCol) (snd r)
           else Some (Issues conv)) = Some issues"
    and d: "mstore (ct_ColDefs ?sp) col (?cd\<lparr>cd_T := fst r\<rparr>) = Some colDefs"
    and c': "conv' = conv\<lparr>Issues := issues,
                SpSchema := (SpSchema conv)(table \<mapsto> ?sp\<lparr>ct_ColDefs := colDefs\<rparr>)\<rparr>"
    by (auto simp add: storeRetyped_def Let_def split: option.splits)
  from i have i': "(if snd r \<noteq> [] then store_issue issues srcTableName (sc_Name srcCol) (snd r)
           else Some issues) = Some issues"
    by (auto dest: store_issue_twice split: if_splits)
  have cd: "get0 zero_ColumnDef (entries colDefs) col = ?cd\<lparr>cd_T := fst r\<rparr>"
    using entries_mstore [OF d] by (simp add: get0_def)
  from mstore_twice [OF d] have d': "mstore colDefs col (?cd\<lparr>cd_T := fst r\<rparr>) = Some colDefs" .
  have sp': "get0 zero_CreateTable (SpSchema conv') table = ?sp\<lparr>ct_ColDefs := colDefs\<rparr>"
    by (simp add: c' get0_def)
  have is': "Issues conv' = issues"
    by (simp add: c')
  have fin: "conv'\<lparr>Issues := issues,
       SpSchema := (SpSchema conv')(table \<mapsto> ?sp\<lparr>ct_ColDefs := colDefs, ct_ColDefs := colDefs\<rparr>)\<rparr> = conv'"
    by (simp add: c')
  show "storeRetyped table col srcTableName srcCol r conv' = Some conv'"
    unfolding storeRetyped_def Let_def sp' is'
    using i' d' cd fin by (auto split: if_splits)
  show "ToSource conv' = ToSource conv" "SrcSchema conv' = SrcSchema conv"
    by (simp_all add: c')
qed

lemma updateType_twice:
  "Option.bind (updateType m driver newType table newColName srcTableName conv)
     (updateType m driver newType table newColName srcTableName)
   = updateType m driver newType table newColName srcTableName conv"
proof (cases "updateType m driver newType table newColName srcTableName conv")
  case None
  then show ?thesis by simp
next
  case (Some conv')
  show ?thesis
  proof (cases "mapperFor m driver")
    case None
    with Some show ?thesis by (simp add: updateType_def Let_def)
  next
    case f: (Some f)
    let ?srcCol = "sourceColumn conv table newColName srcTableName"
    from Some f have st: "storeRetyped table newColName srcTableName ?srcCol
        (retype f ?srcCol newType) conv = Some conv'"
      by (simp add: updateType_def Let_def)
    from storeRetyped_twice [OF st]
    have "sourceColumn conv' table newColName srcTableName = ?srcCol"
      and "storeRetyped table newColName srcTableName ?srcCol (retype f ?srcCol newType) conv'
        = Some conv'"
      by (simp_all add: sourceColumn_def)
    with Some f show ?thesis
      by (simp add: updateType_def Let_def)
  qed
qed

lemma updateNotNull_twice:
  "Option.bind (updateNotNull notNullChange table newColName conv)
     (updateNotNull notNullChange table newColName)
   = updateNotNull notNullChange table newColName conv"
proof (cases "updateNotNull notNullChange table newColName conv")
  case None
  then show ?thesis by simp
next
  case (Some conv')
  let ?sp = "get0 zero_CreateTable (SpSchema conv) table"
  let ?cd = "get0 zero_ColumnDef (entries (ct_ColDefs ?sp)) newColName"
  consider (added) "notNullChange = ''ADDED''" | (removed) "notNullChange = ''REMOVED''"
    | (other) "notNullChange \<noteq> ''ADDED''" "notNullChange \<noteq> ''REMOVED''"
    by blast
  then have "updateNotNull notNullChange table newColName conv' = Some conv'"
  proof cases
    case added
    with Some obtain colDefs where
      d: "mstore (ct_ColDefs ?sp) newColName (?cd\<lparr>cd_NotNull := True\<rparr>) = Some colDefs"
      and c': "conv' = conv\<lparr>SpSchema := (SpSchema conv)(table \<mapsto> ?sp\<lparr>ct_ColDefs := colDefs\<rparr>)\<rparr>"
      by (auto simp add: updateNotNull_def Let_def)
    have "get0 zero_ColumnDef (entries colDefs) newColName = ?cd\<lparr>cd_NotNull := True\<rparr>"
      using entries_mstore [OF d] by (simp add: get0_def)
    with mstore_twice [OF d] added show ?thesis
      by (simp add: updateNotNull_def Let_def c' get0_def)
  next
    case removed
    with Some obtain colDefs where
      d: "mstore (ct_ColDefs ?sp) newColName (?cd\<lparr>cd_NotNull := False\<rparr>) = Some colDefs"
      and c': "conv' = conv\<lparr>SpSchema := (SpSchema conv)(table \<mapsto> ?sp\<lparr>ct_ColDefs := colDefs\<rparr>)\<rparr>"
      by (auto simp add: updateNotNull_def Let_def)
    have "get0 zero_ColumnDef (entries colDefs) newColName = ?cd\<lparr>cd_NotNull := False\<rparr>"
      using entries_mstore [OF d] by (simp add: get0_def)
    with mstore_twice [OF d] removed show ?thesis
      by (simp add: updateNotNull_def Let_def c' get0_def)
  next
    case other
    with Some show ?thesis
      by (auto simp add: updateNotNull_def Let_def get0_def)
  qed
  with Some show ?thesis by simp
qed

lemma rename_to_own_name:
  "applyUpdateCol m driver table srcTableName y
     \<lparr>uc_Removed = False, uc_Rename = y, uc_PK = [], uc_NotNull = [], uc_ToType = []\<rparr> conv
   = Some conv"
  by (simp add: applyUpdateCol_def Let_def)


text \<open>
  C4 (as amended).  On a model where the column occurs at most once in the column-name
  list and in the key list of its table and no source column has the empty name,
  removing a column twice is removing it once, and so is the key toggle "REMOVED".
  Renaming \<open>x\<close> to \<open>y\<close> and then applying the edit that renames \<open>y\<close> to \<open>y\<close> is the first
  rename alone.  Retyping and the not-null toggle are idempotent on every model.  The
  key toggle "ADDED" is not: on a table without synthetic key each application appends
  one more key entry for the column.
\<close>

theorem column_edits_idempotent:
  "(column_listed_once conv table colName \<and> no_empty_source_column conv srcTableName \<longrightarrow>
      removeColumn table colName srcTableName (removeColumn table colName srcTableName conv)
        = removeColumn table colName srcTableName conv)
   \<and> Option.bind (applyUpdateCol m driver table srcTableName colName (only_rename y) conv)
        (applyUpdateCol m driver table srcTableName y (only_rename y))
        = applyUpdateCol m driver table srcTableName colName (only_rename y) conv
   \<and> (column_listed_once conv table colName \<longrightarrow>
        pkChanged ''REMOVED'' table colName (pkChanged ''REMOVED'' table colName conv)
          = pkChanged ''REMOVED'' table colName conv)
   \<and> Option.bind (updateType m driver newType table colName srcTableName conv)
        (updateType m driver newType table colName srcTableName)
        = updateType m driver newType table colName srcTableName conv
   \<and> Option.bind (updateNotNull notNullChange table colName conv)
        (updateNotNull notNullChange table colName)
        = updateNotNull notNullChange table colName conv
   \<and> (SyntheticPKeys conv table = None \<longrightarrow>
        ct_Pks (get0 zero_CreateTable
            (SpSchema (pkChanged ''ADDED'' table colName (pkChanged ''ADDED'' table colName conv)))
            table)
          = ct_Pks (get0 zero_CreateTable (SpSchema (pkChanged ''ADDED'' table colName conv)) table)
            @ [\<lparr>ik_Col = colName, ik_Desc = False\<rparr>])"
proof -
  have rn: "Option.bind (applyUpdateCol m driver table srcTableName colName (only_rename y) conv)
        (applyUpdateCol m driver table srcTableName y (only_rename y))
        = applyUpdateCol m driver table srcTableName colName (only_rename y) conv"
    by (cases "applyUpdateCol m driver table srcTableName colName (only_rename y) conv")
       (simp_all add: rename_to_own_name only_rename_def)
  show ?thesis
    using removeColumn_twice pkChanged_REMOVED_twice pkChanged_ADDED_twice rn
      updateType_twice updateNotNull_twice
    by (simp add: column_listed_once_def)
qed

text \<open>
  The claim as stated fails for the key toggle: "ADDED" applied twice to column \<open>a\<close>
  leaves the key \<open>(b, a, a)\<close>, applied once the key \<open>(b, a)\<close>.
\<close>

theorem pk_added_twice_duplicates_key:
  "map_option (key_columns ''t'')
     (applyUpdateCol const_mappers ''postgres'' ''t'' ''s'' ''a'' (only_pk ''ADDED'') sample_conv)
     = Some [''b'', ''a'']
   \<and> map_option (key_columns ''t'')
     (Option.bind
        (applyUpdateCol const_mappers ''postgres'' ''t'' ''s'' ''a'' (only_pk ''ADDED'') sample_conv)
        (applyUpdateCol const_mappers ''postgres'' ''t'' ''s'' ''a'' (only_pk ''ADDED'')))
     = Some [''b'', ''a'', ''a'']"
  by (simp add: applyUpdateCol_def only_pk_def pkChanged_def Let_def key_columns_def
      sample_conv_def two_column_conv_def empty_conv_def get0_def asc_key_def)

theorem column_edits_idempotent_witness:
  "column_listed_once sample_conv ''t'' ''a'' \<and> no_empty_source_column sample_conv ''s''
   \<and> SyntheticPKeys sample_conv ''t'' = None
   \<and> removeColumn ''t'' ''a'' ''s'' (removeColumn ''t'' ''a'' ''s'' sample_conv)
        = removeColumn ''t'' ''a'' ''s'' sample_conv
   \<and> pkChanged ''REMOVED'' ''t'' ''a'' (pkChanged ''REMOVED'' ''t'' ''a'' sample_conv)
        = pkChanged ''REMOVED'' ''t'' ''a'' sample_conv
   \<and> key_columns ''t'' (pkChanged ''ADDED'' ''t'' ''a'' (pkChanged ''ADDED'' ''t'' ''a'' sample_conv))
        = key_columns ''t'' (pkChanged ''ADDED'' ''t'' ''a'' sample_conv) @ [''a'']"
proof -
  have h1: "column_listed_once sample_conv ''t'' ''a''"
    by (simp add: column_listed_once_def sample_conv_def two_column_conv_def empty_conv_def
        get0_def asc_key_def)
  have h2: "no_empty_source_column sample_conv ''s''"
    by (simp add: no_empty_source_column_def sample_conv_def two_column_conv_def empty_conv_def
        get0_def cols_of_def)
  have h3: "SyntheticPKeys sample_conv ''t'' = None"
    by (simp add: sample_conv_def two_column_conv_def empty_conv_def)
  from column_edits_idempotent [of sample_conv "''t''" "''a''" "''s''"] h1 h2 h3
  show ?thesis
    by (simp add: key_columns_def)
qed

section \<open>Properties of retyping\<close>

lemma retype_eq: "retype f srcCol newType = (retyped_type f srcCol newType, reattached_issues f srcCol newType)"
  by (simp add: retype_def retyped_type_def reattached_issues_def Let_def split: prod.splits)

lemma storeRetyped_Some:
  assumes sp: "SpSchema conv table = Some sp" and cds: "ct_ColDefs sp = GoMap cds"
    and im: "snd r \<noteq> [] \<Longrightarrow> Issues conv srcTableName = Some (GoMap im)"
  shows "storeRetyped table col srcTableName srcCol r conv =
     Some (conv\<lparr>Issues := (if snd r \<noteq> []
                            then (Issues conv)(srcTableName \<mapsto> GoMap (im(sc_Name srcCol \<mapsto> snd r)))
                            else Issues conv),
               SpSchema := (SpSchema conv)(table \<mapsto>
                  sp\<lparr>ct_ColDefs := GoMap (cds(col \<mapsto> (get0 zero_ColumnDef cds col)\<lparr>cd_T := fst r\<rparr>))\<rparr>)\<rparr>)"
  using assms by (simp add: storeRetyped_def store_issue_def Let_def get0_def)


lemma updateType_Some:
  assumes mp: "mapperFor m driver = Some f"
    and sp: "SpSchema conv table = Some sp" and cds: "ct_ColDefs sp = GoMap cds"
    and im: "Issues conv srcTableName = Some (GoMap im)"
  shows "updateType m driver newType table col srcTableName conv =
     Some (conv\<lparr>Issues :=
                 (if reattached_issues f (sourceColumn conv table col srcTableName) newType \<noteq> []
                  then (Issues conv)(srcTableName \<mapsto>
                     GoMap (im(sc_Name (sourceColumn conv table col srcTableName) \<mapsto>
                        reattached_issues f (sourceColumn conv table col srcTableName) newType)))
                  else Issues conv),
               SpSchema := (SpSchema conv)(table \<mapsto>
                  sp\<lparr>ct_ColDefs := GoMap (cds(col \<mapsto> (get0 zero_ColumnDef cds col)
                     \<lparr>cd_T := retyped_type f (sourceColumn conv table col srcTableName) newType\<rparr>))\<rparr>)\<rparr>)"
  using storeRetyped_Some [OF sp cds, of "retype f (sourceColumn conv table col srcTableName) newType"
      srcTableName im col "sourceColumn conv table col srcTableName"] mp im
  by (simp add: updateType_def Let_def retype_eq)












lemma retyped_type_multi:
  "length (st_ArrayBounds (sc_Type srcCol)) > 1 \<Longrightarrow> retyped_type f srcCol newType = string_max"
  by (simp add: retyped_type_def string_max_def)

lemma reattached_issues_multi:
  "length (st_ArrayBounds (sc_Type srcCol)) > 1 \<Longrightarrow>
     MultiDimensionalArray \<in> set (reattached_issues f srcCol newType)"
  by (simp add: reattached_issues_def)

lemma updateType_multi:
  assumes mp: "mapperFor m driver = Some f"
    and sp: "SpSchema conv table = Some sp" and cds: "ct_ColDefs sp = GoMap cds"
    and im: "Issues conv srcTableName = Some (GoMap im)"
    and multi: "length (st_ArrayBounds (sc_Type (sourceColumn conv table col srcTableName))) > 1"
  shows "\<exists>conv'. updateType m driver newType table col srcTableName conv = Some conv' \<and>
           column_type table col conv' = string_max \<and>
           MultiDimensionalArray \<in> set (column_issues srcTableName
              (sc_Name (sourceColumn conv table col srcTableName)) conv')"
proof -
  let ?srcCol = "sourceColumn conv table col srcTableName"
  from reattached_issues_multi [OF multi, of f newType]
  have ne: "reattached_issues f ?srcCol newType \<noteq> []" by auto
  show ?thesis
    using updateType_Some [OF mp sp cds im, of newType col] ne
      retyped_type_multi [OF multi, of f newType] reattached_issues_multi [OF multi, of f newType]
    by (simp add: column_type_def column_issues_def get0_def)
qed

lemma setTypeMapCol_step:
  assumes mp: "mapperFor m driver = Some f" and a: "assignable conv t"
  shows "\<exists>conv'. setTypeMapCol m driver typeMap t col conv = Some (Inr conv') \<and>
     ToSource conv' = ToSource conv \<and> SrcSchema conv' = SrcSchema conv \<and>
     (\<forall>t'. assignable conv t' \<longrightarrow> assignable conv' t') \<and>
     (\<forall>t' c'. column_type t' c' conv' =
        (case typeMap (st_Name (sc_Type (sourceColumn conv t col
                 (nc_Name (get0 zero_NameAndCols (ToSource conv) t))))) of
           Some nt \<Rightarrow> if t' = t \<and> c' = col
                      then retyped_type f (sourceColumn conv t col
                             (nc_Name (get0 zero_NameAndCols (ToSource conv) t))) nt
                      else column_type t' c' conv
         | None \<Rightarrow> column_type t' c' conv)) \<and>
     (\<forall>s' k'. column_issues s' k' conv' =
        (case typeMap (st_Name (sc_Type (sourceColumn conv t col
                 (nc_Name (get0 zero_NameAndCols (ToSource conv) t))))) of
           Some nt \<Rightarrow>
             if reattached_issues f (sourceColumn conv t col
                   (nc_Name (get0 zero_NameAndCols (ToSource conv) t))) nt \<noteq> [] \<and>
                s' = nc_Name (get0 zero_NameAndCols (ToSource conv) t) \<and>
                k' = sc_Name (sourceColumn conv t col
                   (nc_Name (get0 zero_NameAndCols (ToSource conv) t)))
             then reattached_issues f (sourceColumn conv t col
                   (nc_Name (get0 zero_NameAndCols (ToSource conv) t))) nt
             else column_issues s' k' conv
         | None \<Rightarrow> column_issues s' k' conv))"
proof -
  let ?s = "nc_Name (get0 zero_NameAndCols (ToSource conv) t)"
  let ?srcCol = "sourceColumn conv t col ?s"
  from a obtain sp cds im where sp: "SpSchema conv t = Some sp" and cds: "ct_ColDefs sp = GoMap cds"
    and im: "Issues conv ?s = Some (GoMap im)"
    by (auto simp add: assignable_def)
  show ?thesis
  proof (cases "typeMap (st_Name (sc_Type ?srcCol))")
    case None
    then show ?thesis
      by (simp add: setTypeMapCol_def Let_def)
  next
    case (Some nt)
    let ?conv' = "conv\<lparr>Issues := (if reattached_issues f ?srcCol nt \<noteq> []
                            then (Issues conv)(?s \<mapsto> GoMap (im(sc_Name ?srcCol \<mapsto>
                                   reattached_issues f ?srcCol nt)))
                            else Issues conv),
               SpSchema := (SpSchema conv)(t \<mapsto>
                  sp\<lparr>ct_ColDefs := GoMap (cds(col \<mapsto> (get0 zero_ColumnDef cds col)
                        \<lparr>cd_T := retyped_type f ?srcCol nt\<rparr>))\<rparr>)\<rparr>"
    have r: "setTypeMapCol m driver typeMap t col conv = Some (Inr ?conv')"
      using storeRetyped_Some [OF sp cds, of "retype f ?srcCol nt" ?s im col ?srcCol] mp im Some
      by (simp add: setTypeMapCol_def Let_def retype_eq)
    have f1: "ToSource ?conv' = ToSource conv" "SrcSchema ?conv' = SrcSchema conv"
      by simp_all
    have f2: "\<forall>t'. assignable conv t' \<longrightarrow> assignable ?conv' t'"
      using sp cds im by (auto simp add: assignable_def)
    have f3: "\<forall>t' c'. column_type t' c' ?conv' =
        (if t' = t \<and> c' = col then retyped_type f ?srcCol nt else column_type t' c' conv)"
      using sp cds by (auto simp add: column_type_def get0_def)
    have f4: "\<forall>s' k'. column_issues s' k' ?conv' =
        (if reattached_issues f ?srcCol nt \<noteq> [] \<and> s' = ?s \<and> k' = sc_Name ?srcCol
         then reattached_issues f ?srcCol nt else column_issues s' k' conv)"
      using im by (auto simp add: column_issues_def get0_def)
    from r f1 f2 f3 f4 Some show ?thesis
      by (intro exI [of _ ?conv']) simp
  qed
qed

lemma sourceColumn_frame:
  "ToSource conv' = ToSource conv \<Longrightarrow> SrcSchema conv' = SrcSchema conv \<Longrightarrow>
     sourceColumn conv' t c s = sourceColumn conv t c s"
  by (simp add: sourceColumn_def)

lemma sourceColumn_found:
  assumes "sc_Name (sourceColumn conv t c s) \<noteq> []" and "source_names_consistent conv"
  shows "\<exists>tb. SrcSchema conv s = Some tb \<and>
           entries (tb_ColDefs tb) (sc_Name (sourceColumn conv t c s)) = Some (sourceColumn conv t c s)"
proof -
  let ?k = "get0 [] (entries (cols_of (ToSource conv) t)) c"
  let ?tb = "get0 zero_schema_Table (SrcSchema conv) s"
  have sc: "sourceColumn conv t c s = get0 zero_Column (entries (tb_ColDefs ?tb)) ?k"
    by (simp add: sourceColumn_def Let_def)
  have "entries (tb_ColDefs ?tb) ?k \<noteq> None"
  proof
    assume "entries (tb_ColDefs ?tb) ?k = None"
    then have "sourceColumn conv t c s = zero_Column"
      unfolding sc by (simp add: get0_def [of zero_Column])
    with assms(1) show False by (simp add: zero_Column_def)
  qed
  then obtain x where x: "entries (tb_ColDefs ?tb) ?k = Some x" by auto
  have tb: "SrcSchema conv s \<noteq> None"
  proof
    assume "SrcSchema conv s = None"
    then have "?tb = zero_schema_Table" by (simp add: get0_def)
    with x show False by (simp add: zero_schema_Table_def)
  qed
  then obtain tb where tb': "SrcSchema conv s = Some tb" by auto
  with x have x': "entries (tb_ColDefs tb) ?k = Some x" by (simp add: get0_def)
  from x have eq: "sourceColumn conv t c s = x"
    unfolding sc by (simp add: get0_def [of zero_Column])
  from assms(2) tb' x' have "sc_Name x = ?k"
    unfolding source_names_consistent_def by blast
  with eq x' tb' show ?thesis by auto
qed

lemma setTypeMapGlobal_multi:
  assumes mp: "mapperFor m driver = Some f"
    and wf: "\<forall>p \<in> set order. assignable conv (fst p)"
    and snc: "source_names_consistent conv"
    and s: "s = nc_Name (get0 zero_NameAndCols (ToSource conv) t)"
    and srcCol: "srcCol = sourceColumn conv t col s"
    and tm: "typeMap (st_Name (sc_Type srcCol)) = Some newType"
    and multi: "length (st_ArrayBounds (sc_Type srcCol)) > 1"
    and named: "sc_Name srcCol \<noteq> []"
    and start: "(t, col) \<in> set order \<or>
       (column_type t col conv = string_max \<and>
        MultiDimensionalArray \<in> set (column_issues s (sc_Name srcCol) conv))"
  shows "\<exists>conv'. setTypeMapGlobal m driver typeMap order conv = Some (Inr conv') \<and>
           column_type t col conv' = string_max \<and>
           MultiDimensionalArray \<in> set (column_issues s (sc_Name srcCol) conv')"
  using wf snc s srcCol start
proof (induction order arbitrary: conv)
  case Nil
  then show ?case by simp
next
  case (Cons p order)
  obtain t' c' where p: "p = (t', c')" by (cases p)
  let ?s' = "nc_Name (get0 zero_NameAndCols (ToSource conv) t')"
  let ?srcCol' = "sourceColumn conv t' c' ?s'"
  from Cons.prems(1) p have a: "assignable conv t'" by simp
  from setTypeMapCol_step [OF mp a, of typeMap c']
  obtain conv1 where
    r: "setTypeMapCol m driver typeMap t' c' conv = Some (Inr conv1)"
    and ts: "ToSource conv1 = ToSource conv" and ss: "SrcSchema conv1 = SrcSchema conv"
    and as: "\<forall>t''. assignable conv t'' \<longrightarrow> assignable conv1 t''"
    and ct: "\<forall>t'' c''. column_type t'' c'' conv1 =
        (case typeMap (st_Name (sc_Type ?srcCol')) of
           Some nt \<Rightarrow> if t'' = t' \<and> c'' = c' then retyped_type f ?srcCol' nt
                      else column_type t'' c'' conv
         | None \<Rightarrow> column_type t'' c'' conv)"
    and ci: "\<forall>s'' k''. column_issues s'' k'' conv1 =
        (case typeMap (st_Name (sc_Type ?srcCol')) of
           Some nt \<Rightarrow>
             if reattached_issues f ?srcCol' nt \<noteq> [] \<and> s'' = ?s' \<and> k'' = sc_Name ?srcCol'
             then reattached_issues f ?srcCol' nt
             else column_issues s'' k'' conv
         | None \<Rightarrow> column_issues s'' k'' conv)"
    by blast
  have wf1: "\<forall>p \<in> set order. assignable conv1 (fst p)"
    using Cons.prems(1) as by simp
  have snc1: "source_names_consistent conv1"
    using Cons.prems(2) by (simp add: source_names_consistent_def ss)
  have s1: "s = nc_Name (get0 zero_NameAndCols (ToSource conv1) t)"
    using Cons.prems(3) by (simp add: ts)
  have srcCol1: "srcCol = sourceColumn conv1 t col s"
    using Cons.prems(4) sourceColumn_frame [OF ts ss] by simp
  have start1: "(t, col) \<in> set order \<or>
       (column_type t col conv1 = string_max \<and>
        MultiDimensionalArray \<in> set (column_issues s (sc_Name srcCol) conv1))"
  proof (cases "t' = t \<and> c' = col")
    case True
    then have same: "?srcCol' = srcCol" "?s' = s"
      using Cons.prems(3,4) by simp_all
    from True same tm ct have "column_type t col conv1 = string_max"
      by (simp add: retyped_type_multi [OF multi])
    moreover from same tm ci reattached_issues_multi [OF multi, of f newType]
    have "MultiDimensionalArray \<in> set (column_issues s (sc_Name srcCol) conv1)"
      by auto
    ultimately show ?thesis by simp
  next
    case False
    show ?thesis
    proof (cases "(t, col) \<in> set order")
      case True
      then show ?thesis by simp
    next
      case nm: False
      with Cons.prems(5) p False have P: "column_type t col conv = string_max"
        "MultiDimensionalArray \<in> set (column_issues s (sc_Name srcCol) conv)"
        by auto
      from False ct P(1) have c1: "column_type t col conv1 = string_max"
        by (auto split: option.splits)
      have c2: "MultiDimensionalArray \<in> set (column_issues s (sc_Name srcCol) conv1)"
      proof (cases "typeMap (st_Name (sc_Type ?srcCol'))")
        case None
        with ci P(2) show ?thesis by simp
      next
        case (Some nt)
        show ?thesis
        proof (cases "reattached_issues f ?srcCol' nt \<noteq> [] \<and> s = ?s' \<and>
            sc_Name srcCol = sc_Name ?srcCol'")
          case True
          then have s': "?s' = s" and nk: "sc_Name ?srcCol' = sc_Name srcCol" by simp_all
          from named nk have "sc_Name (sourceColumn conv t' c' s) \<noteq> []"
            using s' by simp
          from sourceColumn_found [OF this Cons.prems(2)] s' nk
          obtain tb where tb: "SrcSchema conv s = Some tb"
            and e1: "entries (tb_ColDefs tb) (sc_Name srcCol) = Some ?srcCol'"
            by auto
          from named Cons.prems(4) have "sc_Name (sourceColumn conv t col s) \<noteq> []" by simp
          from sourceColumn_found [OF this Cons.prems(2)] Cons.prems(4) tb
          have e2: "entries (tb_ColDefs tb) (sc_Name srcCol) = Some srcCol"
            by auto
          from e1 e2 have "?srcCol' = srcCol" by simp
          with True Some ci reattached_issues_multi [OF multi, of f nt] show ?thesis
            by simp
        next
          case False
          with Some ci P(2) show ?thesis by auto
        qed
      qed
      from c1 c2 show ?thesis by simp
    qed
  qed
  from Cons.IH [OF wf1 snc1 s1 srcCol1 start1]
  obtain conv' where "setTypeMapGlobal m driver typeMap order conv1 = Some (Inr conv')"
    and "column_type t col conv' = string_max"
    and "MultiDimensionalArray \<in> set (column_issues s (sc_Name srcCol) conv')"
    by blast
  with r p show ?case by simp
qed

text \<open>
  C7.  For a source column whose type has more than one array bound, the per-column
  retype and the global type-map update (for a supported driver, on a table of the schema
  whose source table has an issue map) both end with the target type \<open>STRING\<close> of
  unbounded length with the array flag false, and with the multi-dimensional-array
  issue in the issue list of that source column.
\<close>

theorem multi_dimensional_array_retype:
  "(mapperFor m driver = Some f \<and> SpSchema conv table = Some sp \<and> ct_ColDefs sp = GoMap cds \<and>
      Issues conv srcTableName = Some (GoMap im) \<and>
      length (st_ArrayBounds (sc_Type (sourceColumn conv table col srcTableName))) > 1 \<longrightarrow>
      (\<exists>conv'. updateType m driver newType table col srcTableName conv = Some conv' \<and>
           column_type table col conv' = string_max \<and>
           MultiDimensionalArray \<in> set (column_issues srcTableName
              (sc_Name (sourceColumn conv table col srcTableName)) conv')))
   \<and> (mapperFor m driver = Some f \<and> (\<forall>p \<in> set order. assignable conv (fst p)) \<and>
        source_names_consistent conv \<and> (t, c) \<in> set order \<and>
        typeMap (st_Name (sc_Type (resolvedColumn conv t c))) = Some toType \<and>
        length (st_ArrayBounds (sc_Type (resolvedColumn conv t c))) > 1 \<and>
        sc_Name (resolvedColumn conv t c) \<noteq> [] \<longrightarrow>
        (\<exists>conv'. setTypeMapGlobal m driver typeMap order conv = Some (Inr conv') \<and>
           column_type t c conv' = string_max \<and>
           MultiDimensionalArray \<in> set (column_issues
              (nc_Name (get0 zero_NameAndCols (ToSource conv) t))
              (sc_Name (resolvedColumn conv t c)) conv')))"
proof (intro conjI impI)
  assume "mapperFor m driver = Some f \<and> SpSchema conv table = Some sp \<and> ct_ColDefs sp = GoMap cds \<and>
      Issues conv srcTableName = Some (GoMap im) \<and>
      length (st_ArrayBounds (sc_Type (sourceColumn conv table col srcTableName))) > 1"
  then show "\<exists>conv'. updateType m driver newType table col srcTableName conv = Some conv' \<and>
           column_type table col conv' = string_max \<and>
           MultiDimensionalArray \<in> set (column_issues srcTableName
              (sc_Name (sourceColumn conv table col srcTableName)) conv')"
    using updateType_multi by blast
next
  assume h: "mapperFor m driver = Some f \<and> (\<forall>p \<in> set order. assignable conv (fst p)) \<and>
        source_names_consistent conv \<and> (t, c) \<in> set order \<and>
        typeMap (st_Name (sc_Type (resolvedColumn conv t c))) = Some toType \<and>
        length (st_ArrayBounds (sc_Type (resolvedColumn conv t c))) > 1 \<and>
        sc_Name (resolvedColumn conv t c) \<noteq> []"
  have "\<exists>conv'. setTypeMapGlobal m driver typeMap order conv = Some (Inr conv') \<and>
           column_type t c conv' = string_max \<and>
           MultiDimensionalArray \<in> set (column_issues
              (nc_Name (get0 zero_NameAndCols (ToSource conv) t))
              (sc_Name (resolvedColumn conv t c)) conv')"
    by (rule setTypeMapGlobal_multi [where f = f and newType = toType])
       (use h in \<open>simp_all add: resolvedColumn_def\<close>)
  then show "\<exists>conv'. setTypeMapGlobal m driver typeMap order conv = Some (Inr conv') \<and>
           column_type t c conv' = string_max \<and>
           MultiDimensionalArray \<in> set (column_issues
              (nc_Name (get0 zero_NameAndCols (ToSource conv) t))
              (sc_Name (resolvedColumn conv t c)) conv')" .
qed

lemma sample_resolved_b:
  "resolvedColumn sample_conv ''t'' ''b'' = plain_column ''sb'' ''int4'' [- 1, - 1]"
  "sourceColumn sample_conv ''t'' ''b'' ''s'' = plain_column ''sb'' ''int4'' [- 1, - 1]"
  by (simp_all add: resolvedColumn_def sourceColumn_def sample_conv_def two_column_conv_def
      empty_conv_def get0_def cols_of_def)

lemma sample_mapper: "mapperFor const_mappers ''postgres'' = Some (toSpannerTypePostgres const_mappers)"
  by (simp add: mapperFor_def)

theorem multi_dimensional_array_retype_witness:
  "map_option (column_type ''t'' ''b'')
     (updateType const_mappers ''postgres'' ''BYTES'' ''t'' ''b'' ''s'' sample_conv) = Some string_max
   \<and> map_option (column_issues ''s'' ''sb'')
     (updateType const_mappers ''postgres'' ''BYTES'' ''t'' ''b'' ''s'' sample_conv)
       = Some [MultiDimensionalArray]
   \<and> map_option (column_type ''t'' ''b'')
     (finished (setTypeMapGlobal const_mappers ''postgres'' [''int4'' \<mapsto> ''INT64'']
        [(''t'', ''a''), (''t'', ''b'')] sample_conv)) = Some string_max"
proof -
  have sp: "SpSchema sample_conv ''t'' = Some (the (SpSchema sample_conv ''t''))"
    and cds: "ct_ColDefs (the (SpSchema sample_conv ''t'')) =
       GoMap (entries (ct_ColDefs (the (SpSchema sample_conv ''t''))))"
    and im: "Issues sample_conv ''s'' = Some (GoMap Map.empty)"
    by (simp_all add: sample_conv_def two_column_conv_def empty_conv_def)
  have multi: "length (st_ArrayBounds (sc_Type (sourceColumn sample_conv ''t'' ''b'' ''s''))) > 1"
    by (simp add: sample_resolved_b plain_column_def)
  from multi_dimensional_array_retype [THEN conjunct1, rule_format,
      OF conjI [OF sample_mapper conjI [OF sp conjI [OF cds conjI [OF im multi]]]], of "''BYTES''"]
  obtain conv' where
    u: "updateType const_mappers ''postgres'' ''BYTES'' ''t'' ''b'' ''s'' sample_conv = Some conv'"
    and ty: "column_type ''t'' ''b'' conv' = string_max"
    by (auto simp add: sample_resolved_b)
  have iss: "map_option (column_issues ''s'' ''sb'')
     (updateType const_mappers ''postgres'' ''BYTES'' ''t'' ''b'' ''s'' sample_conv)
       = Some [MultiDimensionalArray]"
    by (simp add: updateType_def mapperFor_def sourceColumn_def storeRetyped_def retype_def
        store_issue_def column_issues_def Let_def get0_def cols_of_def const_mappers_def
        plain_column_def zero_Column_def sample_conv_def two_column_conv_def empty_conv_def)
  have as: "\<forall>p \<in> set [(''t'', ''a''), (''t'', ''b'')]. assignable sample_conv (fst p)"
    by (simp add: assignable_def sample_conv_def two_column_conv_def empty_conv_def get0_def)
  have snc: "source_names_consistent sample_conv"
    by (auto simp add: source_names_consistent_def sample_conv_def two_column_conv_def
        empty_conv_def plain_column_def split: if_splits)
  have g: "mapperFor const_mappers ''postgres'' = Some (toSpannerTypePostgres const_mappers) \<and>
      (\<forall>p \<in> set [(''t'', ''a''), (''t'', ''b'')]. assignable sample_conv (fst p)) \<and>
      source_names_consistent sample_conv \<and> (''t'', ''b'') \<in> set [(''t'', ''a''), (''t'', ''b'')] \<and>
      [''int4'' \<mapsto> ''INT64''] (st_Name (sc_Type (resolvedColumn sample_conv ''t'' ''b''))) = Some ''INT64'' \<and>
      length (st_ArrayBounds (sc_Type (resolvedColumn sample_conv ''t'' ''b''))) > 1 \<and>
      sc_Name (resolvedColumn sample_conv ''t'' ''b'') \<noteq> []"
    using as snc by (simp add: sample_mapper sample_resolved_b plain_column_def)
  from multi_dimensional_array_retype [where m = const_mappers and driver = "''postgres''"
      and f = "toSpannerTypePostgres const_mappers" and conv = sample_conv
      and order = "[(''t'', ''a''), (''t'', ''b'')]" and t = "''t''" and c = "''b''"
      and typeMap = "[''int4'' \<mapsto> ''INT64'']" and toType = "''INT64''",
      THEN conjunct2, rule_format, OF g]
  obtain conv'' where
    "setTypeMapGlobal const_mappers ''postgres'' [''int4'' \<mapsto> ''INT64'']
        [(''t'', ''a''), (''t'', ''b'')] sample_conv = Some (Inr conv'')"
    and "column_type ''t'' ''b'' conv'' = string_max"
    by blast
  with u ty iss show ?thesis
    by (simp add: finished_def)
qed








section \<open>Properties of the data conversion pipeline\<close>

lemma convertColumns_result:
  assumes "\<forall>i \<in> set is. i < length spCols \<and> i < length srcVals"
  shows "convertColumns env conv srcTable srcCols srcSchema spCols spSchema srcVals is cs vs =
    (if list_ex (cell_fails env conv srcCols srcSchema spCols spSchema srcVals) is
     then Some (Inl (case find (cell_fails env conv srcCols srcSchema spCols spSchema srcVals) is of
        Some i \<Rightarrow>
          (case (entries (tb_ColDefs srcSchema) (srcCols ! i),
                 entries (ct_ColDefs spSchema) (spCols ! i)) of
             (Some srcCd, Some spCd) \<Rightarrow>
               CantConvertColumn (srcCols ! i) srcTable
                 (projl (cvtCell env conv srcCd spCd (srcVals ! i)))
           | _ \<Rightarrow> NoSchemaForColumn (srcCols ! i) srcTable)
      | None \<Rightarrow> NoSchemaForColumn [] srcTable))
     else Some (Inr (cs @ map (\<lambda>i. srcCols ! i) (non_null_cells srcVals is),
                     vs @ map (converted_cell env conv srcCols srcSchema spCols spSchema srcVals)
                            (non_null_cells srcVals is))))"
  using assms
proof (induction "is" arbitrary: cs vs)
  case Nil
  then show ?case by (simp add: non_null_cells_def)
next
  case (Cons i "is")
  from Cons.prems have i: "i < length spCols" "i < length srcVals"
    and rest: "\<forall>i \<in> set is. i < length spCols \<and> i < length srcVals"
    by simp_all
  note IH = Cons.IH [OF rest]
  let ?P = "cell_fails env conv srcCols srcSchema spCols spSchema srcVals"
  show ?case
  proof (cases "entries (tb_ColDefs srcSchema) (srcCols ! i)")
    case None
    then have cf: "?P i" by (simp add: cell_fails_def)
    from None i show ?thesis by (simp add: cf)
  next
    case (Some srcCd)
    note s1 = this
    show ?thesis
    proof (cases "entries (ct_ColDefs spSchema) (spCols ! i)")
      case None
      with s1 have cf: "?P i" by (simp add: cell_fails_def)
      from None s1 i show ?thesis by (simp add: cf)
    next
      case (Some spCd)
      note s2 = this
      show ?thesis
      proof (cases "srcVals ! i = VNil")
        case True
        with s1 s2 have cf: "\<not> ?P i" by (simp add: cell_fails_def)
        from True s1 s2 i show ?thesis
          by (simp add: IH cf non_null_cells_def)
      next
        case False
        show ?thesis
        proof (cases "cvtCell env conv srcCd spCd (srcVals ! i)")
          case (Inl e)
          with s1 s2 False have cf: "?P i" by (simp add: cell_fails_def)
          from Inl s1 s2 i False show ?thesis
            by (simp add: cf)
        next
          case (Inr v)
          with s1 s2 False have cf: "\<not> ?P i" by (simp add: cell_fails_def)
          from Inr s1 s2 have cc: "converted_cell env conv srcCols srcSchema spCols spSchema srcVals i = v"
            by (simp add: converted_cell_def)
          from Inr s1 s2 i False show ?thesis
            by (simp add: IH cf cc non_null_cells_def)
        qed
      qed
    qed
  qed
qed

lemma ConvertSQLRow_result:
  assumes "length spCols = length srcCols" and "length srcVals = length srcCols"
  shows "ConvertSQLRow env conv srcTable srcCols srcSchema spTable spCols spSchema srcVals =
    (if row_fails env conv srcCols srcSchema spCols spSchema srcVals
     then Some (([], [], Some (first_row_error env conv srcTable srcCols srcSchema spCols spSchema
                    srcVals)), conv)
     else Some ((non_null_columns srcCols srcVals @ synthetic_columns conv spTable,
                 map (converted_cell env conv srcCols srcSchema spCols spSchema srcVals)
                   (non_null_cells srcVals [0..<length srcCols]) @ synthetic_values conv spTable,
                 None),
                advance_sequence conv spTable))"
proof -
  have "\<forall>i \<in> set [0..<length srcCols]. i < length spCols \<and> i < length srcVals"
    using assms by simp
  from convertColumns_result [OF this, of env conv srcTable srcCols srcSchema spSchema "[]" "[]"]
  show ?thesis
    by (simp add: ConvertSQLRow_def row_fails_def first_row_error_def non_null_columns_def
        synthetic_columns_def synthetic_values_def advance_sequence_def split: option.splits)
qed

lemma null_cell_not_listed:
  assumes "distinct srcCols" and "i < length srcCols" and "srcVals ! i = VNil"
  shows "srcCols ! i \<notin> set (non_null_columns srcCols srcVals)"
proof
  assume "srcCols ! i \<in> set (non_null_columns srcCols srcVals)"
  then obtain j where j: "j < length srcCols" "srcVals ! j \<noteq> VNil" "srcCols ! j = srcCols ! i"
    by (auto simp add: non_null_columns_def non_null_cells_def)
  with assms(1,2) have "j = i" by (simp add: nth_eq_iff_index_eq)
  with j(2) assms(3) show False by simp
qed

text \<open>
  C9.  For column, target-column and value lists of equal length \<open>ConvertSQLRow\<close>
  returns; the returned column and value lists have the same length; on success the
  columns are exactly the names of the cells that are not null, in order, followed by
  the synthetic key column if the table has one, and the values are the converted
  non-null cells followed by the synthetic value; so a null cell contributes neither a
  column name nor a value, and with distinct column names the name of a null cell does
  not occur among the returned row columns.
\<close>

theorem null_cells_omitted:
  assumes "length spCols = length srcCols" and "length srcVals = length srcCols"
  shows "\<exists>cs vs err conv'.
     ConvertSQLRow env conv srcTable srcCols srcSchema spTable spCols spSchema srcVals
       = Some ((cs, vs, err), conv') \<and>
     length cs = length vs \<and>
     (err = None \<longrightarrow>
        cs = non_null_columns srcCols srcVals @ synthetic_columns conv spTable \<and>
        vs = map (converted_cell env conv srcCols srcSchema spCols spSchema srcVals)
               (non_null_cells srcVals [0..<length srcCols]) @ synthetic_values conv spTable) \<and>
     (distinct srcCols \<longrightarrow>
        (\<forall>i < length srcCols. srcVals ! i = VNil \<longrightarrow>
           srcCols ! i \<notin> set (non_null_columns srcCols srcVals)))"
proof (cases "row_fails env conv srcCols srcSchema spCols spSchema srcVals")
  case True
  with ConvertSQLRow_result [OF assms, of env conv srcTable srcSchema spTable spSchema]
  show ?thesis by (simp add: null_cell_not_listed)
next
  case False
  have "length (synthetic_columns conv spTable) = length (synthetic_values conv spTable)"
    by (simp add: synthetic_columns_def synthetic_values_def split: option.splits)
  moreover have "length (non_null_columns srcCols srcVals) =
      length (non_null_cells srcVals [0..<length srcCols])"
    by (simp add: non_null_columns_def)
  ultimately show ?thesis
    using False ConvertSQLRow_result [OF assms, of env conv srcTable srcSchema spTable spSchema]
    by (simp add: null_cell_not_listed)
qed

lemma bad_row_recorded_props:
  "badRowsOf srcTable (bad_row_recorded env srcTable srcCols srcVals err conv)
      = badRowsOf srcTable conv + 1"
  "t \<noteq> srcTable \<Longrightarrow>
     badRowsOf t (bad_row_recorded env srcTable srcCols srcVals err conv) = badRowsOf t conv"
  "length (SampleBadRows conv) < SampleLimit conv \<Longrightarrow>
     SampleBadRows (bad_row_recorded env srcTable srcCols srcVals err conv) =
       SampleBadRows conv @
         [\<lparr>br_table = srcTable, br_cols = srcCols, br_vals = valsToStrings env srcVals\<rparr>]"
  "Written (bad_row_recorded env srcTable srcCols srcVals err conv) = Written conv"
  "SyntheticPKeys (bad_row_recorded env srcTable srcCols srcVals err conv) = SyntheticPKeys conv"
  by (simp_all add: bad_row_recorded_def badRowsOf_def CollectBadRow_def StatsAddBadRow_def
      Unexpected_def get0_def)

lemma written_row_props:
  "badRowsOf t (WriteRow (advance_sequence conv spTable) srcTable spTable cs vs) = badRowsOf t conv"
  "length (Written (WriteRow (advance_sequence conv spTable) srcTable spTable cs vs))
     = Suc (length (Written conv))"
  by (simp_all add: WriteRow_def advance_sequence_def badRowsOf_def split: option.splits)

lemma scan_failure_props:
  "badRowsOf srcTable (StatsAddBadRow (Unexpected conv u) srcTable True)
     = badRowsOf srcTable conv + 1"
  "Written (StatsAddBadRow (Unexpected conv u) srcTable True) = Written conv"
  by (simp_all add: StatsAddBadRow_def Unexpected_def badRowsOf_def get0_def)

lemma processRows_accounts:
  assumes "length spCols = length srcCols" and "scans_fit srcCols scans"
  shows "\<exists>conv2 nw.
     processRows env srcTable srcCols srcSchema spTable spCols spSchema scans conv = Some conv2 \<and>
     nw \<le> length scans \<and>
     length (Written conv2) = length (Written conv) + nw \<and>
     badRowsOf srcTable conv2 = badRowsOf srcTable conv + of_nat (length scans - nw)"
  using assms
proof (induction scans arbitrary: conv)
  case Nil
  show ?case by (rule exI [of _ conv], rule exI [of _ 0]) simp
next
  case (Cons scan scans)
  from Cons.prems(2) have fit: "scans_fit srcCols scans"
    by (simp add: scans_fit_def)
  have bad: "\<exists>conv2 nw.
     processRows env srcTable srcCols srcSchema spTable spCols spSchema (scan # scans) conv = Some conv2 \<and>
     nw \<le> length (scan # scans) \<and>
     length (Written conv2) = length (Written conv) + nw \<and>
     badRowsOf srcTable conv2 = badRowsOf srcTable conv + of_nat (length (scan # scans) - nw)"
    if step: "processRows env srcTable srcCols srcSchema spTable spCols spSchema (scan # scans) conv
          = processRows env srcTable srcCols srcSchema spTable spCols spSchema scans c"
      and b: "badRowsOf srcTable c = badRowsOf srcTable conv + 1"
      and w: "Written c = Written conv" for c
  proof -
    from Cons.IH [OF Cons.prems(1) fit, of c]
    obtain conv2 nw where
      p: "processRows env srcTable srcCols srcSchema spTable spCols spSchema scans c = Some conv2"
      and n: "nw \<le> length scans"
      and w2: "length (Written conv2) = length (Written c) + nw"
      and b2: "badRowsOf srcTable conv2 = badRowsOf srcTable c + of_nat (length scans - nw)"
      by (elim exE conjE)
    from n have "length (scan # scans) - nw = Suc (length scans - nw)" by simp
    with b b2 have "badRowsOf srcTable conv2 =
        badRowsOf srcTable conv + of_nat (length (scan # scans) - nw)"
      by (simp add: add.assoc add.commute)
    with step p n w w2 show ?thesis
      by (intro exI [of _ conv2] exI [of _ nw]) simp
  qed
  show ?case
  proof (cases scan)
    case (Inl e)
    let ?c = "StatsAddBadRow (Unexpected conv (CouldntScanRow e)) srcTable True"
    have "processRows env srcTable srcCols srcSchema spTable spCols spSchema (scan # scans) conv
          = processRows env srcTable srcCols srcSchema spTable spCols spSchema scans ?c"
      using Inl by (simp add: DataMode_def Let_def)
    then show ?thesis
      by (rule bad) (simp_all add: scan_failure_props)
  next
    case (Inr v)
    with Cons.prems(2) have len: "length v = length srcCols"
      by (simp add: scans_fit_def)
    note res = ConvertSQLRow_result [OF Cons.prems(1) len, of env conv srcTable srcSchema spTable
        spSchema]
    show ?thesis
    proof (cases "row_fails env conv srcCols srcSchema spCols spSchema v")
      case True
      let ?e = "first_row_error env conv srcTable srcCols srcSchema spCols spSchema v"
      let ?c = "bad_row_recorded env srcTable srcCols v ?e conv"
      have "processRows env srcTable srcCols srcSchema spTable spCols spSchema (scan # scans) conv
          = processRows env srcTable srcCols srcSchema spTable spCols spSchema scans ?c"
        using True res Inr by (simp add: bad_row_recorded_def DataMode_def Let_def)
      then show ?thesis
        by (rule bad) (simp_all add: bad_row_recorded_props)
    next
      case False
      let ?cs = "non_null_columns srcCols v @ synthetic_columns conv spTable"
      let ?vs = "map (converted_cell env conv srcCols srcSchema spCols spSchema v)
                   (non_null_cells v [0..<length srcCols]) @ synthetic_values conv spTable"
      let ?c = "WriteRow (advance_sequence conv spTable) srcTable spTable ?cs ?vs"
      have step: "processRows env srcTable srcCols srcSchema spTable spCols spSchema (scan # scans) conv
          = processRows env srcTable srcCols srcSchema spTable spCols spSchema scans ?c"
        using False res Inr by simp
      from Cons.IH [OF Cons.prems(1) fit, of ?c]
      obtain conv2 nw where
        p: "processRows env srcTable srcCols srcSchema spTable spCols spSchema scans ?c = Some conv2"
        and n: "nw \<le> length scans"
        and w2: "length (Written conv2) = length (Written ?c) + nw"
        and b2: "badRowsOf srcTable conv2 = badRowsOf srcTable ?c + of_nat (length scans - nw)"
        by (elim exE conjE)
      from step p n w2 b2 show ?thesis
        by (intro exI [of _ conv2] exI [of _ "Suc nw"]) (simp add: written_row_props)
    qed
  qed
qed

text \<open>
  C6.  For lists of equal length \<open>ConvertSQLRow\<close> returns an error exactly when some
  column of the row has no source or target column definition or some non-null value
  fails its scalar or array conversion; with the error it returns no column names and
  no values and leaves the state as it was.  The loop over the rows, run on that row
  alone, returns: it appends the report of the row, adds exactly one to the bad rows of
  the source table and to no other table, writes no row, and appends the row to the
  sample while the sample is below its bound, each cell as a string (\<open>NULL\<close> for a null
  cell).  Followed by further rows, the loop returns the state that these rows yield
  from there, and each of them is either written or counted as a bad row.
\<close>

theorem row_failure_atomic:
  assumes "length spCols = length srcCols" and "length srcVals = length srcCols"
  shows "\<exists>cs vs err conv'.
     ConvertSQLRow env conv srcTable srcCols srcSchema spTable spCols spSchema srcVals
       = Some ((cs, vs, err), conv') \<and>
     (err \<noteq> None \<longleftrightarrow> row_fails env conv srcCols srcSchema spCols spSchema srcVals) \<and>
     (err \<noteq> None \<longrightarrow>
        cs = [] \<and> vs = [] \<and> conv' = conv \<and>
        (\<exists>conv1.
           processRows env srcTable srcCols srcSchema spTable spCols spSchema [Inr srcVals] conv
             = Some conv1 \<and>
           conv1 = conv
             \<lparr>Stats := (Stats conv)\<lparr>BadRows := (BadRows (Stats conv))
                 (srcTable \<mapsto> get0 0 (BadRows (Stats conv)) srcTable + 1)\<rparr>,
              Unexpecteds := Unexpecteds conv @ [CouldntProcessRow (the err)],
              SampleBadRows :=
                (if length (SampleBadRows conv) < SampleLimit conv
                 then SampleBadRows conv @
                   [\<lparr>br_table = srcTable, br_cols = srcCols,
                     br_vals = map (\<lambda>v. if v = VNil then ''NULL'' else Sprintf_v env v) srcVals\<rparr>]
                 else SampleBadRows conv)\<rparr> \<and>
           badRowsOf srcTable conv1 = badRowsOf srcTable conv + 1 \<and>
           (\<forall>t. t \<noteq> srcTable \<longrightarrow> badRowsOf t conv1 = badRowsOf t conv) \<and>
           Written conv1 = Written conv \<and>
           (scans_fit srcCols rest \<longrightarrow>
              (\<exists>conv2 nw.
                 processRows env srcTable srcCols srcSchema spTable spCols spSchema
                   (Inr srcVals # rest) conv = Some conv2 \<and>
                 processRows env srcTable srcCols srcSchema spTable spCols spSchema rest conv1
                   = Some conv2 \<and>
                 nw \<le> length rest \<and>
                 length (Written conv2) = length (Written conv) + nw \<and>
                 badRowsOf srcTable conv2
                   = badRowsOf srcTable conv + 1 + of_nat (length rest - nw)))))"
proof (cases "row_fails env conv srcCols srcSchema spCols spSchema srcVals")
  case True
  let ?e = "first_row_error env conv srcTable srcCols srcSchema spCols spSchema srcVals"
  let ?c = "conv
             \<lparr>Stats := (Stats conv)\<lparr>BadRows := (BadRows (Stats conv))
                 (srcTable \<mapsto> get0 0 (BadRows (Stats conv)) srcTable + 1)\<rparr>,
              Unexpecteds := Unexpecteds conv @ [CouldntProcessRow ?e],
              SampleBadRows :=
                (if length (SampleBadRows conv) < SampleLimit conv
                 then SampleBadRows conv @
                   [\<lparr>br_table = srcTable, br_cols = srcCols,
                     br_vals = map (\<lambda>v. if v = VNil then ''NULL'' else Sprintf_v env v) srcVals\<rparr>]
                 else SampleBadRows conv)\<rparr>"
  from True ConvertSQLRow_result [OF assms, of env conv srcTable srcSchema spTable spSchema]
  have r: "ConvertSQLRow env conv srcTable srcCols srcSchema spTable spCols spSchema srcVals
      = Some (([], [], Some ?e), conv)"
    by simp
  have c: "bad_row_recorded env srcTable srcCols srcVals ?e conv = ?c"
    by (simp add: bad_row_recorded_def CollectBadRow_def StatsAddBadRow_def Unexpected_def
        valsToStrings_def)
  have step: "processRows env srcTable srcCols srcSchema spTable spCols spSchema (Inr srcVals # xs) conv
          = processRows env srcTable srcCols srcSchema spTable spCols spSchema xs ?c" for xs
    using c by (simp add: r bad_row_recorded_def DataMode_def Let_def)
  have one: "processRows env srcTable srcCols srcSchema spTable spCols spSchema [Inr srcVals] conv
      = Some ?c"
    using step [of "[]"] by simp
  have b: "badRowsOf srcTable ?c = badRowsOf srcTable conv + 1"
    and o: "\<forall>t. t \<noteq> srcTable \<longrightarrow> badRowsOf t ?c = badRowsOf t conv"
    and w: "Written ?c = Written conv"
    by (simp_all add: badRowsOf_def get0_def)
  have l: "scans_fit srcCols rest \<longrightarrow>
      (\<exists>conv2 nw.
         processRows env srcTable srcCols srcSchema spTable spCols spSchema
           (Inr srcVals # rest) conv = Some conv2 \<and>
         processRows env srcTable srcCols srcSchema spTable spCols spSchema rest ?c = Some conv2 \<and>
         nw \<le> length rest \<and>
         length (Written conv2) = length (Written conv) + nw \<and>
         badRowsOf srcTable conv2 = badRowsOf srcTable conv + 1 + of_nat (length rest - nw))"
  proof
    assume "scans_fit srcCols rest"
    from processRows_accounts [OF assms(1) this, of env srcTable srcSchema spTable spSchema ?c]
    obtain conv2 nw where
      p: "processRows env srcTable srcCols srcSchema spTable spCols spSchema rest ?c = Some conv2"
      and n: "nw \<le> length rest"
      and w2: "length (Written conv2) = length (Written ?c) + nw"
      and b2: "badRowsOf srcTable conv2 = badRowsOf srcTable ?c + of_nat (length rest - nw)"
      by (elim exE conjE)
    from p n w2 b2 b w step [of rest]
    show "\<exists>conv2 nw.
         processRows env srcTable srcCols srcSchema spTable spCols spSchema
           (Inr srcVals # rest) conv = Some conv2 \<and>
         processRows env srcTable srcCols srcSchema spTable spCols spSchema rest ?c = Some conv2 \<and>
         nw \<le> length rest \<and>
         length (Written conv2) = length (Written conv) + nw \<and>
         badRowsOf srcTable conv2 = badRowsOf srcTable conv + 1 + of_nat (length rest - nw)"
      by (intro exI [of _ conv2] exI [of _ nw]) simp
  qed
  have inner: "\<exists>conv1.
           processRows env srcTable srcCols srcSchema spTable spCols spSchema [Inr srcVals] conv
             = Some conv1 \<and>
           conv1 = ?c \<and>
           badRowsOf srcTable conv1 = badRowsOf srcTable conv + 1 \<and>
           (\<forall>t. t \<noteq> srcTable \<longrightarrow> badRowsOf t conv1 = badRowsOf t conv) \<and>
           Written conv1 = Written conv \<and>
           (scans_fit srcCols rest \<longrightarrow>
              (\<exists>conv2 nw.
                 processRows env srcTable srcCols srcSchema spTable spCols spSchema
                   (Inr srcVals # rest) conv = Some conv2 \<and>
                 processRows env srcTable srcCols srcSchema spTable spCols spSchema rest conv1
                   = Some conv2 \<and>
                 nw \<le> length rest \<and>
                 length (Written conv2) = length (Written conv) + nw \<and>
                 badRowsOf srcTable conv2
                   = badRowsOf srcTable conv + 1 + of_nat (length rest - nw)))"
  proof (intro exI [of _ ?c] conjI)
    show "processRows env srcTable srcCols srcSchema spTable spCols spSchema [Inr srcVals] conv
        = Some ?c"
      by (rule one)
    show "?c = ?c" by (rule refl)
    show "badRowsOf srcTable ?c = badRowsOf srcTable conv + 1" by (rule b)
    show "\<forall>t. t \<noteq> srcTable \<longrightarrow> badRowsOf t ?c = badRowsOf t conv" by (rule o)
    show "Written ?c = Written conv" by (rule w)
    show "scans_fit srcCols rest \<longrightarrow>
      (\<exists>conv2 nw.
         processRows env srcTable srcCols srcSchema spTable spCols spSchema
           (Inr srcVals # rest) conv = Some conv2 \<and>
         processRows env srcTable srcCols srcSchema spTable spCols spSchema rest ?c = Some conv2 \<and>
         nw \<le> length rest \<and>
         length (Written conv2) = length (Written conv) + nw \<and>
         badRowsOf srcTable conv2 = badRowsOf srcTable conv + 1 + of_nat (length rest - nw))"
      by (rule l)
  qed
  have "ConvertSQLRow env conv srcTable srcCols srcSchema spTable spCols spSchema srcVals
       = Some (([], [], Some ?e), conv) \<and>
     (Some ?e \<noteq> None \<longleftrightarrow> row_fails env conv srcCols srcSchema spCols spSchema srcVals) \<and>
     (Some ?e \<noteq> None \<longrightarrow>
        [] = [] \<and> [] = [] \<and> conv = conv \<and>
        (\<exists>conv1.
           processRows env srcTable srcCols srcSchema spTable spCols spSchema [Inr srcVals] conv
             = Some conv1 \<and>
           conv1 = conv
             \<lparr>Stats := (Stats conv)\<lparr>BadRows := (BadRows (Stats conv))
                 (srcTable \<mapsto> get0 0 (BadRows (Stats conv)) srcTable + 1)\<rparr>,
              Unexpecteds := Unexpecteds conv @ [CouldntProcessRow (the (Some ?e))],
              SampleBadRows :=
                (if length (SampleBadRows conv) < SampleLimit conv
                 then SampleBadRows conv @
                   [\<lparr>br_table = srcTable, br_cols = srcCols,
                     br_vals = map (\<lambda>v. if v = VNil then ''NULL'' else Sprintf_v env v) srcVals\<rparr>]
                 else SampleBadRows conv)\<rparr> \<and>
           badRowsOf srcTable conv1 = badRowsOf srcTable conv + 1 \<and>
           (\<forall>t. t \<noteq> srcTable \<longrightarrow> badRowsOf t conv1 = badRowsOf t conv) \<and>
           Written conv1 = Written conv \<and>
           (scans_fit srcCols rest \<longrightarrow>
              (\<exists>conv2 nw.
                 processRows env srcTable srcCols srcSchema spTable spCols spSchema
                   (Inr srcVals # rest) conv = Some conv2 \<and>
                 processRows env srcTable srcCols srcSchema spTable spCols spSchema rest conv1
                   = Some conv2 \<and>
                 nw \<le> length rest \<and>
                 length (Written conv2) = length (Written conv) + nw \<and>
                 badRowsOf srcTable conv2
                   = badRowsOf srcTable conv + 1 + of_nat (length rest - nw)))))"
  proof (intro conjI)
    show "ConvertSQLRow env conv srcTable srcCols srcSchema spTable spCols spSchema srcVals
       = Some (([], [], Some ?e), conv)"
      by (rule r)
    show "Some ?e \<noteq> None \<longleftrightarrow> row_fails env conv srcCols srcSchema spCols spSchema srcVals"
      using True by simp
  next
    from inner show "Some ?e \<noteq> None \<longrightarrow>
        [] = [] \<and> [] = [] \<and> conv = conv \<and>
        (\<exists>conv1.
           processRows env srcTable srcCols srcSchema spTable spCols spSchema [Inr srcVals] conv
             = Some conv1 \<and>
           conv1 = conv
             \<lparr>Stats := (Stats conv)\<lparr>BadRows := (BadRows (Stats conv))
                 (srcTable \<mapsto> get0 0 (BadRows (Stats conv)) srcTable + 1)\<rparr>,
              Unexpecteds := Unexpecteds conv @ [CouldntProcessRow (the (Some ?e))],
              SampleBadRows :=
                (if length (SampleBadRows conv) < SampleLimit conv
                 then SampleBadRows conv @
                   [\<lparr>br_table = srcTable, br_cols = srcCols,
                     br_vals = map (\<lambda>v. if v = VNil then ''NULL'' else Sprintf_v env v) srcVals\<rparr>]
                 else SampleBadRows conv)\<rparr> \<and>
           badRowsOf srcTable conv1 = badRowsOf srcTable conv + 1 \<and>
           (\<forall>t. t \<noteq> srcTable \<longrightarrow> badRowsOf t conv1 = badRowsOf t conv) \<and>
           Written conv1 = Written conv \<and>
           (scans_fit srcCols rest \<longrightarrow>
              (\<exists>conv2 nw.
                 processRows env srcTable srcCols srcSchema spTable spCols spSchema
                   (Inr srcVals # rest) conv = Some conv2 \<and>
                 processRows env srcTable srcCols srcSchema spTable spCols spSchema rest conv1
                   = Some conv2 \<and>
                 nw \<le> length rest \<and>
                 length (Written conv2) = length (Written conv) + nw \<and>
                 badRowsOf srcTable conv2
                   = badRowsOf srcTable conv + 1 + of_nat (length rest - nw))))"
      by (simp only: option.sel simp_thms)
  qed
  then show ?thesis
    by (intro exI [of _ "[]"] exI [of _ "Some ?e"] exI [of _ conv])
next
  case False
  with ConvertSQLRow_result [OF assms, of env conv srcTable srcSchema spTable spSchema]
  show ?thesis by simp
qed

lemma ConvertSQLRow_synthetic:
  assumes aux: "SyntheticPKeys conv spTable = Some aux"
    and r: "ConvertSQLRow env conv srcTable srcCols srcSchema spTable spCols spSchema srcVals
       = Some ((cs, vs, None), conv')"
  shows "\<exists>cs0 vs0. cs = cs0 @ [sp_Col aux] \<and>
           vs = vs0 @ [VInt64 (word_reverse (sp_Sequence aux))]"
    and "conv' = conv\<lparr>SyntheticPKeys := (SyntheticPKeys conv)
                     (spTable \<mapsto> aux\<lparr>sp_Sequence := sp_Sequence aux + 1\<rparr>)\<rparr>"
  using assms
  by (auto simp add: ConvertSQLRow_def split: option.splits sum.splits)

lemma processRows_synthetic:
  assumes "SyntheticPKeys conv spTable = Some aux"
    and "length spCols = length srcCols"
    and "scans_fit srcCols scans"
  shows "\<exists>conv' ws.
     processRows env srcTable srcCols srcSchema spTable spCols spSchema scans conv = Some conv' \<and>
     Written conv' = Written conv @ ws \<and>
     SyntheticPKeys conv' spTable =
       Some (aux\<lparr>sp_Sequence := sp_Sequence aux + of_nat (length ws)\<rparr>) \<and>
     (\<forall>k < length ws.
        last (wr_cols (ws ! k)) = sp_Col aux \<and>
        synthetic_value (ws ! k) = VInt64 (word_reverse (sp_Sequence aux + of_nat k)))"
  using assms
proof (induction scans arbitrary: conv aux)
  case Nil
  show ?case by (rule exI [of _ conv], rule exI [of _ "[]"]) (simp add: Nil.prems)
next
  case (Cons scan scans)
  from Cons.prems(3) have fit: "scans_fit srcCols scans"
    by (simp add: scans_fit_def)
  show ?case
  proof (cases scan)
    case (Inl e)
    let ?c = "StatsAddBadRow (Unexpected conv (CouldntScanRow e)) srcTable True"
    have k: "SyntheticPKeys ?c spTable = Some aux" and w: "Written ?c = Written conv"
      using Cons.prems(1) by (simp_all add: StatsAddBadRow_def Unexpected_def)
    from Cons.IH [OF k Cons.prems(2) fit] w Inl show ?thesis
      by (simp add: DataMode_def Let_def)
  next
    case (Inr v)
    with Cons.prems(3) have len: "length v = length srcCols"
      by (simp add: scans_fit_def)
    note res = ConvertSQLRow_result [OF Cons.prems(2) len, of env conv srcTable srcSchema spTable
        spSchema]
    show ?thesis
    proof (cases "row_fails env conv srcCols srcSchema spCols spSchema v")
      case True
      let ?e = "first_row_error env conv srcTable srcCols srcSchema spCols spSchema v"
      let ?c = "bad_row_recorded env srcTable srcCols v ?e conv"
      have k: "SyntheticPKeys ?c spTable = Some aux" and w: "Written ?c = Written conv"
        using Cons.prems(1) by (simp_all add: bad_row_recorded_props)
      have "processRows env srcTable srcCols srcSchema spTable spCols spSchema (scan # scans) conv
          = processRows env srcTable srcCols srcSchema spTable spCols spSchema scans ?c"
        using True res Inr by (simp add: bad_row_recorded_def DataMode_def Let_def)
      with Cons.IH [OF k Cons.prems(2) fit] w show ?thesis
        by simp
    next
      case False
      let ?aux' = "aux\<lparr>sp_Sequence := sp_Sequence aux + 1\<rparr>"
      let ?cs = "non_null_columns srcCols v @ [sp_Col aux]"
      let ?vs = "map (converted_cell env conv srcCols srcSchema spCols spSchema v)
                   (non_null_cells v [0..<length srcCols]) @ [VInt64 (word_reverse (sp_Sequence aux))]"
      let ?row = "\<lparr>wr_srcTable = srcTable, wr_spTable = spTable, wr_cols = ?cs, wr_vals = ?vs\<rparr>"
      let ?adv = "conv\<lparr>SyntheticPKeys := (SyntheticPKeys conv)(spTable \<mapsto> ?aux')\<rparr>"
      let ?c = "WriteRow ?adv srcTable spTable ?cs ?vs"
      from False res Cons.prems(1)
      have r: "ConvertSQLRow env conv srcTable srcCols srcSchema spTable spCols spSchema v
          = Some ((?cs, ?vs, None), ?adv)"
        by (simp add: synthetic_columns_def synthetic_values_def advance_sequence_def)
      have step: "processRows env srcTable srcCols srcSchema spTable spCols spSchema (scan # scans) conv
          = processRows env srcTable srcCols srcSchema spTable spCols spSchema scans ?c"
        using r Inr by simp
      have k: "SyntheticPKeys ?c spTable = Some ?aux'"
        and w: "Written ?c = Written conv @ [?row]"
        by (simp_all add: WriteRow_def)
      from Cons.IH [OF k Cons.prems(2) fit]
      obtain conv' ws where
        p: "processRows env srcTable srcCols srcSchema spTable spCols spSchema scans ?c = Some conv'"
        and w': "Written conv' = Written ?c @ ws"
        and k': "SyntheticPKeys conv' spTable =
           Some (?aux'\<lparr>sp_Sequence := sp_Sequence ?aux' + of_nat (length ws)\<rparr>)"
        and v': "\<forall>k < length ws. last (wr_cols (ws ! k)) = sp_Col ?aux' \<and>
            synthetic_value (ws ! k) = VInt64 (word_reverse (sp_Sequence ?aux' + of_nat k))"
        by blast
      have a: "Written conv' = Written conv @ (?row # ws)"
        using w w' by simp
      have b: "SyntheticPKeys conv' spTable =
           Some (aux\<lparr>sp_Sequence := sp_Sequence aux + of_nat (length (?row # ws))\<rparr>)"
        using k' by (simp add: add.assoc)
      have c: "\<forall>k < length (?row # ws). last (wr_cols ((?row # ws) ! k)) = sp_Col aux \<and>
            synthetic_value ((?row # ws) ! k) = VInt64 (word_reverse (sp_Sequence aux + of_nat k))"
      proof (intro allI impI)
        fix k assume "k < length (?row # ws)"
        then show "last (wr_cols ((?row # ws) ! k)) = sp_Col aux \<and>
            synthetic_value ((?row # ws) ! k) = VInt64 (word_reverse (sp_Sequence aux + of_nat k))"
          using v' by (cases k) (simp_all add: synthetic_value_def add.assoc)
      qed
      from step p a b c show ?thesis
        by (intro exI [of _ conv'] exI [of _ "?row # ws"]) simp
    qed
  qed
qed

lemma of_nat_int64_inj:
  assumes "i < 2 ^ 64" and "j < 2 ^ 64" and "(of_nat i :: int64) = of_nat j"
  shows "i = j"
proof -
  from assms(3) have "unat (of_nat i :: int64) = unat (of_nat j :: int64)" by simp
  with assms(1,2) show ?thesis
    by (simp add: unat_of_nat)
qed

lemma synthetic_values_distinct:
  assumes "n \<le> 2 ^ 64"
  shows "distinct (map (\<lambda>k. VInt64 (word_reverse (of_nat k :: int64))) [0..<n])"
proof -
  have "inj_on (\<lambda>k. VInt64 (word_reverse (of_nat k :: int64))) {0..<n}"
  proof (rule inj_onI)
    fix i j assume i: "i \<in> {0..<n}" and j: "j \<in> {0..<n}"
      and e: "VInt64 (word_reverse (of_nat i :: int64)) = VInt64 (word_reverse (of_nat j))"
    from e have "word_reverse (word_reverse (of_nat i :: int64)) =
        word_reverse (word_reverse (of_nat j :: int64))"
      by simp
    then have "(of_nat i :: int64) = of_nat j" by simp
    with i j assms show "i = j"
      by (intro of_nat_int64_inj) auto
  qed
  then show ?thesis
    by (simp add: distinct_map)
qed

lemma sint_of_nat_int64:
  assumes "k < 2 ^ 63"
  shows "sint (of_nat k :: int64) = int k"
proof -
  have "sint (of_nat k :: int64) = signed_take_bit 63 (int k)"
    by (simp add: signed_of_nat)
  also have "\<dots> = int k"
    using assms by (intro signed_take_bit_int_eq_self) simp_all
  finally show ?thesis .
qed

text \<open>
  C3.  For a target table with a synthetic key, a successful \<open>ConvertSQLRow\<close> ends
  its columns with the name of the key column and its values with the bit-reversed
  current sequence value, and advances the sequence by one.  Starting from sequence
  \<open>0\<close>, the \<open>k\<close>-th row written by the loop over the rows carries the bit reversal of
  \<open>k\<close>, the sequence ends at the number \<open>N\<close> of rows written, the values before
  reversal are \<open>0, ..., N - 1\<close> as signed 64-bit integers for \<open>N \<le> 2^63\<close>, and the
  reversed values are pairwise distinct for \<open>N \<le> 2^64\<close>.
\<close>

theorem synthetic_key_sequence:
  "(SyntheticPKeys conv spTable = Some aux \<and>
    ConvertSQLRow env conv srcTable srcCols srcSchema spTable spCols spSchema srcVals
      = Some ((cs, vs, None), conv') \<longrightarrow>
      (\<exists>cs0 vs0. cs = cs0 @ [sp_Col aux] \<and>
         vs = vs0 @ [VInt64 (word_reverse (sp_Sequence aux))]) \<and>
      conv' = conv\<lparr>SyntheticPKeys := (SyntheticPKeys conv)
                     (spTable \<mapsto> aux\<lparr>sp_Sequence := sp_Sequence aux + 1\<rparr>)\<rparr>)
   \<and> (SyntheticPKeys conv spTable = Some aux \<and> sp_Sequence aux = 0 \<and>
       length spCols = length srcCols \<and> scans_fit srcCols scans \<longrightarrow>
      (\<exists>conv2 ws.
         processRows env srcTable srcCols srcSchema spTable spCols spSchema scans conv = Some conv2 \<and>
         Written conv2 = Written conv @ ws \<and>
         SyntheticPKeys conv2 spTable = Some (aux\<lparr>sp_Sequence := of_nat (length ws)\<rparr>) \<and>
         (\<forall>k < length ws.
            last (wr_cols (ws ! k)) = sp_Col aux \<and>
            synthetic_value (ws ! k) = VInt64 (word_reverse (of_nat k)) \<and>
            (length ws \<le> 2 ^ 63 \<longrightarrow> sint (of_nat k :: int64) = int k)) \<and>
         (length ws \<le> 2 ^ 64 \<longrightarrow> distinct (map synthetic_value ws))))"
proof (intro conjI impI)
  assume "SyntheticPKeys conv spTable = Some aux \<and>
    ConvertSQLRow env conv srcTable srcCols srcSchema spTable spCols spSchema srcVals
      = Some ((cs, vs, None), conv')"
  then have a: "SyntheticPKeys conv spTable = Some aux"
    and r: "ConvertSQLRow env conv srcTable srcCols srcSchema spTable spCols spSchema srcVals
      = Some ((cs, vs, None), conv')"
    by simp_all
  from ConvertSQLRow_synthetic(1) [OF a r]
  show "\<exists>cs0 vs0. cs = cs0 @ [sp_Col aux] \<and> vs = vs0 @ [VInt64 (word_reverse (sp_Sequence aux))]" .
  from ConvertSQLRow_synthetic(2) [OF a r]
  show "conv' = conv\<lparr>SyntheticPKeys := (SyntheticPKeys conv)
                     (spTable \<mapsto> aux\<lparr>sp_Sequence := sp_Sequence aux + 1\<rparr>)\<rparr>" .
next
  assume h: "SyntheticPKeys conv spTable = Some aux \<and> sp_Sequence aux = 0 \<and>
       length spCols = length srcCols \<and> scans_fit srcCols scans"
  then have a: "SyntheticPKeys conv spTable = Some aux" and z: "sp_Sequence aux = 0"
    and l: "length spCols = length srcCols" and f: "scans_fit srcCols scans"
    by simp_all
  from processRows_synthetic [OF a l f, of env srcTable srcSchema spSchema] z
  obtain conv2 ws where
    p: "processRows env srcTable srcCols srcSchema spTable spCols spSchema scans conv = Some conv2"
    and w: "Written conv2 = Written conv @ ws"
    and k: "SyntheticPKeys conv2 spTable = Some (aux\<lparr>sp_Sequence := of_nat (length ws)\<rparr>)"
    and v: "\<forall>k < length ws. last (wr_cols (ws ! k)) = sp_Col aux \<and>
        synthetic_value (ws ! k) = VInt64 (word_reverse (of_nat k))"
    by auto
  have m: "map synthetic_value ws = map (\<lambda>k. VInt64 (word_reverse (of_nat k :: int64))) [0..<length ws]"
    using v by (intro nth_equalityI) simp_all
  have d: "length ws \<le> 2 ^ 64 \<longrightarrow> distinct (map synthetic_value ws)"
    using synthetic_values_distinct [of "length ws"] m by simp
  have i: "\<forall>k < length ws. length ws \<le> 2 ^ 63 \<longrightarrow> sint (of_nat k :: int64) = int k"
    by (auto intro!: sint_of_nat_int64)
  from p w k v d i
  show "\<exists>conv2 ws.
         processRows env srcTable srcCols srcSchema spTable spCols spSchema scans conv = Some conv2 \<and>
         Written conv2 = Written conv @ ws \<and>
         SyntheticPKeys conv2 spTable = Some (aux\<lparr>sp_Sequence := of_nat (length ws)\<rparr>) \<and>
         (\<forall>k < length ws.
            last (wr_cols (ws ! k)) = sp_Col aux \<and>
            synthetic_value (ws ! k) = VInt64 (word_reverse (of_nat k)) \<and>
            (length ws \<le> 2 ^ 63 \<longrightarrow> sint (of_nat k :: int64) = int k)) \<and>
         (length ws \<le> 2 ^ 64 \<longrightarrow> distinct (map synthetic_value ws))"
    by (intro exI [of _ conv2] exI [of _ ws]) simp
qed

lemma errOf_None_iff: "errOf r = None \<longleftrightarrow> \<not> isl r"
  by (simp add: errOf_def split: sum.splits)

text \<open>
  C5 (as amended).  When the \<open>SELECT\<close> of a table fails, the failure is reported, the
  statistics are left as they were, and the loop goes on with the remaining tables.
  When the columns, the target names or one of the two schemas of the table cannot be
  obtained, the failure is reported, the whole row count of the table is added to its
  bad rows (the counters of the other tables stay), no row is written, and the loop
  goes on with the remaining tables.
\<close>

theorem table_failure_accounting:
  "(db_Select db (fst t) (snd t) = Inl err \<longrightarrow>
      processTable env db t conv = Some (Unexpected conv (CouldntGetData err)) \<and>
      Stats (Unexpected conv (CouldntGetData err)) = Stats conv \<and>
      processTables env db (t # ts) conv
        = processTables env db ts (Unexpected conv (CouldntGetData err)))
   \<and> (db_Select db (fst t) (snd t) = Inr rows \<and>
       table_unresolved conv (buildTableName (fst t) (snd t)) rows \<longrightarrow>
      (\<exists>conv' u. processTable env db t conv = Some conv' \<and>
         badRowsOf (buildTableName (fst t) (snd t)) conv'
           = badRowsOf (buildTableName (fst t) (snd t)) conv
             + rowsOf (buildTableName (fst t) (snd t)) conv \<and>
         (\<forall>t'. t' \<noteq> buildTableName (fst t) (snd t) \<longrightarrow> badRowsOf t' conv' = badRowsOf t' conv) \<and>
         Unexpecteds conv' = Unexpecteds conv @ [u] \<and>
         Written conv' = Written conv \<and>
         processTables env db (t # ts) conv = processTables env db ts conv'))"
proof (intro conjI impI)
  assume e: "db_Select db (fst t) (snd t) = Inl err"
  then show p: "processTable env db t conv = Some (Unexpected conv (CouldntGetData err))"
    by (simp add: processTable_def)
  show "Stats (Unexpected conv (CouldntGetData err)) = Stats conv"
    by (simp add: Unexpected_def)
  from p show "processTables env db (t # ts) conv
        = processTables env db ts (Unexpected conv (CouldntGetData err))"
    by simp
next
  let ?s = "buildTableName (fst t) (snd t)"
  assume "db_Select db (fst t) (snd t) = Inr rows \<and> table_unresolved conv ?s rows"
  then have sel: "db_Select db (fst t) (snd t) = Inr rows" and un: "table_unresolved conv ?s rows"
    by simp_all
  let ?u = "CantGetColsAndSchemas ?s (errOf (rows_Columns rows)) (errOf (GetSpannerTable conv ?s))
      (errOf (GetSpannerCols conv ?s (valOf [] (rows_Columns rows))))
      (SpSchema conv (valOf [] (GetSpannerTable conv ?s)) \<noteq> None) (SrcSchema conv ?s \<noteq> None)"
  let ?c = "Unexpected
      (conv\<lparr>Stats := (Stats conv)\<lparr>BadRows := (BadRows (Stats conv))(?s \<mapsto>
          get0 0 (BadRows (Stats conv)) ?s + get0 0 (Rows (Stats conv)) ?s)\<rparr>\<rparr>) ?u"
  from un have "errOf (rows_Columns rows) \<noteq> None \<or> errOf (GetSpannerTable conv ?s) \<noteq> None \<or>
      errOf (GetSpannerCols conv ?s (valOf [] (rows_Columns rows))) \<noteq> None \<or>
      \<not> (SpSchema conv (valOf [] (GetSpannerTable conv ?s)) \<noteq> None) \<or>
      \<not> (SrcSchema conv ?s \<noteq> None)"
    by (auto simp add: table_unresolved_def errOf_None_iff)
  with sel have p: "processTable env db t conv = Some ?c"
    unfolding processTable_def Let_def by (simp del: not_None_eq)
  have "badRowsOf ?s ?c = badRowsOf ?s conv + rowsOf ?s conv"
    and "\<forall>t'. t' \<noteq> ?s \<longrightarrow> badRowsOf t' ?c = badRowsOf t' conv"
    and "Unexpecteds ?c = Unexpecteds conv @ [?u]" and "Written ?c = Written conv"
    by (simp_all add: badRowsOf_def rowsOf_def Unexpected_def get0_def)
  moreover from p have "processTables env db (t # ts) conv = processTables env db ts ?c"
    by simp
  ultimately show "\<exists>conv' u. processTable env db t conv = Some conv' \<and>
         badRowsOf ?s conv' = badRowsOf ?s conv + rowsOf ?s conv \<and>
         (\<forall>t'. t' \<noteq> ?s \<longrightarrow> badRowsOf t' conv' = badRowsOf t' conv) \<and>
         Unexpecteds conv' = Unexpecteds conv @ [u] \<and>
         Written conv' = Written conv \<and>
         processTables env db (t # ts) conv = processTables env db ts conv'"
    using p by (intro exI [of _ ?c] exI [of _ ?u]) simp
qed

lemmas ddl_names = ddl_Bool_def ddl_Bytes_def ddl_Date_def ddl_Int64_def ddl_Float64_def
  ddl_String_def ddl_Timestamp_def

lemma pipe_src_cols:
  "entries (tb_ColDefs pipe_src) ''sa'' = Some (plain_column ''sa'' ''int8'' [])"
  "entries (tb_ColDefs pipe_src) ''sb'' = Some (plain_column ''sb'' ''text'' [])"
  by (simp_all add: pipe_src_def)

lemma pipe_sp_cols:
  "entries (ct_ColDefs pipe_sp) ''a'' =
     Some (zero_ColumnDef\<lparr>cd_Name := ''a'', cd_T := zero_Type\<lparr>ty_Name := ddl_Int64\<rparr>\<rparr>)"
  "entries (ct_ColDefs pipe_sp) ''b'' =
     Some (zero_ColumnDef\<lparr>cd_Name := ''b'', cd_T := zero_Type\<lparr>ty_Name := ddl_String\<rparr>\<rparr>)"
  by (simp_all add: pipe_sp_def)

lemma pipe_cells:
  "cvtCell sample_env conv srcCd
     (zero_ColumnDef\<lparr>cd_Name := ''a'', cd_T := zero_Type\<lparr>ty_Name := ddl_Int64\<rparr>\<rparr>) (VInt64 1)
     = Inr (VInt64 1)"
  "cvtCell sample_env conv srcCd
     (zero_ColumnDef\<lparr>cd_Name := ''a'', cd_T := zero_Type\<lparr>ty_Name := ddl_Int64\<rparr>\<rparr>) (VString ''x'')
     = Inl (ConvError ''invalid syntax'')"
  "cvtCell sample_env conv srcCd
     (zero_ColumnDef\<lparr>cd_Name := ''a'', cd_T := zero_Type\<lparr>ty_Name := ddl_Int64\<rparr>\<rparr>) (VString ''7'')
     = Inr (VInt64 7)"
  "cvtCell sample_env conv srcCd
     (zero_ColumnDef\<lparr>cd_Name := ''b'', cd_T := zero_Type\<lparr>ty_Name := ddl_String\<rparr>\<rparr>) (VString s)
     = Inr (VString s)"
  by (simp_all add: cvtCell_def cvtSQLScalar_def parsed_def Let_def zero_ColumnDef_def
      zero_Type_def ddl_names sample_env_def)

lemma pipe_row1:
  "SyntheticPKeys conv ''t'' = Some aux \<Longrightarrow>
   ConvertSQLRow sample_env conv ''s'' [''sa'', ''sb''] pipe_src ''t'' [''a'', ''b'']
      pipe_sp [VInt64 1, VNil]
   = Some (([''sa'', sp_Col aux], [VInt64 1, VInt64 (word_reverse (sp_Sequence aux))], None),
       conv\<lparr>SyntheticPKeys := (SyntheticPKeys conv)
              (''t'' \<mapsto> aux\<lparr>sp_Sequence := sp_Sequence aux + 1\<rparr>)\<rparr>)"
  by (simp add: ConvertSQLRow_def pipe_src_cols pipe_sp_cols pipe_cells)

lemma pipe_row2:
  "ConvertSQLRow sample_env conv ''s'' [''sa'', ''sb''] pipe_src ''t'' [''a'', ''b'']
      pipe_sp [VString ''x'', VString ''y'']
   = Some (([], [], Some (CantConvertColumn ''sa'' ''s'' (ConvError ''invalid syntax''))), conv)"
  by (simp add: ConvertSQLRow_def pipe_src_cols pipe_sp_cols pipe_cells)

lemma pipe_row3:
  "SyntheticPKeys conv ''t'' = Some aux \<Longrightarrow>
   ConvertSQLRow sample_env conv ''s'' [''sa'', ''sb''] pipe_src ''t'' [''a'', ''b'']
      pipe_sp [VString ''7'', VString ''z'']
   = Some (([''sa'', ''sb'', sp_Col aux],
            [VInt64 7, VString ''z'', VInt64 (word_reverse (sp_Sequence aux))], None),
       conv\<lparr>SyntheticPKeys := (SyntheticPKeys conv)
              (''t'' \<mapsto> aux\<lparr>sp_Sequence := sp_Sequence aux + 1\<rparr>)\<rparr>)"
  by (simp add: ConvertSQLRow_def pipe_src_cols pipe_sp_cols pipe_cells)

lemma pipe_key: "SyntheticPKeys pipe_conv ''t'' = Some \<lparr>sp_Col = ''synth_id'', sp_Sequence = 0\<rparr>"
  by (simp add: pipe_conv_def empty_conv_def)

lemma pipe_row_good:
  "map_option fst (ConvertSQLRow sample_env pipe_conv ''s'' [''sa'', ''sb''] pipe_src ''t''
      [''a'', ''b''] pipe_sp [VInt64 1, VNil])
   = Some ([''sa'', ''synth_id''], [VInt64 1, VInt64 (word_reverse 0)], None)"
  by (simp add: pipe_row1 [OF pipe_key])

theorem null_cells_omitted_witness:
  "map_option fst (ConvertSQLRow sample_env pipe_conv ''s'' [''sa'', ''sb''] pipe_src ''t''
      [''a'', ''b''] pipe_sp [VInt64 1, VNil])
     = Some ([''sa'', ''synth_id''], [VInt64 1, VInt64 (word_reverse 0)], None)
   \<and> non_null_columns [''sa'', ''sb''] [VInt64 1, VNil] = [''sa'']
   \<and> synthetic_columns pipe_conv ''t'' = [''synth_id'']"
proof -
  have l1: "length [''a'', ''b''] = length [''sa'', ''sb'']"
    and l2: "length [VInt64 1, VNil] = length [''sa'', ''sb'']"
    by simp_all
  have "\<exists>cs vs err conv'.
     ConvertSQLRow sample_env pipe_conv ''s'' [''sa'', ''sb''] pipe_src ''t'' [''a'', ''b'']
          pipe_sp [VInt64 1, VNil] = Some ((cs, vs, err), conv') \<and>
     length cs = length vs \<and>
     (err = None \<longrightarrow>
        cs = non_null_columns [''sa'', ''sb''] [VInt64 1, VNil] @ synthetic_columns pipe_conv ''t'' \<and>
        vs = map (converted_cell sample_env pipe_conv [''sa'', ''sb''] pipe_src [''a'', ''b''] pipe_sp [VInt64 1, VNil])
               (non_null_cells [VInt64 1, VNil] [0..<length [''sa'', ''sb'']]) @ synthetic_values pipe_conv ''t'') \<and>
     (distinct [''sa'', ''sb''] \<longrightarrow>
        (\<forall>i < length [''sa'', ''sb'']. [VInt64 1, VNil] ! i = VNil \<longrightarrow>
           [''sa'', ''sb''] ! i \<notin> set (non_null_columns [''sa'', ''sb''] [VInt64 1, VNil])))"
    by (rule null_cells_omitted [OF l1 l2])
  then obtain cs vs err conv' where
    r: "ConvertSQLRow sample_env pipe_conv ''s'' [''sa'', ''sb''] pipe_src ''t'' [''a'', ''b'']
          pipe_sp [VInt64 1, VNil] = Some ((cs, vs, err), conv')"
    and e: "err = None \<longrightarrow>
        cs = non_null_columns [''sa'', ''sb''] [VInt64 1, VNil] @ synthetic_columns pipe_conv ''t'' \<and>
        vs = map (converted_cell sample_env pipe_conv [''sa'', ''sb''] pipe_src [''a'', ''b''] pipe_sp [VInt64 1, VNil])
               (non_null_cells [VInt64 1, VNil] [0..<length [''sa'', ''sb'']]) @ synthetic_values pipe_conv ''t''"
    by (elim exE conjE)
  have nn: "non_null_columns [''sa'', ''sb''] [VInt64 1, VNil] = [''sa'']"
    by (simp add: non_null_columns_def non_null_cells_def)
  have sc: "synthetic_columns pipe_conv ''t'' = [''synth_id'']"
    by (simp add: synthetic_columns_def pipe_key)
  from r pipe_row_good have "err = None" by auto
  with e nn sc have "cs = [''sa'', ''synth_id'']" by simp
  with r pipe_row_good nn sc show ?thesis
    by simp
qed

lemma pipe_row_null_bad:
  "ConvertSQLRow sample_env conv ''s'' [''sa'', ''sb''] pipe_src ''t'' [''a'', ''b'']
      pipe_sp [VString ''x'', VNil]
   = Some (([], [], Some (CantConvertColumn ''sa'' ''s'' (ConvError ''invalid syntax''))), conv)"
  by (simp add: ConvertSQLRow_def pipe_src_cols pipe_sp_cols pipe_cells)

theorem row_failure_atomic_witness:
  "row_fails sample_env pipe_conv [''sa'', ''sb''] pipe_src [''a'', ''b''] pipe_sp
      [VString ''x'', VNil]
   \<and> map_option fst (ConvertSQLRow sample_env pipe_conv ''s'' [''sa'', ''sb''] pipe_src ''t''
      [''a'', ''b''] pipe_sp [VString ''x'', VNil])
     = Some ([], [], Some (CantConvertColumn ''sa'' ''s'' (ConvError ''invalid syntax'')))
   \<and> map_option (badRowsOf ''s'')
       (processRows sample_env ''s'' [''sa'', ''sb''] pipe_src ''t'' [''a'', ''b''] pipe_sp
          [Inr [VString ''x'', VNil], Inr [VString ''7'', VString ''z'']] pipe_conv)
     = Some 1
   \<and> map_option SampleBadRows
       (processRows sample_env ''s'' [''sa'', ''sb''] pipe_src ''t'' [''a'', ''b''] pipe_sp
          [Inr [VString ''x'', VNil], Inr [VString ''7'', VString ''z'']] pipe_conv)
     = Some [\<lparr>br_table = ''s'', br_cols = [''sa'', ''sb''], br_vals = [''x'', ''NULL'']\<rparr>]
   \<and> map_option (\<lambda>c. map wr_vals (Written c))
       (processRows sample_env ''s'' [''sa'', ''sb''] pipe_src ''t'' [''a'', ''b''] pipe_sp
          [Inr [VString ''x'', VNil], Inr [VString ''7'', VString ''z'']] pipe_conv)
     = Some [[VInt64 7, VString ''z'', VInt64 (word_reverse 0)]]
   \<and> \<not> row_fails sample_env pipe_conv [''sa'', ''sb''] pipe_src [''a'', ''b''] pipe_sp
      [VInt64 1, VNil]"
proof -
  let ?bad = "[VString ''x'', VNil]"
  let ?rest = "[Inr [VString ''7'', VString ''z'']] :: (string + val list) list"
  let ?run = "processRows sample_env ''s'' [''sa'', ''sb''] pipe_src ''t'' [''a'', ''b''] pipe_sp
          (Inr ?bad # ?rest) pipe_conv"
  have l1: "length [''a'', ''b''] = length [''sa'', ''sb'']"
    and l2: "length ?bad = length [''sa'', ''sb'']"
    and l3: "length [VInt64 1, VNil] = length [''sa'', ''sb'']"
    by simp_all
  from row_failure_atomic [OF l1 l2, where env = sample_env and conv = pipe_conv
      and srcTable = "''s''" and srcSchema = pipe_src and spTable = "''t''"
      and spSchema = pipe_sp and rest = ?rest]
  obtain cs vs err conv' where
    r1: "ConvertSQLRow sample_env pipe_conv ''s'' [''sa'', ''sb''] pipe_src ''t'' [''a'', ''b'']
          pipe_sp ?bad = Some ((cs, vs, err), conv')"
    and i1: "err \<noteq> None \<longleftrightarrow> row_fails sample_env pipe_conv [''sa'', ''sb''] pipe_src [''a'', ''b'']
          pipe_sp ?bad"
    and k: "err \<noteq> None \<longrightarrow>
        cs = [] \<and> vs = [] \<and> conv' = pipe_conv \<and>
        (\<exists>conv1.
           processRows sample_env ''s'' [''sa'', ''sb''] pipe_src ''t'' [''a'', ''b''] pipe_sp
             [Inr ?bad] pipe_conv = Some conv1 \<and>
           conv1 = pipe_conv
             \<lparr>Stats := (Stats pipe_conv)\<lparr>BadRows := (BadRows (Stats pipe_conv))
                 (''s'' \<mapsto> get0 0 (BadRows (Stats pipe_conv)) ''s'' + 1)\<rparr>,
              Unexpecteds := Unexpecteds pipe_conv @ [CouldntProcessRow (the err)],
              SampleBadRows :=
                (if length (SampleBadRows pipe_conv) < SampleLimit pipe_conv
                 then SampleBadRows pipe_conv @
                   [\<lparr>br_table = ''s'', br_cols = [''sa'', ''sb''],
                     br_vals = map (\<lambda>v. if v = VNil then ''NULL'' else Sprintf_v sample_env v) ?bad\<rparr>]
                 else SampleBadRows pipe_conv)\<rparr> \<and>
           badRowsOf ''s'' conv1 = badRowsOf ''s'' pipe_conv + 1 \<and>
           (\<forall>t. t \<noteq> ''s'' \<longrightarrow> badRowsOf t conv1 = badRowsOf t pipe_conv) \<and>
           Written conv1 = Written pipe_conv \<and>
           (scans_fit [''sa'', ''sb''] ?rest \<longrightarrow>
              (\<exists>conv2 nw.
                 processRows sample_env ''s'' [''sa'', ''sb''] pipe_src ''t'' [''a'', ''b''] pipe_sp
                   (Inr ?bad # ?rest) pipe_conv = Some conv2 \<and>
                 processRows sample_env ''s'' [''sa'', ''sb''] pipe_src ''t'' [''a'', ''b''] pipe_sp
                   ?rest conv1 = Some conv2 \<and>
                 nw \<le> length ?rest \<and>
                 length (Written conv2) = length (Written pipe_conv) + nw \<and>
                 badRowsOf ''s'' conv2
                   = badRowsOf ''s'' pipe_conv + 1 + of_nat (length ?rest - nw))))"
    by (elim exE conjE)
  from r1 have e: "err = Some (CantConvertColumn ''sa'' ''s'' (ConvError ''invalid syntax''))"
    by (simp add: pipe_row_null_bad)
  then have ne: "err \<noteq> None" by simp
  with i1 have bad: "row_fails sample_env pipe_conv [''sa'', ''sb''] pipe_src
      [''a'', ''b''] pipe_sp ?bad"
    by simp
  have out: "map_option fst (ConvertSQLRow sample_env pipe_conv ''s'' [''sa'', ''sb''] pipe_src ''t''
      [''a'', ''b''] pipe_sp ?bad)
     = Some ([], [], Some (CantConvertColumn ''sa'' ''s'' (ConvError ''invalid syntax'')))"
    by (simp add: pipe_row_null_bad)
  from k [THEN mp, OF ne]
  obtain conv1 where
    c1: "conv1 = pipe_conv
             \<lparr>Stats := (Stats pipe_conv)\<lparr>BadRows := (BadRows (Stats pipe_conv))
                 (''s'' \<mapsto> get0 0 (BadRows (Stats pipe_conv)) ''s'' + 1)\<rparr>,
              Unexpecteds := Unexpecteds pipe_conv @ [CouldntProcessRow (the err)],
              SampleBadRows :=
                (if length (SampleBadRows pipe_conv) < SampleLimit pipe_conv
                 then SampleBadRows pipe_conv @
                   [\<lparr>br_table = ''s'', br_cols = [''sa'', ''sb''],
                     br_vals = map (\<lambda>v. if v = VNil then ''NULL'' else Sprintf_v sample_env v) ?bad\<rparr>]
                 else SampleBadRows pipe_conv)\<rparr>"
    and l: "scans_fit [''sa'', ''sb''] ?rest \<longrightarrow>
              (\<exists>conv2 nw.
                 processRows sample_env ''s'' [''sa'', ''sb''] pipe_src ''t'' [''a'', ''b''] pipe_sp
                   (Inr ?bad # ?rest) pipe_conv = Some conv2 \<and>
                 processRows sample_env ''s'' [''sa'', ''sb''] pipe_src ''t'' [''a'', ''b''] pipe_sp
                   ?rest conv1 = Some conv2 \<and>
                 nw \<le> length ?rest \<and>
                 length (Written conv2) = length (Written pipe_conv) + nw \<and>
                 badRowsOf ''s'' conv2
                   = badRowsOf ''s'' pipe_conv + 1 + of_nat (length ?rest - nw))"
    by (elim exE conjE)
  have sf: "scans_fit [''sa'', ''sb''] ?rest"
    by (simp add: scans_fit_def)
  from l [THEN mp, OF sf]
  obtain conv2 nw where
    p: "?run = Some conv2"
    and p2: "processRows sample_env ''s'' [''sa'', ''sb''] pipe_src ''t'' [''a'', ''b''] pipe_sp
                   ?rest conv1 = Some conv2"
    by (elim exE conjE)
  have k1: "SyntheticPKeys conv1 ''t'' = Some \<lparr>sp_Col = ''synth_id'', sp_Sequence = 0\<rparr>"
    by (simp add: c1 pipe_key)
  from p2 have c2: "conv2 = WriteRow
      (conv1\<lparr>SyntheticPKeys := (SyntheticPKeys conv1)
          (''t'' \<mapsto> \<lparr>sp_Col = ''synth_id'', sp_Sequence = 0 + 1\<rparr>)\<rparr>)
      ''s'' ''t'' [''sa'', ''sb'', ''synth_id''] [VInt64 7, VString ''z'', VInt64 (word_reverse 0)]"
    by (simp add: pipe_row3 [OF k1])
  have b: "badRowsOf ''s'' conv2 = 1"
    by (simp add: c2 c1 WriteRow_def badRowsOf_def get0_def pipe_conv_def empty_conv_def)
  have s: "SampleBadRows conv2 =
      [\<lparr>br_table = ''s'', br_cols = [''sa'', ''sb''], br_vals = [''x'', ''NULL'']\<rparr>]"
    by (simp add: c2 c1 WriteRow_def pipe_conv_def empty_conv_def sample_env_def)
  have w: "map wr_vals (Written conv2) = [[VInt64 7, VString ''z'', VInt64 (word_reverse 0)]]"
    by (simp add: c2 c1 WriteRow_def pipe_conv_def empty_conv_def)
  from row_failure_atomic [OF l1 l3, where env = sample_env and conv = pipe_conv
      and srcTable = "''s''" and srcSchema = pipe_src and spTable = "''t''"
      and spSchema = pipe_sp and rest = "[]"]
  obtain cs2 vs2 err2 conv3 where
    r2: "ConvertSQLRow sample_env pipe_conv ''s'' [''sa'', ''sb''] pipe_src ''t'' [''a'', ''b'']
          pipe_sp [VInt64 1, VNil] = Some ((cs2, vs2, err2), conv3)"
    and i2: "err2 \<noteq> None \<longleftrightarrow> row_fails sample_env pipe_conv [''sa'', ''sb''] pipe_src [''a'', ''b'']
          pipe_sp [VInt64 1, VNil]"
    by (elim exE conjE)
  from r2 pipe_row_good have "err2 = None" by auto
  with i2 have good: "\<not> row_fails sample_env pipe_conv [''sa'', ''sb''] pipe_src
      [''a'', ''b''] pipe_sp [VInt64 1, VNil]"
    by simp
  from bad out good b s w show ?thesis
    by (simp only: p option.map simp_thms)
qed

lemma pipe_rows_written:
  "map_option written_synthetic
     (processRows sample_env ''s'' [''sa'', ''sb''] pipe_src ''t'' [''a'', ''b''] pipe_sp
        pipe_scans pipe_conv)
   = Some [VInt64 (word_reverse 0), VInt64 (word_reverse 1)]"
  by (simp add: pipe_scans_def pipe_row1 pipe_row2 pipe_row3 pipe_key written_synthetic_def
      synthetic_value_def WriteRow_def CollectBadRow_def StatsAddBadRow_def Unexpected_def
      DataMode_def pipe_conv_def empty_conv_def)

text \<open>
  The claim as stated fails: for a table without source schema, whose row count is 5,
  the run takes the bad rows of the table from 0 to 5.
\<close>

theorem table_failure_changes_bad_rows:
  "badRowsOf ''orders'' unresolved_conv = 0
   \<and> map_option (badRowsOf ''orders'')
       (ProcessSQLData sample_env unresolved_conv unresolved_db) = Some 5"
  by (simp add: ProcessSQLData_def getTables_def ignoredSchemas_def processTable_def
      buildTableName_def GetSpannerTable_def GetSpannerCols_def cols_of_def errOf_def valOf_def
      Unexpected_def badRowsOf_def get0_def unresolved_db_def unresolved_conv_def empty_conv_def
      Let_def)

theorem synthetic_key_sequence_witness:
  "map_option written_synthetic
     (processRows sample_env ''s'' [''sa'', ''sb''] pipe_src ''t'' [''a'', ''b''] pipe_sp
        pipe_scans pipe_conv)
     = Some [VInt64 (word_reverse 0), VInt64 (word_reverse 1)]
   \<and> Option.bind
     (processRows sample_env ''s'' [''sa'', ''sb''] pipe_src ''t'' [''a'', ''b''] pipe_sp
        pipe_scans pipe_conv) (sequence_of ''t'') = Some 2
   \<and> word_reverse (0 :: int64) \<noteq> word_reverse 1"
proof -
  let ?aux = "\<lparr>sp_Col = ''synth_id'', sp_Sequence = 0\<rparr>"
  have h: "SyntheticPKeys pipe_conv ''t'' = Some ?aux \<and> sp_Sequence ?aux = 0 \<and>
      length [''a'', ''b''] = length [''sa'', ''sb''] \<and> scans_fit [''sa'', ''sb''] pipe_scans"
    using pipe_key by (simp add: scans_fit_def pipe_scans_def)
  from synthetic_key_sequence [where env = sample_env and conv = pipe_conv and srcTable = "''s''"
      and srcSchema = pipe_src and spTable = "''t''" and spSchema = pipe_sp and aux = ?aux
      and srcCols = "[''sa'', ''sb'']" and spCols = "[''a'', ''b'']" and scans = pipe_scans,
      THEN conjunct2, rule_format, OF h]
  obtain conv2 ws where
    p: "processRows sample_env ''s'' [''sa'', ''sb''] pipe_src ''t'' [''a'', ''b''] pipe_sp
        pipe_scans pipe_conv = Some conv2"
    and w: "Written conv2 = Written pipe_conv @ ws"
    and k: "SyntheticPKeys conv2 ''t'' = Some (?aux\<lparr>sp_Sequence := of_nat (length ws)\<rparr>)"
    and d: "length ws \<le> 2 ^ 64 \<longrightarrow> distinct (map synthetic_value ws)"
    by (elim exE conjE)
  from p pipe_rows_written have ws: "written_synthetic conv2
      = [VInt64 (word_reverse 0), VInt64 (word_reverse 1)]"
    by simp
  with w have m: "map synthetic_value ws = [VInt64 (word_reverse 0), VInt64 (word_reverse 1)]"
    by (simp add: written_synthetic_def pipe_conv_def empty_conv_def)
  have n: "length ws = 2"
    using arg_cong [OF m, of length] by simp
  with d m have "word_reverse (0 :: int64) \<noteq> word_reverse 1"
    by simp
  moreover from k n have "sequence_of ''t'' conv2 = Some 2"
    by (simp add: sequence_of_def)
  ultimately show ?thesis
    using p ws by simp
qed

theorem table_failure_accounting_witness:
  "table_unresolved unresolved_conv (buildTableName ''public'' ''orders'')
      \<lparr>rows_Columns = Inr [''id''], rows_Scans = [Inr [VInt64 1]]\<rparr>
   \<and> map_option (badRowsOf ''orders'')
       (processTable sample_env unresolved_db (''public'', ''orders'') unresolved_conv) = Some 5
   \<and> rowsOf ''orders'' unresolved_conv = 5
   \<and> map_option Stats (processTable sample_env failing_db (''public'', ''orders'') unresolved_conv)
       = Some (Stats unresolved_conv)"
proof -
  let ?rows = "\<lparr>rows_Columns = Inr [''id''], rows_Scans = [Inr [VInt64 1]]\<rparr>"
  let ?t = "(''public'', ''orders'')"
  have n: "buildTableName ''public'' ''orders'' = ''orders''"
    by (simp add: buildTableName_def)
  have u: "table_unresolved unresolved_conv (buildTableName ''public'' ''orders'') ?rows"
    by (simp add: table_unresolved_def n unresolved_conv_def empty_conv_def)
  have s: "db_Select unresolved_db (fst ?t) (snd ?t) = Inr ?rows \<and>
      table_unresolved unresolved_conv (buildTableName (fst ?t) (snd ?t)) ?rows"
    using u by (simp add: unresolved_db_def)
  have b0: "badRowsOf ''orders'' unresolved_conv = 0" and r0: "rowsOf ''orders'' unresolved_conv = 5"
    by (simp_all add: badRowsOf_def rowsOf_def get0_def unresolved_conv_def empty_conv_def)
  from table_failure_accounting [where env = sample_env and conv = unresolved_conv
      and db = unresolved_db and t = ?t and rows = ?rows and ts = "[]",
      THEN conjunct2, rule_format, OF s]
  obtain conv' where
    "processTable sample_env unresolved_db ?t unresolved_conv = Some conv'"
    and "badRowsOf (buildTableName (fst ?t) (snd ?t)) conv'
           = badRowsOf (buildTableName (fst ?t) (snd ?t)) unresolved_conv
             + rowsOf (buildTableName (fst ?t) (snd ?t)) unresolved_conv"
    by (elim exE conjE)
  with b0 r0 n have 1: "map_option (badRowsOf ''orders'')
       (processTable sample_env unresolved_db ?t unresolved_conv) = Some 5"
    by simp
  have f: "db_Select failing_db (fst ?t) (snd ?t) = Inl ''connection lost''"
    by (simp add: failing_db_def)
  from table_failure_accounting [where env = sample_env and conv = unresolved_conv
      and db = failing_db and t = ?t and err = "''connection lost''" and ts = "[]",
      THEN conjunct1, rule_format, OF f]
  have 2: "map_option Stats (processTable sample_env failing_db ?t unresolved_conv)
       = Some (Stats unresolved_conv)"
    by simp
  from u 1 2 r0 show ?thesis by simp
qed

end
